(* ===== verification/Shotover_Prelude.thy ===== *)
theory Shotover_Prelude
  imports Main "HOL-Library.Multiset" "HOL-Library.AList" "HOL-Library.Sublist" "HOL-Library.Word"
begin

text \<open>
  Shared vocabulary of the development: the model's primitive types, results
  of fallible operations, the association lists that stand for the hash maps
  a function builds locally, and the list facts the components share.

  A \<^verbatim>\<open>HashMap\<close> that is built by one function and then iterated is an
  association list with distinct keys; a map that is only looked up and
  updated (a \<^verbatim>\<open>DashMap\<close> of the sinks) is a HOL map.
\<close>

named_theorems hashmap "rewriting rules for the association lists that model local hash maps"
named_theorems result "rewriting rules for results of fallible operations"

type_synonym byte = "8 word"
type_synonym bytes = "byte list"
type_synonym message_id = nat
type_synonym uuid = nat
type_synonym opaque = nat

text \<open>Rust's \<^verbatim>\<open>anyhow::Result\<close>: the error is its message; a panic is an error of its own kind.\<close>

datatype err = Err string | Panic string

type_synonym 'a result = "err + 'a"

abbreviation Ok :: "'a \<Rightarrow> 'a result" where
  "Ok x \<equiv> Inr x"

definition bind_result :: "'a result \<Rightarrow> ('a \<Rightarrow> 'b result) \<Rightarrow> 'b result" where
  "bind_result r f = (case r of Inl e \<Rightarrow> Inl e | Inr x \<Rightarrow> f x)"

lemma bind_result_simps [simp]:
  "bind_result (Inl e) f = Inl e"
  "bind_result (Inr x) f = f x"
  by (simp_all add: bind_result_def)

lemma bind_result_Inr_iff [result]:
  "bind_result r f = Inr y \<longleftrightarrow> (\<exists>x. r = Inr x \<and> f x = Inr y)"
  by (cases r) auto

text \<open>A loop whose body may fail with \<^verbatim>\<open>?\<close> threads its state through the elements and stops at the first error.\<close>

fun fold_result :: "('a \<Rightarrow> 's \<Rightarrow> 's result) \<Rightarrow> 'a list \<Rightarrow> 's \<Rightarrow> 's result" where
  "fold_result f [] s = Inr s"
| "fold_result f (x # xs) s = bind_result (f x s) (fold_result f xs)"

lemma fold_result_append:
  "fold_result f (xs @ ys) s = bind_result (fold_result f xs s) (fold_result f ys)"
  by (induction xs arbitrary: s) (auto simp: bind_result_def split: sum.splits)

lemma fold_result_invariant:
  assumes "fold_result f xs s = Inr t" and "P s"
    and "\<And>x u v. x \<in> set xs \<Longrightarrow> P u \<Longrightarrow> f x u = Inr v \<Longrightarrow> P v"
  shows "P t"
  using assms by (induction xs arbitrary: s) (auto simp: result)

subsection \<open>Local hash maps as association lists\<close>

text \<open>\<^verbatim>\<open>*map.entry(k).or_default() = f(old)\<close>: the entry keeps its place, a new one goes last.\<close>

fun entry_or :: "'v \<Rightarrow> 'k \<Rightarrow> ('v \<Rightarrow> 'v) \<Rightarrow> ('k \<times> 'v) list \<Rightarrow> ('k \<times> 'v) list" where
  "entry_or d k f [] = [(k, f d)]"
| "entry_or d k f ((k', v) # m) = (if k' = k then (k', f v) # m else (k', v) # entry_or d k f m)"

definition push_to :: "'k \<Rightarrow> 'a \<Rightarrow> ('k \<times> 'a list) list \<Rightarrow> ('k \<times> 'a list) list" where
  "push_to k x = entry_or [] k (\<lambda>xs. xs @ [x])"

definition elems_of :: "('k \<times> 'a list) list \<Rightarrow> 'a list" where
  "elems_of m = concat (map snd m)"

lemma fst_entry_or [hashmap]:
  "fst ` set (entry_or d k f m) = insert k (fst ` set m)"
  by (induction d k f m rule: entry_or.induct) auto

lemma keys_entry_or [hashmap]:
  "map fst (entry_or d k f m) = (if k \<in> fst ` set m then map fst m else map fst m @ [k])"
  by (induction d k f m rule: entry_or.induct) auto

lemma distinct_entry_or [hashmap]:
  "distinct (map fst m) \<Longrightarrow> distinct (map fst (entry_or d k f m))"
  by (auto simp: keys_entry_or)

lemma map_of_entry_or [hashmap]:
  "map_of (entry_or d k f m) k' =
    (if k' = k then Some (f (case map_of m k of None \<Rightarrow> d | Some v \<Rightarrow> v)) else map_of m k')"
  by (induction d k f m rule: entry_or.induct) auto

lemma fst_push_to [hashmap]:
  "fst ` set (push_to k x m) = insert k (fst ` set m)"
  by (simp add: push_to_def hashmap)

lemma distinct_push_to [hashmap]:
  "distinct (map fst m) \<Longrightarrow> distinct (map fst (push_to k x m))"
  by (simp add: push_to_def distinct_entry_or)

lemma map_of_push_to [hashmap]:
  "map_of (push_to k x m) k' =
    (if k' = k then Some ((case map_of m k of None \<Rightarrow> [] | Some v \<Rightarrow> v) @ [x]) else map_of m k')"
  by (simp add: push_to_def map_of_entry_or)

lemma elems_of_Nil [simp]: "elems_of [] = []"
  by (simp add: elems_of_def)

lemma elems_of_Cons [simp]: "elems_of (kv # m) = snd kv @ elems_of m"
  by (simp add: elems_of_def)

lemma elems_of_append [simp]: "elems_of (m @ n) = elems_of m @ elems_of n"
  by (simp add: elems_of_def)

lemma mset_elems_push_to [hashmap]:
  "mset (elems_of (push_to k x m)) = add_mset x (mset (elems_of m))"
  unfolding push_to_def by (induction m) auto

text \<open>Every vector of a map filled by pushes is non-empty.\<close>

lemma push_to_nonempty [hashmap]:
  "(\<forall>(k, xs) \<in> set m. xs \<noteq> []) \<Longrightarrow> (\<forall>(k, xs) \<in> set (push_to k' x m). xs \<noteq> [])"
  unfolding push_to_def by (induction m) (auto split: if_splits)

text \<open>Grouping a list by a destination, the shape of every splitting loop.\<close>

definition group_by_dest :: "('a \<Rightarrow> 'k) \<Rightarrow> 'a list \<Rightarrow> ('k \<times> 'a list) list" where
  "group_by_dest d xs = fold (\<lambda>x m. push_to (d x) x m) xs []"

lemma fold_push_to_spec:
  "map_of (fold (\<lambda>x m. push_to (d x) x m) xs m) k =
    (if map_of m k = None \<and> filter (\<lambda>x. d x = k) xs = [] then None
     else Some ((case map_of m k of None \<Rightarrow> [] | Some v \<Rightarrow> v) @ filter (\<lambda>x. d x = k) xs))"
  by (induction xs arbitrary: m) (auto simp: map_of_push_to split: option.splits)

lemma map_of_group_by_dest [hashmap]:
  "map_of (group_by_dest d xs) k =
    (if filter (\<lambda>x. d x = k) xs = [] then None else Some (filter (\<lambda>x. d x = k) xs))"
  by (simp add: group_by_dest_def fold_push_to_spec)

lemma distinct_fold_push_to:
  "distinct (map fst m) \<Longrightarrow> distinct (map fst (fold (\<lambda>x m. push_to (d x) x m) xs m))"
  by (induction xs arbitrary: m) (auto simp: distinct_push_to)

lemma distinct_group_by_dest [hashmap, simp]:
  "distinct (map fst (group_by_dest d xs))"
  by (simp add: group_by_dest_def distinct_fold_push_to)

lemma mset_elems_fold_push_to:
  "mset (elems_of (fold (\<lambda>x m. push_to (d x) x m) xs m)) = mset xs + mset (elems_of m)"
  by (induction xs arbitrary: m) (auto simp: mset_elems_push_to)

lemma mset_elems_group_by_dest [hashmap]:
  "mset (elems_of (group_by_dest d xs)) = mset xs"
  by (simp add: group_by_dest_def mset_elems_fold_push_to)

lemma set_group_by_dest:
  assumes "(k, ys) \<in> set (group_by_dest d xs)"
  shows "ys = filter (\<lambda>x. d x = k) xs" and "ys \<noteq> []"
proof -
  have "map_of (group_by_dest d xs) k = Some ys"
    using assms by (simp add: map_of_eq_Some_iff)
  then show "ys = filter (\<lambda>x. d x = k) xs" and "ys \<noteq> []"
    by (auto simp: map_of_group_by_dest split: if_splits)
qed

subsection \<open>Strings\<close>

text \<open>
  A Rust string is its UTF-8 bytes, one \<^typ>\<open>char\<close> for each; \<^verbatim>\<open>std::str::from_utf8\<close> accepts the
  well-formed byte sequences.
\<close>

definition utf8_cont :: "byte \<Rightarrow> bool" where
  "utf8_cont b \<longleftrightarrow> 128 \<le> unat b \<and> unat b \<le> 191"

definition utf8_width :: "byte \<Rightarrow> nat" where
  "utf8_width b = (if unat b < 128 then 1 else if 194 \<le> unat b \<and> unat b \<le> 223 then 2
     else if 224 \<le> unat b \<and> unat b \<le> 239 then 3 else if 240 \<le> unat b \<and> unat b \<le> 244 then 4 else 0)"

definition utf8_second :: "byte \<Rightarrow> byte \<Rightarrow> bool" where
  "utf8_second b c \<longleftrightarrow> utf8_cont c \<and> (unat b = 224 \<longrightarrow> 160 \<le> unat c) \<and> (unat b = 237 \<longrightarrow> unat c \<le> 159)
     \<and> (unat b = 240 \<longrightarrow> 144 \<le> unat c) \<and> (unat b = 244 \<longrightarrow> unat c \<le> 143)"

fun utf8_valid :: "bytes \<Rightarrow> bool" where
  "utf8_valid [] = True"
| "utf8_valid (b # bs) =
    (if utf8_width b = 1 then utf8_valid bs
     else if utf8_width b = 0 then False
     else (case bs of c # cs \<Rightarrow>
         utf8_second b c \<and> utf8_width b - 2 \<le> length cs \<and> list_all utf8_cont (take (utf8_width b - 2) cs)
           \<and> utf8_valid (drop (utf8_width b - 2) cs)
       | [] \<Rightarrow> False))"

definition from_utf8 :: "bytes \<Rightarrow> string option" where
  "from_utf8 bs = (if utf8_valid bs then Some (map (\<lambda>b. char_of (unat b)) bs) else None)"

text \<open>The decimal digits of a number, as \<^verbatim>\<open>{}\<close> formats it.\<close>

fun show_nat :: "nat \<Rightarrow> string" where
  "show_nat n = (if n < 10 then [char_of (48 + n)] else show_nat (n div 10) @ [char_of (48 + n mod 10)])"

declare show_nat.simps [simp del]

subsection \<open>Lists\<close>

text \<open>\<^verbatim>\<open>slice.get(i)\<close> and \<^verbatim>\<open>iter().find(p)\<close>.\<close>

definition get :: "'a list \<Rightarrow> nat \<Rightarrow> 'a option" where
  "get xs i = (if i < length xs then Some (xs ! i) else None)"

lemma get_Some_iff: "get xs i = Some x \<longleftrightarrow> i < length xs \<and> xs ! i = x"
  by (auto simp: get_def)

lemma get_None_iff: "get xs i = None \<longleftrightarrow> length xs \<le> i"
  by (auto simp: get_def)

text \<open>An \<^verbatim>\<open>i32\<close> index cast with \<^verbatim>\<open>as usize\<close>: a negative one becomes a huge index, which no slice has.\<close>

definition get_i32 :: "'a list \<Rightarrow> int \<Rightarrow> 'a option" where
  "get_i32 xs i = (if 0 \<le> i then get xs (nat i) else None)"

lemma find_Some_set: "find P xs = Some x \<Longrightarrow> x \<in> set xs \<and> P x"
  by (induction xs) (auto split: if_splits)

lemma mset_concat_map: "mset xs = mset ys \<Longrightarrow> mset (concat (map f xs)) = mset (concat (map f ys))"
proof -
  assume eq: "mset xs = mset ys"
  have "mset (concat (map f zs)) = sum_mset (image_mset (\<lambda>z. mset (f z)) (mset zs))" for zs by (induction zs) simp_all
  then show ?thesis by (simp only: eq)
qed

end
