(* ===== verification/Kafka_Frames.thy ===== *)
theory Kafka_Frames
  imports Shotover_Prelude
begin

text \<open>
  The Kafka frames (\<^verbatim>\<open>src/shotover/src/frame/kafka.rs\<close>): \<^verbatim>\<open>KafkaFrame\<close> with its request and
  response variants, and of the message bodies of the \<^verbatim>\<open>kafka_protocol\<close> crate the fields
  that the proxy reads or writes.  Every body also has a field of type \<^typ>\<open>opaque\<close> that
  stands for the fields the proxy only carries along.

  Request and response topics that are a name with a list of partitions
  (\<^verbatim>\<open>TopicProduceData\<close>, \<^verbatim>\<open>ListOffsetsTopic\<close>, \<^verbatim>\<open>OffsetForLeaderTopic\<close>, \<^verbatim>\<open>TopicRequest\<close>,
  \<^verbatim>\<open>DeleteRecordsTopic\<close> and the corresponding results) share the record \<open>named_topic\<close>;
  the topics of \<^verbatim>\<open>Fetch\<close>, which are identified by name and id together, have their own.
\<close>

subsection \<open>Topics and partitions\<close>

record 'p named_topic =
  tname :: string
  tparts :: "'p list"
  trest :: opaque

record 'p fetch_topic =
  ftopic :: string
  ftopic_id :: uuid
  fparts :: "'p list"
  frest :: opaque

record partition_req =
  pindex :: int
  prest :: opaque

record leader_id_and_epoch =
  cl_leader_id :: int
  cl_leader_epoch :: int

record produce_partition_res =
  ppr_index :: int
  ppr_error_code :: int
  ppr_current_leader :: leader_id_and_epoch
  ppr_rest :: opaque

record fetch_partition_res =
  fpr_partition_index :: int
  fpr_error_code :: int
  fpr_current_leader :: leader_id_and_epoch
  fpr_preferred_read_replica :: int
  fpr_records :: "bytes option"
  fpr_rest :: opaque

record partition_res =
  pr_index :: int
  pr_error_code :: int
  pr_rest :: opaque

subsection \<open>Request bodies\<close>

record produce_request =
  acks :: int
  topic_data :: "partition_req named_topic list"
  produce_rest :: opaque

record fetch_request =
  max_wait_ms :: int
  min_bytes :: int
  session_id :: int
  session_epoch :: int
  fetch_topics :: "partition_req fetch_topic list"
  fetch_rest :: opaque

record 'p topics_request =
  rtopics :: "'p named_topic list"
  rtopics_rest :: opaque

record offset_fetch_group =
  ofg_group_id :: string
  ofg_rest :: opaque

record offset_fetch_request =
  of_group_id :: string
  of_groups :: "offset_fetch_group list"
  of_rest :: opaque

record ids_request =
  id_list :: "string list"
  ids_rest :: opaque

record txn_transaction =
  tt_transactional_id :: string
  tt_rest :: opaque

record add_partitions_to_txn_request =
  v3_and_below_transactional_id :: string
  transactions :: "txn_transaction list"
  apt_rest :: opaque

record find_coordinator_request =
  fc_key :: string
  fc_key_type :: int
  fc_rest :: opaque

record metadata_request_topic =
  mrt_name :: "string option"
  mrt_topic_id :: uuid

text \<open>The request types whose body the sink never looks into.\<close>

datatype plain_request =
    LeaderAndIsr | StopReplica | UpdateMetadata | AllocateProducerIds | AlterPartition
  | ControlledShutdown | AlterReplicaLogDirs | UnregisterBroker
  | CreateTopics | ElectLeaders
  | ListGroups | ListTransactions | DescribeLogDirs
  | DescribeCluster | DescribeConfigs | AlterConfigs | CreatePartitions | DeleteTopics
  | CreateAcls | ApiVersions | AlterPartitionReassignments | ListPartitionReassignments
  | OtherRequest

text \<open>The request types of which the sink only reads the group id.\<close>

datatype group_request =
  Heartbeat | ConsumerGroupHeartbeat | SyncGroup | JoinGroup | LeaveGroup
  | TxnOffsetCommit | OffsetCommit | OffsetDelete

datatype request_body =
    Produce produce_request
  | Fetch fetch_request
  | ListOffsets "partition_req topics_request"
  | OffsetForLeaderEpoch "partition_req topics_request"
  | DescribeProducers "int topics_request"
  | DeleteRecords "partition_req topics_request"
  | GroupRequest group_request string opaque
  | OffsetFetch offset_fetch_request
  | DeleteGroups ids_request
  | DescribeGroups ids_request
  | ConsumerGroupDescribe ids_request
  | EndTxn string opaque
  | AddOffsetsToTxn string opaque
  | InitProducerId "string option" opaque
  | AddPartitionsToTxn add_partitions_to_txn_request
  | DescribeTransactions ids_request
  | FindCoordinator find_coordinator_request
  | SaslHandshake string opaque
  | SaslAuthenticate bytes opaque
  | Metadata "metadata_request_topic list option" opaque
  | PlainRequest plain_request opaque

record request_header =
  request_api_key :: int
  request_api_version :: int
  correlation_id :: int
  rh_rest :: opaque

subsection \<open>Response bodies\<close>

record produce_response =
  pres_responses :: "produce_partition_res named_topic list"
  pres_node_endpoints :: "opaque list"
  pres_rest :: opaque

record fetch_response =
  fres_responses :: "fetch_partition_res fetch_topic list"
  fres_node_endpoints :: "opaque list"
  fres_rest :: opaque

record 'p topics_response =
  stopics :: "'p named_topic list"
  stopics_rest :: opaque

record group_result =
  gr_group_id :: string
  gr_error_code :: int
  gr_rest :: opaque

record offset_fetch_response =
  ofr_error_code :: int
  ofr_groups :: "group_result list"
  ofr_rest :: opaque

record 'a items_response =
  items :: "'a list"
  items_rest :: opaque

record log_dir_result =
  log_dir :: string
  ld_rest :: opaque

record txn_result =
  tr_transactional_id :: string
  tr_topic_results :: "int list list"
  tr_rest :: opaque

record add_partitions_to_txn_response =
  results_by_topic_v3_and_below :: "int list list"
  results_by_transaction :: "txn_result list"
  aptr_rest :: opaque

record coordinator =
  co_key :: string
  co_error_code :: int
  co_node_id :: int
  co_host :: string
  co_port :: int
  co_rest :: opaque

record find_coordinator_response =
  fcr_error_code :: int
  fcr_node_id :: int
  fcr_host :: string
  fcr_port :: int
  fcr_coordinators :: "coordinator list"
  fcr_rest :: opaque

record sasl_handshake_response =
  shr_error_code :: int
  shr_mechanisms :: "string list"

record sasl_authenticate_response =
  sar_error_code :: int
  sar_auth_bytes :: bytes
  sar_rest :: opaque

record response_broker =
  rb_node_id :: int
  rb_host :: string
  rb_port :: int
  rb_rack :: "string option"

record metadata_partition =
  mp_partition_index :: int
  mp_error_code :: int
  mp_leader_id :: int
  mp_leader_epoch :: int
  mp_replica_nodes :: "int list"
  mp_isr_nodes :: "int list"
  mp_offline_replicas :: "int list"

record metadata_topic =
  mt_error_code :: int
  mt_name :: "string option"
  mt_topic_id :: uuid
  mt_partitions :: "metadata_partition list"
  mt_rest :: opaque

record metadata_response =
  md_brokers :: "response_broker list"
  md_controller_id :: int
  md_topics :: "metadata_topic list"
  md_rest :: opaque

record describe_cluster_response =
  dc_brokers :: "response_broker list"
  dc_controller_id :: int
  dc_rest :: opaque

record api_version_entry =
  av_api_key :: int
  av_min_version :: int
  av_max_version :: int

text \<open>The response types of which the sink only reads one top level error code.\<close>

datatype code_response =
  HeartbeatR | ConsumerGroupHeartbeatR | SyncGroupR | JoinGroupR | LeaveGroupR
  | EndTxnR | AddOffsetsToTxnR | InitProducerIdR

datatype response_body =
    ProduceR produce_response
  | FetchR fetch_response
  | ListOffsetsR "partition_res topics_response"
  | OffsetForLeaderEpochR "partition_res topics_response"
  | DescribeProducersR "partition_res topics_response"
  | DeleteRecordsR "partition_res topics_response"
  | DeleteGroupsR "group_result items_response"
  | OffsetFetchR offset_fetch_response
  | ListGroupsR "opaque items_response"
  | DescribeTransactionsR "opaque items_response"
  | ListTransactionsR "opaque items_response"
  | DescribeGroupsR "opaque items_response"
  | ConsumerGroupDescribeR "opaque items_response"
  | DescribeLogDirsR "log_dir_result items_response"
  | AddPartitionsToTxnR add_partitions_to_txn_response
  | CodeResponse code_response int opaque
  | TxnOffsetCommitR "int list list" opaque
  | CreateTopicsR "int list" opaque
  | FindCoordinatorR find_coordinator_response
  | SaslHandshakeR sasl_handshake_response
  | SaslAuthenticateR sasl_authenticate_response
  | MetadataR metadata_response
  | DescribeClusterR describe_cluster_response
  | ApiVersionsR "api_version_entry list" opaque
  | OtherResponse opaque

text \<open>\<^verbatim>\<open>enum KafkaFrame\<close>.\<close>

datatype kafka_frame =
    Request request_header request_body
  | Response int int response_body

text \<open>The version and the correlation id of a response come before its body.\<close>

end
