(* ===== verification/Generic_Values.thy ===== *)
theory Generic_Values
  imports Shotover_Prelude "HOL-Library.List_Lexorder"
begin

text \<open>
  The values of result rows (\<^verbatim>\<open>src/shotover/src/frame/value.rs\<close>) with the order that
  \<^verbatim>\<open>derive(Ord)\<close> gives them, and the CQL data that the Cassandra transforms read.

  A float is its rank in the total order of \<^verbatim>\<open>OrderedFloat\<close>; a \<^verbatim>\<open>BigDecimal\<close>, whose
  equality is numeric, is the greatest integer below it and the decimal digits of the rest.  An IP address is a number of 32 or 128 bits.
\<close>

subsection \<open>Values\<close>

datatype ip_addr = V4 nat | V6 nat

record socket_addr =
  sa_ip :: ip_addr
  sa_port :: nat

datatype int_size = I64 | I32 | I16 | I8

record duration =
  d_months :: int
  d_days :: int
  d_nanoseconds :: int

datatype generic_value =
    GNull
  | GBytes bytes
  | GAscii string
  | GStrings string
  | GInteger int int_size
  | GDouble int
  | GFloat int
  | GBoolean bool
  | GInet ip_addr
  | GList "generic_value list"
  | GSet "generic_value list"
  | GMap "(generic_value \<times> generic_value) list"
  | GVarint int
  | GDecimal int "nat list"
  | GDate int
  | GTimestamp int
  | GDuration duration
  | GTimeuuid uuid
  | GVarchar string
  | GUuid uuid
  | GTime int
  | GCounter int
  | GTuple "generic_value list"
  | GUdt "(string \<times> generic_value) list"
  | GCustom bytes

subsection \<open>Their order\<close>

text \<open>
  A derived order compares the position of the constructor, then the fields from left to right,
  and collections element by element.  All of it is in a tree of numbers.
\<close>

datatype order_tree = Order_Node nat "int list" "order_tree list"

fun string_key :: "string \<Rightarrow> int list" where
  "string_key s = map (\<lambda>c. int (of_char c)) s"

fun bytes_key :: "bytes \<Rightarrow> int list" where
  "bytes_key bs = map (\<lambda>b. int (unat b)) bs"

fun size_key :: "int_size \<Rightarrow> int" where
  "size_key I64 = 0"
| "size_key I32 = 1"
| "size_key I16 = 2"
| "size_key I8 = 3"

fun ip_key :: "ip_addr \<Rightarrow> int list" where
  "ip_key (V4 n) = [0, int n]"
| "ip_key (V6 n) = [1, int n]"

fun order_key :: "generic_value \<Rightarrow> order_tree" where
  "order_key GNull = Order_Node 0 [] []"
| "order_key (GBytes bs) = Order_Node 1 (bytes_key bs) []"
| "order_key (GAscii s) = Order_Node 2 (string_key s) []"
| "order_key (GStrings s) = Order_Node 3 (string_key s) []"
| "order_key (GInteger i sz) = Order_Node 4 [i, size_key sz] []"
| "order_key (GDouble r) = Order_Node 5 [r] []"
| "order_key (GFloat r) = Order_Node 6 [r] []"
| "order_key (GBoolean b) = Order_Node 7 [if b then 1 else 0] []"
| "order_key (GInet a) = Order_Node 8 (ip_key a) []"
| "order_key (GList vs) = Order_Node 9 [] (map order_key vs)"
| "order_key (GSet vs) = Order_Node 10 [] (map order_key vs)"
| "order_key (GMap kvs) = Order_Node 11 [] (map (\<lambda>(k, v). Order_Node 0 [] [order_key k, order_key v]) kvs)"
| "order_key (GVarint i) = Order_Node 12 [i] []"
| "order_key (GDecimal n ds) = Order_Node 13 (n # map int ds) []"
| "order_key (GDate i) = Order_Node 14 [i] []"
| "order_key (GTimestamp i) = Order_Node 15 [i] []"
| "order_key (GDuration d) = Order_Node 16 [(d_months d), (d_days d), (d_nanoseconds d)] []"
| "order_key (GTimeuuid u) = Order_Node 17 [int u] []"
| "order_key (GVarchar s) = Order_Node 18 (string_key s) []"
| "order_key (GUuid u) = Order_Node 19 [int u] []"
| "order_key (GTime i) = Order_Node 20 [i] []"
| "order_key (GCounter i) = Order_Node 21 [i] []"
| "order_key (GTuple vs) = Order_Node 22 [] (map order_key vs)"
| "order_key (GUdt fs) = Order_Node 23 [] (map (\<lambda>(k, v). Order_Node 0 (string_key k) [order_key v]) fs)"
| "order_key (GCustom bs) = Order_Node 24 (bytes_key bs) []"

fun tree_less :: "order_tree \<Rightarrow> order_tree \<Rightarrow> bool"
  and trees_less :: "order_tree list \<Rightarrow> order_tree list \<Rightarrow> bool" where
  "tree_less (Order_Node a k xs) (Order_Node b l ys) \<longleftrightarrow> a < b \<or> a = b \<and> (k < l \<or> k = l \<and> trees_less xs ys)"
| "trees_less xs [] \<longleftrightarrow> False"
| "trees_less [] (y # ys) \<longleftrightarrow> True"
| "trees_less (x # xs) (y # ys) \<longleftrightarrow> tree_less x y \<or> x = y \<and> trees_less xs ys"

lemma tree_less_irrefl: "\<not> tree_less x x"
proof (induction x)
  case (Order_Node a k xs)
  have "(\<And>x. x \<in> set ys \<Longrightarrow> \<not> tree_less x x) \<Longrightarrow> \<not> trees_less ys ys" for ys by (induction ys) auto
  then show ?case using Order_Node by auto
qed

lemma trees_less_trans:
  assumes "\<And>x y z. x \<in> set xs \<Longrightarrow> tree_less x y \<Longrightarrow> tree_less y z \<Longrightarrow> tree_less x z"
    and "trees_less xs ys" and "trees_less ys zs"
  shows "trees_less xs zs"
  using assms
proof (induction xs ys arbitrary: zs rule: list_induct2')
  case (4 x xs y ys)
  show ?case
  proof (cases zs)
    case (Cons z zs')
    have "trees_less xs zs'" if "trees_less xs ys" "trees_less ys zs'"
      by (rule 4(1)[OF _ that]) (use 4(2) in auto)
    then show ?thesis using 4(2)[of x y z] 4(3,4) Cons by auto
  qed (use 4 in simp)
next
  case (3 y ys)
  then show ?case by (cases zs) auto
qed auto

lemma tree_less_trans: "tree_less x y \<Longrightarrow> tree_less y z \<Longrightarrow> tree_less x z"
proof (induction x arbitrary: y z)
  case (Order_Node a k xs)
  obtain b l ys c m zs where yz: "y = Order_Node b l ys" "z = Order_Node c m zs" by (metis order_tree.exhaust)
  have "trees_less xs zs" if "trees_less xs ys" "trees_less ys zs"
    by (rule trees_less_trans[OF _ that]) (rule Order_Node(1))
  then show ?case using Order_Node(2,3) yz by (auto dest: less_trans)
qed

lemma tree_less_total: "x = y \<or> tree_less x y \<or> tree_less y x"
proof (induction x arbitrary: y)
  case (Order_Node a k xs)
  obtain b l ys where y: "y = Order_Node b l ys" by (metis order_tree.exhaust)
  have "(\<And>x y. x \<in> set us \<Longrightarrow> x = y \<or> tree_less x y \<or> tree_less y x) \<Longrightarrow>
      us = vs \<or> trees_less us vs \<or> trees_less vs us" for us vs
  proof (induction us vs rule: list_induct2')
    case (4 u us v vs)
    have "us = vs \<or> trees_less us vs \<or> trees_less vs us" by (rule 4(1)) (use 4(2) in simp)
    then show ?case using 4(2)[of u v] by auto
  qed auto
  from this[of xs ys] show ?case using Order_Node y by (auto simp: not_less_iff_gr_or_eq neq_iff)
qed

lemma map_key_inj:
  "(\<And>v w. v \<in> set vs \<Longrightarrow> f v = f w \<Longrightarrow> v = w) \<Longrightarrow> map f vs = map f ws \<Longrightarrow> vs = ws"
  by (induction vs ws rule: list_induct2') auto

lemma string_key_inj: "map (\<lambda>c. int (of_char c) :: int) s = map (\<lambda>c. int (of_char c)) t \<longleftrightarrow> s = t"
  by (auto intro!: map_key_inj[where f = "\<lambda>c. int (of_char c) :: int"])

lemma bytes_key_inj: "map (\<lambda>b. int (unat b) :: int) s = map (\<lambda>b. int (unat b)) t \<longleftrightarrow> s = (t :: bytes)"
  by (auto intro!: map_key_inj[where f = "\<lambda>b :: byte. int (unat b) :: int"])

lemma size_key_inj [simp]: "size_key a = size_key b \<longleftrightarrow> a = b"
  by (cases a; cases b) auto

lemma ip_key_inj [simp]: "ip_key a = ip_key b \<longleftrightarrow> a = b"
  by (cases a; cases b) auto

lemma duration_eq: "d = (e :: duration) \<longleftrightarrow> d_months d = d_months e \<and> d_days d = d_days e \<and> d_nanoseconds d = d_nanoseconds e"
  by (cases d; cases e) auto

lemma order_key_inj: "order_key x = order_key y \<Longrightarrow> x = y"
proof (induction x arbitrary: y)
  case (GList vs)
  have "vs = ws" if "map order_key vs = map order_key ws" for ws by (rule map_key_inj[OF GList(1) that])
  then show ?case using GList(2) by (cases y) simp_all
next
  case (GSet vs)
  have "vs = ws" if "map order_key vs = map order_key ws" for ws by (rule map_key_inj[OF GSet(1) that])
  then show ?case using GSet(2) by (cases y) simp_all
next
  case (GTuple vs)
  have "vs = ws" if "map order_key vs = map order_key ws" for ws by (rule map_key_inj[OF GTuple(1) that])
  then show ?case using GTuple(2) by (cases y) simp_all
next
  case (GMap kvs)
  have "p = q" if "p \<in> set kvs" "(case p of (k, v) \<Rightarrow> Order_Node 0 [] [order_key k, order_key v]) =
      (case q of (k, v) \<Rightarrow> Order_Node 0 [] [order_key k, order_key v])" for p q
    using that GMap(1)[OF that(1), of "fst p" "fst q"] GMap(2)[OF that(1), of "snd p" "snd q"]
    by (cases p rule: prod.exhaust; cases q rule: prod.exhaust) (simp add: prod_set_simps)
  then have "kvs = kws" if "order_key (GMap kvs) = order_key (GMap kws)" for kws
    using map_key_inj[where f = "\<lambda>(k, v). Order_Node 0 [] [order_key k, order_key v]", of kvs kws] that by simp
  then show ?case using GMap(3) by (cases y) simp_all
next
  case (GUdt fs)
  have "p = q" if "p \<in> set fs" "(case p of (k, v) \<Rightarrow> Order_Node 0 (string_key k) [order_key v]) =
      (case q of (k, v) \<Rightarrow> Order_Node 0 (string_key k) [order_key v])" for p q
    using that GUdt(1)[OF that(1), of "snd p" "snd q"] by (cases p rule: prod.exhaust; cases q rule: prod.exhaust) (simp add: string_key_inj prod_set_simps)
  then have "fs = gs" if "order_key (GUdt fs) = order_key (GUdt gs)" for gs
    using map_key_inj[where f = "\<lambda>(k, v). Order_Node 0 (string_key k) [order_key v]", of fs gs] that by simp
  then show ?case using GUdt(2) by (cases y) simp_all
qed (case_tac y; simp add: string_key_inj bytes_key_inj duration_eq inj_map_eq_map split: if_splits)+

instantiation generic_value :: linorder
begin

definition less_generic_value :: "generic_value \<Rightarrow> generic_value \<Rightarrow> bool" where
  "x < y \<longleftrightarrow> tree_less (order_key x) (order_key y)"

definition less_eq_generic_value :: "generic_value \<Rightarrow> generic_value \<Rightarrow> bool" where
  "x \<le> (y :: generic_value) \<longleftrightarrow> x < y \<or> x = y"

instance
proof
  fix x y z :: generic_value
  show "(x < y) = (x \<le> y \<and> \<not> y \<le> x)" and "x \<le> y \<Longrightarrow> y \<le> x \<Longrightarrow> x = y"
    using tree_less_trans[of "order_key x" "order_key y" "order_key x"] tree_less_irrefl[of "order_key x"]
    by (auto simp: less_eq_generic_value_def less_generic_value_def)
  show "x \<le> x" by (simp add: less_eq_generic_value_def)
  show "x \<le> y \<Longrightarrow> y \<le> z \<Longrightarrow> x \<le> z"
    by (auto simp: less_eq_generic_value_def less_generic_value_def dest: tree_less_trans)
  show "x \<le> y \<or> y \<le> x"
    using tree_less_total[of "order_key x" "order_key y"] order_key_inj[of x y]
    by (auto simp: less_eq_generic_value_def less_generic_value_def)
qed

end

subsection \<open>Statements and protocol bodies\<close>

text \<open>
  The parts of a \<^verbatim>\<open>SELECT\<close> and of the bodies of \<^verbatim>\<open>cassandra_protocol\<close> that the sources read; the
  rest of each is opaque.  A name is quoted or not; \<^verbatim>\<open>cql3_parser\<close> decides when two names are equal.
\<close>

datatype cql_identifier = Quoted string | Unquoted string

record fq_name =
  fq_keyspace :: "cql_identifier option"
  fq_table :: cql_identifier

datatype select_element = Star | Column cql_identifier "cql_identifier option" | Function opaque

record select_statement =
  sel_table :: fq_name
  sel_columns :: "select_element list"
  sel_where :: "opaque list"
  sel_rest :: opaque

datatype cql_value = VSome bytes | VNullValue | VNotSet

datatype query_values = SimpleValues "cql_value list" | NamedValues opaque

record execute_body =
  execute_id :: bytes
  execute_values :: "query_values option"
  execute_rest :: opaque

record rows_metadata =
  col_specs :: "string list"
  rows_rest :: opaque

record prepared_body =
  prepared_id :: bytes
  prepared_pk_indexes :: "int list"
  prepared_keyspace :: "string option"
  prepared_rest :: opaque

datatype topology_change_type = NewNode | RemovedNode | OtherTopologyChange
datatype status_change_type = Up | Down | OtherStatusChange

datatype server_event =
    TopologyChange topology_change_type socket_addr
  | StatusChange status_change_type socket_addr
  | SchemaChange opaque
  | OtherEvent opaque

end
