(* ===== verification/Frames.thy ===== *)
theory Frames
  imports Kafka_Frames Generic_Values
begin

text \<open>
  Protocol frames (\<^verbatim>\<open>src/shotover/src/frame/mod.rs\<close>, \<^verbatim>\<open>frame/valkey.rs\<close> and the data types of
  \<^verbatim>\<open>frame/cassandra.rs\<close>), the message types and the codec state a message carries.

  The variants of \<^verbatim>\<open>ValkeyFrame\<close> (a frame of the \<^verbatim>\<open>redis_protocol\<close> crate) and of
  \<^verbatim>\<open>CassandraStatement\<close> (of \<^verbatim>\<open>cql3_parser\<close>) are those the sources match on, with the
  contents of a statement other than a \<^verbatim>\<open>SELECT\<close> opaque.
\<close>

subsection \<open>Valkey frames\<close>

datatype valkey_frame =
    SimpleString bytes
  | VError string
  | Integer int
  | BulkString bytes
  | VArray "valkey_frame list"
  | VNull

subsection \<open>Cassandra frames\<close>

datatype cassandra_statement =
    AlterKeyspace opaque | AlterMaterializedView opaque | AlterRole opaque | AlterTable opaque
  | AlterType opaque | AlterUser opaque | ApplyBatch
  | CreateAggregate opaque | CreateFunction opaque | CreateIndex opaque | CreateKeyspace opaque
  | CreateMaterializedView opaque | CreateRole opaque | CreateTable opaque | CreateTrigger opaque
  | CreateType opaque | CreateUser opaque | Delete opaque
  | DropAggregate opaque | DropFunction opaque | DropIndex opaque | DropKeyspace opaque
  | DropMaterializedView opaque | DropRole opaque | DropTable opaque | DropTrigger opaque
  | DropType opaque | DropUser opaque | Grant opaque | Insert opaque
  | ListPermissions opaque | ListRoles opaque | Revoke opaque | Select select_statement
  | Truncate opaque | Update opaque | Use opaque | Unknown string

datatype query_type = Read | Write | ReadWrite | SchemaChangeQuery | PubSubMessage

text \<open>The error types of the Cassandra protocol that the proxy produces.\<close>

datatype error_type = Server | Invalid | Overloaded | Unprepared bytes | OtherErrorType opaque

datatype tracing = TRequest bool | TResponse "uuid option"

datatype batch_statement_type = Statement cassandra_statement | PreparedId bytes

record cassandra_batch =
  batch_ty :: opaque
  batch_queries :: "(batch_statement_type \<times> opaque) list"
  batch_rest :: opaque

datatype cassandra_result =
  Rows "generic_value list list" rows_metadata | SetKeyspace opaque | Prepared prepared_body | SchemaChangeResult opaque | Void

datatype cassandra_operation =
    Query cassandra_statement opaque
  | Result cassandra_result
  | Error string error_type
  | Prepare bytes
  | Execute execute_body
  | Register opaque
  | Event server_event
  | Batch cassandra_batch
  | Startup opaque
  | Ready bytes
  | Authenticate bytes
  | Options bytes
  | Supported opaque
  | AuthChallenge bytes
  | AuthResponse bytes
  | AuthSuccess bytes

record cassandra_frame =
  cversion :: nat
  cstream_id :: int
  ctracing :: tracing
  cwarnings :: "string list"
  coperation :: cassandra_operation

datatype opcode =
    OpQuery | OpResult | OpError | OpStartup | OpReady | OpAuthenticate | OpOptions | OpSupported
  | OpPrepare | OpExecute | OpRegister | OpEvent | OpBatch | OpAuthChallenge | OpAuthResponse
  | OpAuthSuccess

datatype direction = DRequest | DResponse

fun to_opcode :: "cassandra_operation \<Rightarrow> opcode" where
  "to_opcode (Query _ _) = OpQuery"
| "to_opcode (Result _) = OpResult"
| "to_opcode (Error _ _) = OpError"
| "to_opcode (Startup _) = OpStartup"
| "to_opcode (Ready _) = OpReady"
| "to_opcode (Authenticate _) = OpAuthenticate"
| "to_opcode (Options _) = OpOptions"
| "to_opcode (Supported _) = OpSupported"
| "to_opcode (Prepare _) = OpPrepare"
| "to_opcode (Execute _) = OpExecute"
| "to_opcode (Register _) = OpRegister"
| "to_opcode (Event _) = OpEvent"
| "to_opcode (Batch _) = OpBatch"
| "to_opcode (AuthChallenge _) = OpAuthChallenge"
| "to_opcode (AuthResponse _) = OpAuthResponse"
| "to_opcode (AuthSuccess _) = OpAuthSuccess"

fun to_direction :: "cassandra_operation \<Rightarrow> direction" where
  "to_direction (Query _ _) = DRequest"
| "to_direction (Result _) = DResponse"
| "to_direction (Error _ _) = DResponse"
| "to_direction (Startup _) = DRequest"
| "to_direction (Ready _) = DResponse"
| "to_direction (Authenticate _) = DResponse"
| "to_direction (Options _) = DRequest"
| "to_direction (Supported _) = DResponse"
| "to_direction (Prepare _) = DRequest"
| "to_direction (Execute _) = DRequest"
| "to_direction (Register _) = DRequest"
| "to_direction (Event _) = DResponse"
| "to_direction (Batch _) = DRequest"
| "to_direction (AuthChallenge _) = DResponse"
| "to_direction (AuthResponse _) = DRequest"
| "to_direction (AuthSuccess _) = DResponse"

fun operation_name :: "cassandra_operation \<Rightarrow> string" where
  "operation_name (Query _ _) = ''Query''"
| "operation_name (Result _) = ''Result''"
| "operation_name (Error _ _) = ''Error''"
| "operation_name (Prepare _) = ''Prepare''"
| "operation_name (Execute _) = ''Execute''"
| "operation_name (Register _) = ''Register''"
| "operation_name (Event _) = ''Event''"
| "operation_name (Batch _) = ''Batch''"
| "operation_name (Startup _) = ''Startup''"
| "operation_name (Ready _) = ''Ready''"
| "operation_name (Authenticate _) = ''Authenticate''"
| "operation_name (Options _) = ''Options''"
| "operation_name (Supported _) = ''Supported''"
| "operation_name (AuthChallenge _) = ''AuthChallenge''"
| "operation_name (AuthResponse _) = ''AuthResponse''"
| "operation_name (AuthSuccess _) = ''AuthSuccess''"

text \<open>\<^verbatim>\<open>fn get_query_type\<close> of a statement: everything not listed changes the schema.\<close>

definition statement_query_type :: "cassandra_statement \<Rightarrow> query_type" where
  "statement_query_type s = (case s of
     ApplyBatch \<Rightarrow> ReadWrite
   | Delete _ \<Rightarrow> Write | Insert _ \<Rightarrow> Write | Truncate _ \<Rightarrow> Write | Update _ \<Rightarrow> Write
   | ListPermissions _ \<Rightarrow> Read | ListRoles _ \<Rightarrow> Read | Select _ \<Rightarrow> Read | Unknown _ \<Rightarrow> Read
   | _ \<Rightarrow> SchemaChangeQuery)"

definition cassandra_get_query_type :: "cassandra_frame \<Rightarrow> query_type" where
  "cassandra_get_query_type f = (case coperation f of
     Query q _ \<Rightarrow> statement_query_type q
   | Batch _ \<Rightarrow> Write
   | _ \<Rightarrow> Read)"

text \<open>A batch without queries counts as one cell; the length is cast to \<^verbatim>\<open>u32\<close>.\<close>

definition cassandra_cell_count :: "cassandra_frame \<Rightarrow> nat" where
  "cassandra_cell_count f = (case coperation f of
     Batch b \<Rightarrow> (let n = length (batch_queries b) mod 2 ^ 32 in if n = 0 then 1 else n)
   | _ \<Rightarrow> 1)"

record cassandra_metadata =
  cm_version :: nat
  cm_stream_id :: int
  cm_opcode :: opcode

definition frame_metadata :: "cassandra_frame \<Rightarrow> cassandra_metadata" where
  "frame_metadata f =
    \<lparr>cm_version = cversion f, cm_stream_id = cstream_id f, cm_opcode = to_opcode (coperation f)\<rparr>"

definition cassandra_error_frame :: "cassandra_metadata \<Rightarrow> string \<Rightarrow> error_type \<Rightarrow> cassandra_frame" where
  "cassandra_error_frame m error ty =
    \<lparr>cversion = cm_version m, cstream_id = cm_stream_id m, ctracing = TResponse None,
     cwarnings = [], coperation = Error error ty\<rparr>"

definition shotover_error :: "int \<Rightarrow> nat \<Rightarrow> string \<Rightarrow> cassandra_frame" where
  "shotover_error sid v m =
    \<lparr>cversion = v, cstream_id = sid, ctracing = TResponse None, cwarnings = [],
     coperation = Error (''Internal shotover error: '' @ m) Server\<rparr>"

definition backpressure_response :: "cassandra_metadata \<Rightarrow> cassandra_frame" where
  "backpressure_response m =
    \<lparr>cversion = cm_version m, cstream_id = cm_stream_id m, ctracing = TResponse None,
     cwarnings = [], coperation = Error ''Server overloaded'' Overloaded\<rparr>"

text \<open>
  \<^verbatim>\<open>raw_frame::metadata\<close>: the header of an unparsed frame.  The conversions of the version
  and opcode bytes belong to \<^verbatim>\<open>cassandra_protocol\<close> and are parameters.
\<close>

definition i16_be :: "byte \<Rightarrow> byte \<Rightarrow> int" where
  "i16_be a b = sint (word_cat a b :: 16 word)"

definition raw_metadata ::
  "(byte \<Rightarrow> nat result) \<Rightarrow> (byte \<Rightarrow> opcode result) \<Rightarrow> bytes \<Rightarrow> cassandra_metadata result" where
  "raw_metadata version_of opcode_of bs =
    (if length bs < 9 then Inl (Err ''Not enough bytes for cassandra frame'')
     else bind_result (version_of (bs ! 0)) (\<lambda>v.
          bind_result (opcode_of (bs ! 4)) (\<lambda>op.
          Ok \<lparr>cm_version = v, cm_stream_id = i16_be (bs ! 2) (bs ! 3), cm_opcode = op\<rparr>)))"

text \<open>
  \<^verbatim>\<open>raw_frame::get_batch_len\<close>: the guard asks for two bytes and the slice \<^verbatim>\<open>[1..3]\<close> for three.
\<close>

definition get_batch_len :: "bytes \<Rightarrow> nat result" where
  "get_batch_len bs =
    (if length bs < 2 then Inl (Err ''BATCH statement body is not long enough'')
     else if length bs < 3 then Inl (Panic ''range end index 3 out of range for slice'')
     else let n = unat (word_cat (bs ! 1) (bs ! 2) :: 16 word) in Ok (if n = 0 then 1 else n))"

subsection \<open>Frames of any protocol\<close>

datatype message_type = Valkey | Cassandra | Kafka | OpenSearch | Dummy

record kafka_codec_state =
  kc_request_header :: "(int \<times> int) option"
  kc_raw_sasl :: bool

datatype codec_state =
  CCassandra opaque | CValkey | CKafka kafka_codec_state | CDummy | COpenSearch

datatype frame =
    FCassandra cassandra_frame
  | FValkey valkey_frame
  | FKafka kafka_frame
  | FDummy
  | FOpenSearch opaque

fun is_inorder :: "message_type \<Rightarrow> bool" where
  "is_inorder Cassandra = False"
| "is_inorder Valkey = True"
| "is_inorder Kafka = True"
| "is_inorder OpenSearch = True"
| "is_inorder Dummy = False"

fun message_type_of_codec :: "codec_state \<Rightarrow> message_type" where
  "message_type_of_codec (CCassandra _) = Cassandra"
| "message_type_of_codec CValkey = Valkey"
| "message_type_of_codec (CKafka _) = Kafka"
| "message_type_of_codec COpenSearch = OpenSearch"
| "message_type_of_codec CDummy = Dummy"

text \<open>The compression \<^verbatim>\<open>Compression::None\<close> is the opaque value 0.\<close>

fun as_codec_state :: "frame \<Rightarrow> codec_state" where
  "as_codec_state (FCassandra _) = CCassandra 0"
| "as_codec_state (FValkey _) = CValkey"
| "as_codec_state (FKafka _) = CKafka \<lparr>kc_request_header = None, kc_raw_sasl = False\<rparr>"
| "as_codec_state FDummy = CDummy"
| "as_codec_state (FOpenSearch _) = COpenSearch"

fun get_type :: "frame \<Rightarrow> message_type" where
  "get_type (FCassandra _) = Cassandra"
| "get_type (FValkey _) = Valkey"
| "get_type (FKafka _) = Kafka"
| "get_type FDummy = Dummy"
| "get_type (FOpenSearch _) = OpenSearch"

fun frame_name :: "frame \<Rightarrow> string" where
  "frame_name (FValkey _) = ''Valkey''"
| "frame_name (FCassandra _) = ''Cassandra''"
| "frame_name (FKafka _) = ''Kafka''"
| "frame_name FDummy = ''Dummy''"
| "frame_name (FOpenSearch _) = ''OpenSearch''"

fun into_kafka :: "frame \<Rightarrow> kafka_frame result" where
  "into_kafka (FKafka f) = Ok f"
| "into_kafka f = Inl (Err (''Expected kafka frame but received '' @ frame_name f @ '' frame''))"

fun into_valkey :: "frame \<Rightarrow> valkey_frame result" where
  "into_valkey (FValkey f) = Ok f"
| "into_valkey f = Inl (Err (''Expected valkey frame but received '' @ frame_name f @ '' frame''))"

fun into_cassandra :: "frame \<Rightarrow> cassandra_frame result" where
  "into_cassandra (FCassandra f) = Ok f"
| "into_cassandra f = Inl (Err (''Expected cassandra frame but received '' @ frame_name f @ '' frame''))"

lemma message_type_of_as_codec_state [simp]:
  "message_type_of_codec (as_codec_state f) = get_type f"
  by (cases f) auto

subsection \<open>Valkey commands\<close>

definition to_ascii_upper :: "byte \<Rightarrow> byte" where
  "to_ascii_upper b = (if 97 \<le> b \<and> b \<le> 122 then b - 32 else b)"

definition bytes_of_string :: "string \<Rightarrow> bytes" where
  "bytes_of_string s = map of_char s"

definition valkey_read_commands :: "string list" where
  "valkey_read_commands =
    [''APPEND'', ''BITCOUNT'', ''STRLEN'', ''GET'', ''GETRANGE'', ''MGET'', ''LRANGE'',
     ''LINDEX'', ''LLEN'', ''SCARD'', ''SISMEMBER'', ''SMEMBERS'', ''SUNION'',
     ''SINTER'', ''ZCARD'', ''ZCOUNT'', ''ZRANGE'', ''ZRANK'', ''ZSCORE'',
     ''ZRANGEBYSCORE'', ''HGET'', ''HGETALL'', ''HEXISTS'', ''HKEYS'', ''HLEN'',
     ''HSTRLEN'', ''HVALS'', ''PFCOUNT'']"

fun valkey_query_type :: "valkey_frame \<Rightarrow> query_type" where
  "valkey_query_type (VArray (BulkString bs # _)) =
    (if map to_ascii_upper bs \<in> set (map bytes_of_string valkey_read_commands) then Read else Write)"
| "valkey_query_type _ = Write"

text \<open>The upper-cased command name, when it is well-formed UTF-8.\<close>

fun valkey_query_name :: "valkey_frame \<Rightarrow> string option" where
  "valkey_query_name (VArray (BulkString bs # _)) = from_utf8 (map to_ascii_upper bs)"
| "valkey_query_name _ = None"

end
