(* ===== verification/Message.thy ===== *)
theory Message
  imports Frames
begin

text \<open>
  Messages (\<^verbatim>\<open>src/shotover/src/message/mod.rs\<close>): the lazily parsed contents of a message, its id
  and the id of the request it answers, and the construction of error and backpressure
  responses.

  The random id of a new message is an argument (\<open>nid\<close>).  The decoders of the protocols are
  parameters, collected in the record \<open>decoders\<close>.  The field \<^verbatim>\<open>inner\<close> is an \<^verbatim>\<open>Option\<close> in the
  code only so that an operation can take it out and put it back; here it is the value itself.
\<close>

datatype message_inner =
    RawBytes bytes message_type
  | Parsed bytes frame
  | Modified frame

record message =
  inner :: message_inner
  received_at :: "nat option"
  codec :: codec_state
  id :: message_id
  request_id :: "message_id option"

datatype encodable = EBytes bytes | EFrame frame

record decoders =
  dec_cassandra :: "bytes \<Rightarrow> opaque \<Rightarrow> cassandra_frame result"
  dec_valkey :: "bytes \<Rightarrow> valkey_frame option result"
  dec_kafka :: "bytes \<Rightarrow> kafka_codec_state \<Rightarrow> kafka_frame result"
  dec_opensearch :: "bytes \<Rightarrow> opaque result"
  dec_version :: "byte \<Rightarrow> nat result"
  dec_opcode :: "byte \<Rightarrow> opcode result"
  dec_raw_body :: "bytes \<Rightarrow> (opcode \<times> bytes) result"

subsection \<open>Parsing\<close>

text \<open>\<^verbatim>\<open>Frame::from_bytes\<close>.\<close>

definition frame_from_bytes :: "decoders \<Rightarrow> bytes \<Rightarrow> message_type \<Rightarrow> codec_state \<Rightarrow> frame result" where
  "frame_from_bytes D bs mt cs = (case mt of
     Cassandra \<Rightarrow> (case cs of
         CCassandra compression \<Rightarrow> bind_result (dec_cassandra D bs compression) (\<lambda>f. Ok (FCassandra f))
       | _ \<Rightarrow> Inl (Panic ''expected CodecState::Cassandra''))
   | Valkey \<Rightarrow> bind_result (dec_valkey D bs) (\<lambda>x. case x of
         Some f \<Rightarrow> Ok (FValkey f)
       | None \<Rightarrow> Inl (Panic ''called Option::unwrap() on a None value''))
   | Kafka \<Rightarrow> (case cs of
         CKafka st \<Rightarrow> bind_result (dec_kafka D bs st) (\<lambda>f. Ok (FKafka f))
       | _ \<Rightarrow> Inl (Panic ''expected CodecState::Kafka''))
   | Dummy \<Rightarrow> Ok FDummy
   | OpenSearch \<Rightarrow> bind_result (dec_opensearch D bs) (\<lambda>f. Ok (FOpenSearch f)))"

text \<open>
  \<^verbatim>\<open>MessageInner::ensure_parsed\<close>: a message that does not parse stays raw.  That the parser's
  panics do not arise for well-formed messages is lemma \<open>frame_from_bytes_no_panic\<close>.
\<close>

definition ensure_parsed :: "decoders \<Rightarrow> message_inner \<Rightarrow> codec_state \<Rightarrow> message_inner \<times> unit result" where
  "ensure_parsed D i cs = (case i of
     RawBytes bs mt \<Rightarrow> (case frame_from_bytes D bs mt cs of
         Inr f \<Rightarrow> (Parsed bs f, Ok ())
       | Inl e \<Rightarrow> (RawBytes bs mt, Inl e))
   | Parsed bs f \<Rightarrow> (i, Ok ())
   | Modified f \<Rightarrow> (i, Ok ()))"

fun inner_frame :: "message_inner \<Rightarrow> frame option" where
  "inner_frame (RawBytes _ _) = None"
| "inner_frame (Parsed _ f) = Some f"
| "inner_frame (Modified f) = Some f"

text \<open>\<^verbatim>\<open>Message::frame\<close> returns the frame, if the message parses, and the message with it cached.\<close>

definition frame :: "decoders \<Rightarrow> message \<Rightarrow> frame option \<times> message" where
  "frame D m = (let (i, r) = ensure_parsed D (inner m) (codec m) in
     case r of Inl e \<Rightarrow> (None, m\<lparr>inner := i\<rparr>) | Inr _ \<Rightarrow> (inner_frame i, m\<lparr>inner := i\<rparr>))"

definition into_frame :: "decoders \<Rightarrow> message \<Rightarrow> frame option" where
  "into_frame D m = (let (i, r) = ensure_parsed D (inner m) (codec m) in
     case r of Inl e \<Rightarrow> None | Inr _ \<Rightarrow> inner_frame i)"

text \<open>A transform that changes the frame it got from \<^verbatim>\<open>frame()\<close> changes it in place.\<close>

fun inner_set_frame :: "frame \<Rightarrow> message_inner \<Rightarrow> message_inner" where
  "inner_set_frame f (RawBytes bs mt) = RawBytes bs mt"
| "inner_set_frame f (Parsed bs _) = Parsed bs f"
| "inner_set_frame f (Modified _) = Modified f"

definition set_frame :: "frame \<Rightarrow> message \<Rightarrow> message" where
  "set_frame f m = m\<lparr>inner := inner_set_frame f (inner m)\<rparr>"

fun inner_invalidate_cache :: "message_inner \<Rightarrow> message_inner" where
  "inner_invalidate_cache (RawBytes bs mt) = RawBytes bs mt"
| "inner_invalidate_cache (Parsed _ f) = Modified f"
| "inner_invalidate_cache (Modified f) = Modified f"

definition invalidate_cache :: "message \<Rightarrow> message" where
  "invalidate_cache m = m\<lparr>inner := inner_invalidate_cache (inner m)\<rparr>"

fun message_type_inner :: "message_inner \<Rightarrow> message_type" where
  "message_type_inner (RawBytes _ mt) = mt"
| "message_type_inner (Parsed _ f) = get_type f"
| "message_type_inner (Modified f) = get_type f"

definition message_type :: "message \<Rightarrow> message_type" where
  "message_type m = message_type_inner (inner m)"

text \<open>The error texts of the three variants differ in how they show the type; only the outcome is kept.\<close>

definition ensure_message_type :: "message_type \<Rightarrow> message \<Rightarrow> unit result" where
  "ensure_message_type expected m =
    (if message_type m = expected \<or> message_type m = Dummy then Ok ()
     else Inl (Err ''Expected message of another type''))"

definition into_encodable :: "message \<Rightarrow> encodable" where
  "into_encodable m = (case inner m of
     RawBytes bs _ \<Rightarrow> EBytes bs
   | Parsed bs _ \<Rightarrow> EBytes bs
   | Modified f \<Rightarrow> (case f of FDummy \<Rightarrow> EBytes [] | _ \<Rightarrow> EFrame f))"

subsection \<open>Construction\<close>

definition from_bytes_at_instant :: "message_id \<Rightarrow> bytes \<Rightarrow> codec_state \<Rightarrow> nat option \<Rightarrow> message" where
  "from_bytes_at_instant nid bs cs at =
    \<lparr>inner = RawBytes bs (message_type_of_codec cs), received_at = at, codec = cs, id = nid,
     request_id = None\<rparr>"

definition from_bytes_and_frame_at_instant :: "message_id \<Rightarrow> bytes \<Rightarrow> frame \<Rightarrow> nat option \<Rightarrow> message" where
  "from_bytes_and_frame_at_instant nid bs f at =
    \<lparr>inner = Parsed bs f, received_at = at, codec = as_codec_state f, id = nid, request_id = None\<rparr>"

definition from_frame_at_instant :: "message_id \<Rightarrow> frame \<Rightarrow> nat option \<Rightarrow> message" where
  "from_frame_at_instant nid f at =
    \<lparr>inner = Modified f, received_at = at, codec = as_codec_state f, id = nid, request_id = None\<rparr>"

definition from_frame_diverged :: "frame \<Rightarrow> message \<Rightarrow> message" where
  "from_frame_diverged f m =
    \<lparr>inner = Modified f, received_at = received_at m, codec = as_codec_state f, id = id m,
     request_id = None\<rparr>"

definition from_bytes :: "message_id \<Rightarrow> bytes \<Rightarrow> codec_state \<Rightarrow> message" where
  "from_bytes nid bs cs = from_bytes_at_instant nid bs cs None"

definition from_frame :: "message_id \<Rightarrow> frame \<Rightarrow> message" where
  "from_frame nid f = from_frame_at_instant nid f None"

definition set_request_id :: "message_id \<Rightarrow> message \<Rightarrow> message" where
  "set_request_id rid m = m\<lparr>request_id := Some rid\<rparr>"

definition clone_with_new_id :: "message_id \<Rightarrow> message \<Rightarrow> message" where
  "clone_with_new_id nid m = m\<lparr>received_at := None, id := nid\<rparr>"

definition replace_with_dummy :: "message \<Rightarrow> message" where
  "replace_with_dummy m = m\<lparr>inner := Modified FDummy\<rparr>"

definition is_dummy :: "message \<Rightarrow> bool" where
  "is_dummy m = (inner m = Modified FDummy)"

subsection \<open>Queries about the contents\<close>

definition get_query_type :: "decoders \<Rightarrow> message \<Rightarrow> query_type result \<times> message" where
  "get_query_type D m = (case frame D m of (f, m') \<Rightarrow>
     (case f of
        Some (FCassandra c) \<Rightarrow> Ok (cassandra_get_query_type c)
      | Some (FValkey v) \<Rightarrow> Ok (valkey_query_type v)
      | Some _ \<Rightarrow> Inl (Panic ''not yet implemented'')
      | None \<Rightarrow> Ok ReadWrite, m'))"

text \<open>\<^verbatim>\<open>raw_frame::cell_count\<close> decodes the envelope first, a parameter.\<close>

definition raw_cell_count :: "decoders \<Rightarrow> bytes \<Rightarrow> nat result" where
  "raw_cell_count D bs = bind_result (dec_raw_body D bs) (\<lambda>(op, body).
     if op = OpBatch then get_batch_len body else Ok 1)"

definition cell_count :: "decoders \<Rightarrow> message \<Rightarrow> nat result" where
  "cell_count D m = (case inner m of
     RawBytes bs mt \<Rightarrow> (case mt of
         Valkey \<Rightarrow> Ok 1
       | Cassandra \<Rightarrow> raw_cell_count D bs
       | Dummy \<Rightarrow> Ok 1
       | _ \<Rightarrow> Inl (Panic ''not yet implemented''))
   | Parsed _ f \<Rightarrow> (case f of
         FCassandra c \<Rightarrow> Ok (cassandra_cell_count c) | FValkey _ \<Rightarrow> Ok 1 | FDummy \<Rightarrow> Ok 1
       | _ \<Rightarrow> Inl (Panic ''not yet implemented''))
   | Modified f \<Rightarrow> (case f of
         FCassandra c \<Rightarrow> Ok (cassandra_cell_count c) | FValkey _ \<Rightarrow> Ok 1 | FDummy \<Rightarrow> Ok 1
       | _ \<Rightarrow> Inl (Panic ''not yet implemented'')))"

definition response_is_dummy :: "decoders \<Rightarrow> message \<Rightarrow> bool \<times> message" where
  "response_is_dummy D m = (case message_type m of
     Kafka \<Rightarrow> (case frame D m of (f, m') \<Rightarrow>
        (case f of Some (FKafka (Request _ (Produce p))) \<Rightarrow> acks p = 0 | _ \<Rightarrow> False, m'))
   | Dummy \<Rightarrow> (True, m)
   | _ \<Rightarrow> (False, m))"

fun frame_stream_id :: "frame \<Rightarrow> int option" where
  "frame_stream_id (FCassandra c) = Some (cstream_id c)"
| "frame_stream_id _ = None"

definition stream_id :: "message \<Rightarrow> int option" where
  "stream_id m = (case inner m of
     RawBytes bs mt \<Rightarrow>
       (if mt = Cassandra \<and> 9 \<le> length bs then Some (i16_be (bs ! 2) (bs ! 3)) else None)
   | Parsed _ f \<Rightarrow> frame_stream_id f
   | Modified f \<Rightarrow> frame_stream_id f)"

subsection \<open>Metadata and error responses\<close>

datatype metadata = MCassandra cassandra_metadata | MValkey | MKafka | MOpenSearch

datatype message_error_type = Internal | Rejected

fun frame_meta :: "frame \<Rightarrow> metadata result" where
  "frame_meta (FCassandra c) = Ok (MCassandra (frame_metadata c))"
| "frame_meta (FKafka _) = Ok MKafka"
| "frame_meta (FValkey _) = Ok MValkey"
| "frame_meta FDummy = Inl (Err ''dummy has no metadata'')"
| "frame_meta (FOpenSearch _) = Inl (Err ''OpenSearch has no metadata'')"

definition message_metadata :: "decoders \<Rightarrow> message \<Rightarrow> metadata result" where
  "message_metadata D m = (case inner m of
     RawBytes bs mt \<Rightarrow> (case mt of
         Cassandra \<Rightarrow> bind_result (raw_metadata (dec_version D) (dec_opcode D) bs) (\<lambda>x. Ok (MCassandra x))
       | Valkey \<Rightarrow> Ok MValkey
       | Kafka \<Rightarrow> Ok MKafka
       | Dummy \<Rightarrow> Inl (Err ''Dummy has no metadata'')
       | OpenSearch \<Rightarrow> Inl (Err ''OpenSearch has no metadata''))
   | Parsed _ f \<Rightarrow> frame_meta f
   | Modified f \<Rightarrow> frame_meta f)"

text \<open>\<^verbatim>\<open>str::replace\<close> of \<^verbatim>\<open>"\r\n"\<close> and of \<^verbatim>\<open>'\n'\<close> by a blank (codes 13 and 10).\<close>

fun replace_crlf :: "string \<Rightarrow> string" where
  "replace_crlf [] = []"
| "replace_crlf [c] = [c]"
| "replace_crlf (c # d # cs) =
    (if c = CHR 0x0D \<and> d = CHR 0x0A then CHR '' '' # replace_crlf cs else c # replace_crlf (d # cs))"

definition replace_nl :: "string \<Rightarrow> string" where
  "replace_nl s = map (\<lambda>c. if c = CHR 0x0A then CHR '' '' else c) s"

definition to_error_response ::
  "message_id \<Rightarrow> metadata \<Rightarrow> string \<Rightarrow> message_error_type \<Rightarrow> message result" where
  "to_error_response nid md error ty = (case md of
     MValkey \<Rightarrow> Ok (from_frame nid (FValkey (VError (replace_nl (replace_crlf (''ERR '' @ error))))))
   | MCassandra meta \<Rightarrow> Ok (from_frame nid (FCassandra (cassandra_error_frame meta error
        (case ty of Internal \<Rightarrow> Server | Rejected \<Rightarrow> Invalid))))
   | MKafka \<Rightarrow> Inl (Err ''A generic error cannot be formed because the kafka protocol does not support it'')
   | MOpenSearch \<Rightarrow> Inl (Panic ''not implemented''))"

definition from_response_to_error_response ::
  "decoders \<Rightarrow> message_id \<Rightarrow> message \<Rightarrow> string \<Rightarrow> message_error_type \<Rightarrow> message result" where
  "from_response_to_error_response D nid m error ty =
    bind_result (message_metadata D m) (\<lambda>md.
    bind_result (to_error_response nid md error ty) (\<lambda>response.
    Ok (case request_id m of Some rid \<Rightarrow> set_request_id rid response | None \<Rightarrow> response)))"

definition from_request_to_error_response ::
  "decoders \<Rightarrow> message_id \<Rightarrow> message \<Rightarrow> string \<Rightarrow> message_error_type \<Rightarrow> message result" where
  "from_request_to_error_response D nid m error ty =
    bind_result (message_metadata D m) (\<lambda>md.
    bind_result (to_error_response nid md error ty) (\<lambda>request.
    Ok (set_request_id (id m) request)))"

definition to_backpressure :: "decoders \<Rightarrow> message_id \<Rightarrow> message \<Rightarrow> message result" where
  "to_backpressure D nid m = bind_result (message_metadata D m) (\<lambda>md. case md of
     MCassandra meta \<Rightarrow> Ok (from_frame_at_instant nid (FCassandra (backpressure_response meta)) (received_at m))
   | _ \<Rightarrow> Inl (Panic ''not implemented''))"

subsection \<open>Well-formedness\<close>

text \<open>
  The codec state of a raw message agrees with its type: both come from the codec that
  read it.  It is what keeps \<^verbatim>\<open>codec_state.as_kafka()\<close> and \<^verbatim>\<open>as_cassandra()\<close> from panicking.
\<close>

definition wf_message :: "message \<Rightarrow> bool" where
  "wf_message m \<longleftrightarrow> (case inner m of
     RawBytes _ mt \<Rightarrow> message_type_of_codec (codec m) = mt
   | _ \<Rightarrow> True)"

definition no_panic :: "'a result \<Rightarrow> bool" where
  "no_panic r \<longleftrightarrow> (\<forall>s. r \<noteq> Inl (Panic s))"

text \<open>The decoders of the crates return errors; the valkey one gets complete messages only.\<close>

definition decoders_ok :: "decoders \<Rightarrow> bool" where
  "decoders_ok D \<longleftrightarrow> (\<forall>bs c. no_panic (dec_cassandra D bs c)) \<and> (\<forall>bs. no_panic (dec_valkey D bs) \<and> dec_valkey D bs \<noteq> Inr None)
     \<and> (\<forall>bs s. no_panic (dec_kafka D bs s)) \<and> (\<forall>bs. no_panic (dec_opensearch D bs))"

lemma frame_from_bytes_no_panic:
  assumes "decoders_ok D" and "message_type_of_codec cs = mt"
  shows "no_panic (frame_from_bytes D bs mt cs)"
proof (cases cs)
  case CValkey
  have "no_panic (dec_valkey D bs)" "dec_valkey D bs \<noteq> Inr None"
    using assms(1) by (simp_all add: decoders_ok_def)
  then show ?thesis using assms(2) CValkey
    by (cases "dec_valkey D bs") (auto simp: frame_from_bytes_def no_panic_def split: option.split)
next
  case (CCassandra c)
  have "no_panic (dec_cassandra D bs c)" using assms(1) by (simp add: decoders_ok_def)
  then show ?thesis using assms(2) CCassandra
    by (cases "dec_cassandra D bs c") (auto simp: frame_from_bytes_def no_panic_def)
next
  case (CKafka s)
  have "no_panic (dec_kafka D bs s)" using assms(1) by (simp add: decoders_ok_def)
  then show ?thesis using assms(2) CKafka
    by (cases "dec_kafka D bs s") (auto simp: frame_from_bytes_def no_panic_def)
next
  case CDummy
  then show ?thesis using assms(2) by (auto simp: frame_from_bytes_def no_panic_def)
next
  case COpenSearch
  have "no_panic (dec_opensearch D bs)" using assms(1) by (simp add: decoders_ok_def)
  then show ?thesis using assms(2) COpenSearch
    by (cases "dec_opensearch D bs") (auto simp: frame_from_bytes_def no_panic_def)
qed

lemma get_type_frame_from_bytes:
  "frame_from_bytes D bs mt cs = Inr f \<Longrightarrow> get_type f = mt"
  by (auto simp: frame_from_bytes_def bind_result_Inr_iff
      split: message_type.splits codec_state.splits option.splits)

lemma frame_cases:
  "frame D m = (case inner m of
     RawBytes bs mt \<Rightarrow> (case frame_from_bytes D bs mt (codec m) of
         Inl e \<Rightarrow> (None, m)
       | Inr f \<Rightarrow> (Some f, m\<lparr>inner := Parsed bs f\<rparr>))
   | Parsed bs f \<Rightarrow> (Some f, m)
   | Modified f \<Rightarrow> (Some f, m))"
  by (cases m) (simp add: frame_def ensure_parsed_def split: message_inner.split sum.split)

lemma frame_keeps [simp]:
  "id (snd (frame D m)) = id m" "request_id (snd (frame D m)) = request_id m"
  "codec (snd (frame D m)) = codec m" "received_at (snd (frame D m)) = received_at m"
  by (simp_all add: frame_cases split: message_inner.split sum.split)

lemma message_type_frame [simp]: "message_type (snd (frame D m)) = message_type m"
  by (simp add: frame_cases message_type_def get_type_frame_from_bytes
      split: message_inner.split sum.split)

lemma wf_message_frame: "wf_message m \<Longrightarrow> wf_message (snd (frame D m))"
  by (simp add: frame_cases wf_message_def split: message_inner.splits sum.split)

lemma frame_cached:
  "fst (frame D m) = Some f \<Longrightarrow> frame D (snd (frame D m)) = (Some f, snd (frame D m))"
  by (simp add: frame_cases split: message_inner.splits sum.splits)

lemma into_encodable_frame: "into_encodable (snd (frame D m)) = into_encodable m"
  by (cases "inner m") (simp_all add: frame_cases into_encodable_def split: sum.split)

lemma into_encodable_set_frame:
  "(\<forall>f. inner m \<noteq> Modified f) \<Longrightarrow> into_encodable (set_frame g m) = into_encodable m"
  by (cases "inner m") (auto simp: set_frame_def into_encodable_def)

lemma wf_message_from [simp]:
  "wf_message (from_bytes_at_instant nid bs cs at)"
  "wf_message (from_bytes_and_frame_at_instant nid bs f at)"
  "wf_message (from_frame_at_instant nid f at)"
  "wf_message (from_frame nid f)"
  by (simp_all add: wf_message_def from_bytes_at_instant_def from_bytes_and_frame_at_instant_def
      from_frame_at_instant_def from_frame_def)

lemma set_replace_nl: "CHR 0x0A \<notin> set (replace_nl s)"
  by (auto simp: replace_nl_def)

end
