(* ===== verification/Connection.thy ===== *)
theory Connection
  imports Message
begin

text \<open>
  Outgoing connections (\<^verbatim>\<open>src/shotover/src/connection.rs\<close>): the insertion of responses for requests
  the server does not answer (\<^verbatim>\<open>DummyResponseInserter\<close>) and the operations of \<^verbatim>\<open>SinkConnection\<close>
  on its channels.

  The reader and writer tasks are the environment: what they have delivered is the content of
  \<open>in_rx\<close>, what they were given to write is the content of \<open>out_tx\<close>, and the error with which
  they ended is the content of \<open>closed_rx\<close>.
\<close>

subsection \<open>Dummy responses\<close>

record dummy_request =
  dr_request_id :: message_id
  dr_index :: nat

record dummy_response_inserter =
  dummy_requests :: "dummy_request list"
  pending_requests_count :: nat

definition inserter_new :: dummy_response_inserter where
  "inserter_new = \<lparr>dummy_requests = [], pending_requests_count = 0\<rparr>"

text \<open>\<^verbatim>\<open>process_requests\<close>: \<^verbatim>\<open>response_is_dummy\<close> may cache the parsed frame in the request.\<close>

fun record_dummies :: "decoders \<Rightarrow> nat \<Rightarrow> message list \<Rightarrow> message list \<times> dummy_request list" where
  "record_dummies D n [] = ([], [])"
| "record_dummies D n (m # ms) =
    (let (b, m') = response_is_dummy D m; (ms', ds) = record_dummies D (Suc n) ms in
     (m' # ms', if b then \<lparr>dr_request_id = id m', dr_index = n\<rparr> # ds else ds))"

definition process_requests ::
  "decoders \<Rightarrow> message list \<Rightarrow> dummy_response_inserter \<Rightarrow> message list \<times> dummy_response_inserter" where
  "process_requests D ms ins =
    (let (ms', ds) = record_dummies D (pending_requests_count ins) ms in
     (ms', ins\<lparr>dummy_requests := dummy_requests ins @ ds,
               pending_requests_count := pending_requests_count ins + length ms\<rparr>))"

text \<open>The first loop of \<^verbatim>\<open>process_responses\<close>: responses without a request shift the indexes.\<close>

fun shift_dummies :: "nat \<Rightarrow> nat \<Rightarrow> dummy_request list \<Rightarrow> dummy_request list" where
  "shift_dummies response_i k [] = []"
| "shift_dummies response_i k (d # ds) =
    (if response_i \<le> dr_index d + k then d\<lparr>dr_index := dr_index d + 1\<rparr> else d)
      # shift_dummies response_i (Suc k) ds"

fun fix_up :: "nat \<Rightarrow> message list \<Rightarrow> dummy_response_inserter \<Rightarrow> dummy_response_inserter" where
  "fix_up i [] ins = ins"
| "fix_up i (r # rs) ins =
    fix_up (Suc i) rs
      (if request_id r = None
       then ins\<lparr>dummy_requests := shift_dummies i 0 (dummy_requests ins),
                pending_requests_count := pending_requests_count ins + 1\<rparr>
       else ins)"

definition dummy_response :: "(message_id \<Rightarrow> message_id) \<Rightarrow> message_id \<Rightarrow> message" where
  "dummy_response nid rid = set_request_id rid (from_frame (nid rid) FDummy)"

definition insert_at :: "nat \<Rightarrow> 'a \<Rightarrow> 'a list \<Rightarrow> 'a list" where
  "insert_at i x xs = take i xs @ x # drop i xs"

text \<open>The \<^verbatim>\<open>retain_mut\<close> loop: it carries the responses, their number and the requests that stay.\<close>

fun insert_dummies ::
  "(message_id \<Rightarrow> message_id) \<Rightarrow> nat \<Rightarrow> dummy_request list \<Rightarrow> message list \<Rightarrow> nat \<Rightarrow> message list \<times> nat \<times> dummy_request list" where
  "insert_dummies nid start_at [] responses len = (responses, len, [])"
| "insert_dummies nid start_at (d # ds) responses len =
    (if dr_index d \<le> len
     then insert_dummies nid start_at ds
            (insert_at (dr_index d + start_at) (dummy_response nid (dr_request_id d)) responses) (len + 1)
     else (case insert_dummies nid start_at ds responses len of (rs, len', kept) \<Rightarrow> (rs, len', d # kept)))"

text \<open>The unsigned subtractions at the end panic when they would underflow.\<close>

definition process_responses ::
  "(message_id \<Rightarrow> message_id) \<Rightarrow> message list \<Rightarrow> nat \<Rightarrow> dummy_response_inserter
     \<Rightarrow> (message list \<times> dummy_response_inserter) result" where
  "process_responses nid responses start_at ins =
    (let ins1 = fix_up 0 (drop start_at responses) ins;
         (rs, len, kept) = insert_dummies nid start_at (dummy_requests ins1) responses (length responses - start_at)
     in if (\<exists>d \<in> set kept. dr_index d < len) \<or> pending_requests_count ins1 < len
        then Inl (Panic ''attempt to subtract with overflow'')
        else Ok (rs, \<lparr>dummy_requests = map (\<lambda>d. d\<lparr>dr_index := dr_index d - len\<rparr>) kept,
                     pending_requests_count = pending_requests_count ins1 - len\<rparr>))"

subsection \<open>What the inserter implements\<close>

text \<open>
  The specification keeps the queue of outstanding requests itself, each with the information
  whether the server will answer it.  Responses are matched with the queue from the front; a
  request without an answer from the server is answered as soon as everything before it is.
\<close>

type_synonym outstanding = "(message_id \<times> bool) list"

fun answer :: "(message_id \<Rightarrow> message_id) \<Rightarrow> outstanding \<Rightarrow> message list \<Rightarrow> message list \<times> outstanding" where
  "answer nid [] rs = (rs, [])"
| "answer nid ((rid, True) # q) rs = (case answer nid q rs of (out, q') \<Rightarrow> (dummy_response nid rid # out, q'))"
| "answer nid ((rid, False) # q) [] = ([], (rid, False) # q)"
| "answer nid ((rid, False) # q) (r # rs) = (case answer nid q rs of (out, q') \<Rightarrow> (r # out, q'))"

fun dummies_of :: "nat \<Rightarrow> outstanding \<Rightarrow> dummy_request list" where
  "dummies_of n [] = []"
| "dummies_of n ((rid, b) # q) =
    (if b then \<lparr>dr_request_id = rid, dr_index = n\<rparr> # dummies_of (Suc n) q else dummies_of (Suc n) q)"

definition inserter_abs :: "outstanding \<Rightarrow> dummy_response_inserter" where
  "inserter_abs q = \<lparr>dummy_requests = dummies_of 0 q, pending_requests_count = length q\<rparr>"

definition expects :: "outstanding \<Rightarrow> nat" where
  "expects q = length (filter (\<lambda>p. \<not> snd p) q)"

lemma dummies_of_append: "dummies_of n (p @ q) = dummies_of n p @ dummies_of (n + length p) q"
  by (induction n p rule: dummies_of.induct) auto

lemma record_dummies_spec:
  "snd (record_dummies D n ms) = dummies_of n (map (\<lambda>m. (id m, fst (response_is_dummy D m))) ms)"
proof (induction ms arbitrary: n)
  case (Cons m ms)
  have "id (snd (response_is_dummy D m)) = id m"
    by (simp add: response_is_dummy_def split: message_type.split prod.split)
      (metis frame_keeps(1) snd_conv)
  then show ?case using Cons[of "Suc n"] by (auto simp: Let_def split: prod.splits)
qed simp

lemma process_requests_refines:
  "snd (process_requests D ms (inserter_abs q)) =
    inserter_abs (q @ map (\<lambda>m. (id m, fst (response_is_dummy D m))) ms)"
  using record_dummies_spec[of D "length q" ms]
  by (auto simp: process_requests_def inserter_abs_def dummies_of_append Let_def split: prod.splits)

lemma fix_up_requested: "\<forall>r \<in> set rs. request_id r \<noteq> None \<Longrightarrow> fix_up i rs ins = ins"
  by (induction i rs ins rule: fix_up.induct) auto

lemma dummies_of_ge: "d \<in> set (dummies_of n q) \<Longrightarrow> n \<le> dr_index d \<and> dr_index d < n + length q"
  by (induction n q rule: dummies_of.induct) (auto split: if_splits)

lemma insert_dummies_keep:
  "\<forall>d \<in> set ds. len < dr_index d \<Longrightarrow> insert_dummies nid s ds rs len = (rs, len, ds)"
  by (induction ds) auto

lemma insert_at_append: "insert_at (length xs) x (xs @ ys) = xs @ x # ys"
  by (simp add: insert_at_def)

text \<open>The loop invariant: \<open>out\<close> is final, \<open>rs\<close> are the responses not yet placed.\<close>

lemma insert_dummies_answer:
  assumes "length out = s + n" and "length rs \<le> expects q" and "answer nid q rs = (res, q')"
  shows "insert_dummies nid s (dummies_of n q) (out @ rs) (n + length rs) =
           (out @ res, n + length res, dummies_of (n + length res) q')"
  using assms
proof (induction nid q rs arbitrary: out n res q' rule: answer.induct)
  case (1 nid rs)
  then show ?case by (simp add: expects_def)
next
  case (2 nid rid q rs)
  obtain o2 q2 where a: "answer nid q rs = (o2, q2)" by fastforce
  with 2 have res: "res = dummy_response nid rid # o2" "q' = q2" by auto
  have ins: "insert_at (n + s) (dummy_response nid rid) (out @ rs) = (out @ [dummy_response nid rid]) @ rs"
    using 2(2) insert_at_append[of out "dummy_response nid rid" rs] by (simp add: add.commute)
  have "insert_dummies nid s (dummies_of (Suc n) q) ((out @ [dummy_response nid rid]) @ rs) (Suc n + length rs) =
          ((out @ [dummy_response nid rid]) @ o2, Suc n + length o2, dummies_of (Suc n + length o2) q2)"
    using 2(1)[OF _ _ a, of "out @ [dummy_response nid rid]" "Suc n"] 2(2,3) by (simp add: expects_def)
  then show ?case using ins res by simp
next
  case (3 nid rid q)
  have "\<forall>d \<in> set (dummies_of (Suc n) q). n < dr_index d" using dummies_of_ge by fastforce
  with 3 show ?case by (auto simp: insert_dummies_keep)
next
  case (4 nid rid q r rs)
  obtain o2 q2 where a: "answer nid q rs = (o2, q2)" by fastforce
  with 4 have res: "res = r # o2" "q' = q2" by auto
  have "insert_dummies nid s (dummies_of (Suc n) q) ((out @ [r]) @ rs) (Suc n + length rs) =
          ((out @ [r]) @ o2, Suc n + length o2, dummies_of (Suc n + length o2) q2)"
    using 4(1)[OF _ _ a, of "out @ [r]" "Suc n"] 4(2,3) by (simp add: expects_def)
  then show ?case using res by simp
qed

lemma dummies_of_shift:
  "map (\<lambda>d. d\<lparr>dr_index := dr_index d - k\<rparr>) (dummies_of (n + k) q) = dummies_of n q"
  by (induction n q rule: dummies_of.induct) auto

lemma answer_length:
  "length rs \<le> expects q \<Longrightarrow> answer nid q rs = (res, q') \<Longrightarrow> length res + length q' = length q"
  by (induction nid q rs arbitrary: res q' rule: answer.induct)
    (auto simp: expects_def split: prod.splits)

lemma process_responses_answer:
  assumes "\<forall>r \<in> set rs. request_id r \<noteq> None" and "length rs \<le> expects q"
    and a: "answer nid q rs = (res, q')"
  shows "process_responses nid (pre @ rs) (length pre) (inserter_abs q) = Ok (pre @ res, inserter_abs q')"
proof -
  have loop: "insert_dummies nid (length pre) (dummies_of 0 q) (pre @ rs) (length rs) =
          (pre @ res, length res, dummies_of (length res) q')"
    using insert_dummies_answer[of pre "length pre" 0 rs q nid res q'] assms by simp
  have kept: "\<not> (\<exists>d \<in> set (dummies_of (length res) q'). dr_index d < length res)"
    using dummies_of_ge by (meson leD)
  have len: "length res + length q' = length q" by (rule answer_length[OF assms(2) a])
  show ?thesis
    using loop kept len dummies_of_shift[of "length res" 0 q']
    by (auto simp: process_responses_def inserter_abs_def fix_up_requested[OF assms(1)])
qed

subsection \<open>The connection\<close>

datatype connection_error =
  OtherSideClosed | ShotoverClosed | MessageDecode string | MessageEncode string | Io string | ReadTimeout nat

record sink_connection =
  in_rx :: "message list list"
  in_disconnected :: bool
  out_tx :: "message list"
  out_disconnected :: bool
  closed_rx :: "connection_error option"
  conn_error :: "connection_error option"
  inserter :: dummy_response_inserter

text \<open>Operations return the connection and either an error, a panic, or a value.\<close>

datatype 'a conn_result = COk 'a | CErr connection_error | CPanic string

definition conn_pending_requests_count :: "sink_connection \<Rightarrow> nat" where
  "conn_pending_requests_count c = pending_requests_count (inserter c)"

definition get_error_for_close :: "sink_connection \<Rightarrow> connection_error conn_result \<times> sink_connection" where
  "get_error_for_close c = (case closed_rx c of
     Some e \<Rightarrow> (COk e, c\<lparr>closed_rx := None, conn_error := Some e\<rparr>)
   | None \<Rightarrow> (CPanic ''called Result::unwrap() on an Err value'', c))"

definition get_error :: "sink_connection \<Rightarrow> connection_error option \<times> sink_connection" where
  "get_error c = (if conn_error c = None
     then (closed_rx c, c\<lparr>conn_error := closed_rx c, closed_rx := None\<rparr>) else (conn_error c, c))"

definition fail_closed :: "sink_connection \<Rightarrow> 'a conn_result \<times> sink_connection" where
  "fail_closed c = (case get_error_for_close c of
     (COk e, c') \<Rightarrow> (CErr e, c') | (CErr e, c') \<Rightarrow> (CErr e, c') | (CPanic s, c') \<Rightarrow> (CPanic s, c'))"

definition conn_send :: "decoders \<Rightarrow> message list \<Rightarrow> sink_connection \<Rightarrow> unit conn_result \<times> sink_connection" where
  "conn_send D ms c =
    (let (ms', ins) = process_requests D ms (inserter c); c' = c\<lparr>inserter := ins\<rparr> in
     case conn_error c of
       Some e \<Rightarrow> (CErr e, c')
     | None \<Rightarrow> if out_disconnected c then fail_closed c'
               else (COk (), c'\<lparr>out_tx := out_tx c @ ms'\<rparr>))"

definition handle_disconnect_on_recv ::
  "message list \<Rightarrow> nat \<Rightarrow> sink_connection \<Rightarrow> message list conn_result \<times> sink_connection" where
  "handle_disconnect_on_recv responses initial_count c = (case get_error_for_close c of
     (COk err, c') \<Rightarrow> (if length responses = initial_count then (CErr err, c') else (COk responses, c'))
   | (CErr e, c') \<Rightarrow> (CErr e, c')
   | (CPanic s, c') \<Rightarrow> (CPanic s, c'))"

text \<open>\<^verbatim>\<open>try_recv_into\<close> drains the channel, then inserts the dummies that are due.\<close>

definition try_recv_into ::
  "(message_id \<Rightarrow> message_id) \<Rightarrow> message list \<Rightarrow> sink_connection \<Rightarrow> message list conn_result \<times> sink_connection" where
  "try_recv_into nid responses c = (case conn_error c of
     Some e \<Rightarrow> (CErr e, c)
   | None \<Rightarrow>
      (let received = responses @ concat (in_rx c); c1 = c\<lparr>in_rx := []\<rparr> in
       case process_responses nid received (length responses) (inserter c) of
         Inl (Panic s) \<Rightarrow> (CPanic s, c1)
       | Inl (Err s) \<Rightarrow> (CPanic s, c1)
       | Inr (rs, ins) \<Rightarrow>
          (let c2 = c1\<lparr>inserter := ins\<rparr> in
           if in_disconnected c then handle_disconnect_on_recv rs (length responses) c2 else (COk rs, c2))))"

text \<open>
  \<^verbatim>\<open>recv_into\<close> waits for a batch when there is nothing to return; \<open>next\<close> is the batch the wait
  ends with, \<open>None\<close> when the channel is closed.
\<close>

definition recv_into ::
  "(message_id \<Rightarrow> message_id) \<Rightarrow> message list option \<Rightarrow> message list \<Rightarrow> sink_connection
     \<Rightarrow> message list conn_result \<times> sink_connection" where
  "recv_into nid next responses c = (case try_recv_into nid responses c of
     (COk rs, c1) \<Rightarrow>
       (if length rs = length responses
        then (case next of
            None \<Rightarrow> fail_closed c1
          | Some new \<Rightarrow> (case process_responses nid new 0 (inserter c1) of
                Inl (Panic s) \<Rightarrow> (CPanic s, c1)
              | Inl (Err s) \<Rightarrow> (CPanic s, c1)
              | Inr (new', ins) \<Rightarrow> (COk (rs @ new'), c1\<lparr>inserter := ins\<rparr>)))
        else (COk rs, c1))
   | (CErr e, c1) \<Rightarrow> (CErr e, c1)
   | (CPanic s, c1) \<Rightarrow> (CPanic s, c1))"

subsection \<open>Connections as first-in first-out channels\<close>

text \<open>
  What a client of a connection relies on: responses come in the order of the requests and
  answer exactly the oldest outstanding ones.  \<open>chan c ids\<close> says that \<open>ids\<close> are the requests
  sent on \<open>c\<close> and not answered yet, oldest first.
\<close>

locale fifo_connection =
  fixes chan :: "'c \<Rightarrow> message_id list \<Rightarrow> bool"
    and send :: "message list \<Rightarrow> 'c \<Rightarrow> unit conn_result \<times> 'c"
    and recv :: "message list \<Rightarrow> 'c \<Rightarrow> message list conn_result \<times> 'c"
    and pending :: "'c \<Rightarrow> nat"
  assumes chan_send: "chan c ids \<Longrightarrow> send ms c = (COk (), c') \<Longrightarrow> chan c' (ids @ map id ms)"
    and chan_recv: "chan c ids \<Longrightarrow> recv pre c = (COk rs, c') \<Longrightarrow>
      \<exists>new. rs = pre @ new \<and> length new \<le> length ids
        \<and> map request_id new = map Some (take (length new) ids) \<and> chan c' (drop (length new) ids)"
    and chan_pending: "chan c ids \<Longrightarrow> pending c = length ids"
begin

text \<open>Over any run of sends and receives, each received response answers the next request.\<close>

fun run :: "(message list option) list \<Rightarrow> 'c \<Rightarrow> (message list \<times> 'c) option" where
  "run [] c = Some ([], c)"
| "run (Some ms # ops) c = (case send ms c of (COk _, c') \<Rightarrow> run ops c' | _ \<Rightarrow> None)"
| "run (None # ops) c = (case recv [] c of
     (COk rs, c') \<Rightarrow> (case run ops c' of Some (out, c'') \<Rightarrow> Some (rs @ out, c'') | None \<Rightarrow> None)
   | _ \<Rightarrow> None)"

definition sent_ids :: "(message list option) list \<Rightarrow> message_id list" where
  "sent_ids ops = concat (map (\<lambda>op. case op of Some ms \<Rightarrow> map id ms | None \<Rightarrow> []) ops)"

lemma run_in_order:
  assumes "chan c ids" and "run ops c = Some (out, c')"
  shows "\<exists>left. map Some (ids @ sent_ids ops) = map request_id out @ map Some left \<and> chan c' left"
  using assms
proof (induction ops c arbitrary: ids out c' rule: run.induct)
  case (1 c)
  then show ?case by (auto simp: sent_ids_def)
next
  case (2 ms ops c)
  then obtain c1 where s: "send ms c = (COk (), c1)" and r: "run ops c1 = Some (out, c')"
    by (auto split: prod.splits conn_result.splits)
  from 2(1)[OF s[symmetric] _ chan_send[OF 2(2) s] r] show ?case
    by (simp add: sent_ids_def)
next
  case (3 ops c)
  then obtain rs c1 out1 where s: "recv [] c = (COk rs, c1)" and r: "run ops c1 = Some (out1, c')"
    and o: "out = rs @ out1"
    by (auto split: prod.splits conn_result.splits option.splits)
  from chan_recv[OF 3(2) s] obtain new where n: "rs = new" "map request_id new = map Some (take (length new) ids)"
    "chan c1 (drop (length new) ids)" by auto
  from 3(1)[OF s[symmetric] _ n(3) r] obtain left where
    l: "map Some (drop (length new) ids @ sent_ids ops) = map request_id out1 @ map Some left" "chan c' left" by auto
  have "ids @ sent_ids (None # ops) = take (length new) ids @ (drop (length new) ids @ sent_ids ops)"
    by (simp add: sent_ids_def)
  then have "map Some (ids @ sent_ids (None # ops)) =
      map Some (take (length new) ids) @ map Some (drop (length new) ids @ sent_ids ops)"
    by (simp only: map_append)
  then have "map Some (ids @ sent_ids (None # ops)) = map request_id out @ map Some left"
    using n(1,2) l(1) o by simp
  then show ?case using l(2) by blast
qed

end

text \<open>
  A sink connection: what has arrived on \<open>in_rx\<close> answers the oldest requests that the server
  answers, in their order.  This is the environment's part: the server of an in-order protocol
  answers in order and the codec labels each response with the id of its request.  The
  outstanding requests are the last ones that were sent.
\<close>

definition real_ids :: "outstanding \<Rightarrow> message_id list" where
  "real_ids q = map fst (filter (\<lambda>p. \<not> snd p) q)"

definition arrived_ok :: "outstanding \<Rightarrow> message list \<Rightarrow> bool" where
  "arrived_ok q rs \<longleftrightarrow> length rs \<le> length (real_ids q) \<and> map request_id rs = map Some (take (length rs) (real_ids q))"

definition sink_chan :: "sink_connection \<Rightarrow> message_id list \<Rightarrow> bool" where
  "sink_chan c ids \<longleftrightarrow> (\<exists>q. map fst q = ids \<and> inserter c = inserter_abs q \<and> arrived_ok q (concat (in_rx c))) \<and> suffix ids (map id (out_tx c))"

lemma expects_real: "expects q = length (real_ids q)"
  by (simp add: expects_def real_ids_def)

lemma request_id_dummy_response [simp]: "request_id (dummy_response nid rid) = Some rid"
  by (simp add: dummy_response_def set_request_id_def)

lemma answer_ids:
  assumes "arrived_ok q rs" and "answer nid q rs = (res, q')"
  shows "length res \<le> length q \<and> map request_id res = map Some (map fst (take (length res) q)) \<and> q' = drop (length res) q"
  using assms
proof (induction nid q rs arbitrary: res q' rule: answer.induct)
  case (1 nid rs)
  then show ?case by (auto simp: arrived_ok_def real_ids_def)
next
  case (2 nid rid q rs)
  then show ?case by (auto simp: arrived_ok_def real_ids_def split: prod.splits)
next
  case (3 nid rid q)
  then show ?case by (auto simp: arrived_ok_def real_ids_def)
next
  case (4 nid rid q r rs)
  then show ?case by (auto simp: arrived_ok_def real_ids_def split: prod.splits)
qed

lemma arrived_ok_append: "arrived_ok q rs \<Longrightarrow> arrived_ok (q @ q') rs"
  by (auto simp: arrived_ok_def real_ids_def)

lemma arrived_ok_requested: "arrived_ok q rs \<Longrightarrow> \<forall>r \<in> set rs. request_id r \<noteq> None"
  by (auto simp: arrived_ok_def) (metis ex_map_conv image_eqI list.set_map option.discI)

lemma sink_chan_recv:
  assumes "sink_chan c ids" and r: "try_recv_into nid pre c = (COk rs, c')"
  shows "\<exists>new. rs = pre @ new \<and> length new \<le> length ids
        \<and> map request_id new = map Some (take (length new) ids) \<and> sink_chan c' (drop (length new) ids)"
proof -
  obtain q where q: "map fst q = ids" "inserter c = inserter_abs q" "arrived_ok q (concat (in_rx c))"
    using assms(1) by (auto simp: sink_chan_def)
  obtain res q' where a: "answer nid q (concat (in_rx c)) = (res, q')" by fastforce
  have p: "process_responses nid (pre @ concat (in_rx c)) (length pre) (inserter c) = Ok (pre @ res, inserter_abs q')"
    unfolding q(2)
    by (rule process_responses_answer[OF arrived_ok_requested[OF q(3)] _ a])
      (use q(3) in \<open>simp add: arrived_ok_def expects_real\<close>)
  have c': "rs = pre @ res \<and> inserter c' = inserter_abs q' \<and> in_rx c' = [] \<and> out_tx c' = out_tx c"
    using r p by (auto simp: try_recv_into_def handle_disconnect_on_recv_def get_error_for_close_def Let_def
        split: option.splits if_splits)
  have "map fst q' = drop (length res) ids" using answer_ids[OF q(3) a] q(1) by (auto simp: drop_map)
  moreover have "suffix (drop (length res) ids) (map id (out_tx c'))"
    using assms(1) c' by (metis sink_chan_def suffix_drop suffix_order.trans)
  ultimately have "sink_chan c' (drop (length res) ids)"
    using c' by (auto simp: sink_chan_def arrived_ok_def)
  then show ?thesis using c' answer_ids[OF q(3) a] q(1) by (auto simp: take_map)
qed

lemma process_requests_ids: "map id (fst (process_requests D ms ins)) = map id ms"
proof -
  have "map id (fst (record_dummies D n ms)) = map id ms" for n
  proof (induction ms arbitrary: n)
    case (Cons m ms)
    have "id (snd (response_is_dummy D m)) = id m"
      by (simp add: response_is_dummy_def split: message_type.split prod.split)
        (metis frame_keeps(1) snd_conv)
    then show ?case using Cons[of "Suc n"] by (auto simp: Let_def split: prod.splits)
  qed simp
  then show ?thesis by (auto simp: process_requests_def Let_def split: prod.splits)
      (metis fst_conv)
qed

lemma sink_chan_send:
  assumes "sink_chan c ids" and s: "conn_send D ms c = (COk (), c')"
  shows "sink_chan c' (ids @ map id ms)"
proof -
  obtain q where q: "map fst q = ids" "inserter c = inserter_abs q" "arrived_ok q (concat (in_rx c))"
    using assms(1) by (auto simp: sink_chan_def)
  let ?q = "q @ map (\<lambda>m. (id m, fst (response_is_dummy D m))) ms"
  have c': "inserter c' = inserter_abs ?q \<and> in_rx c' = in_rx c \<and> map id (out_tx c') = map id (out_tx c) @ map id ms"
    using s q(2) process_requests_refines[of D ms q] process_requests_ids[of D ms "inserter c"]
    by (auto simp: conn_send_def fail_closed_def get_error_for_close_def Let_def
        split: option.splits if_splits prod.splits)
  moreover have "suffix (ids @ map id ms) (map id (out_tx c'))"
    using assms(1) c' by (auto simp: sink_chan_def suffix_def)
  ultimately show ?thesis using q(1) arrived_ok_append[OF q(3)]
    by (auto simp: sink_chan_def intro!: exI[of _ ?q])
qed

lemma sink_chan_pending: "sink_chan c ids \<Longrightarrow> conn_pending_requests_count c = length ids"
  by (auto simp: sink_chan_def conn_pending_requests_count_def inserter_abs_def)

interpretation sink: fifo_connection sink_chan "conn_send D" "try_recv_into nid" conn_pending_requests_count for D nid
  by unfold_locales (use sink_chan_send sink_chan_recv sink_chan_pending in blast)+

end
