(* ===== verification/Message_Theorems.thy ===== *)
theory Message_Theorems
  imports Connection
begin

text \<open>The properties of messages and of the connections they travel on, with concrete instances.\<close>

subsection \<open>Messages\<close>

text \<open>
  C25: looking at the frame of a message is invisible: what is forwarded, the type, the ids and
  the time of arrival stay the same, and looking again gives the same frame without parsing.
\<close>

theorem parsing_is_transparent:
  "into_encodable (snd (frame D m)) = into_encodable m \<and> message_type (snd (frame D m)) = message_type m \<and>
   id (snd (frame D m)) = id m \<and> request_id (snd (frame D m)) = request_id m \<and> received_at (snd (frame D m)) = received_at m \<and>
   frame D (snd (frame D m)) = (fst (frame D m), snd (frame D m))"
proof -
  have "frame D (snd (frame D m)) = (fst (frame D m), snd (frame D m))"
    by (cases "inner m") (simp_all add: frame_cases split: sum.split)
  then show ?thesis by (simp add: into_encodable_frame)
qed

text \<open>
  C26: an error response made from a request answers that request, and an error of the Valkey
  protocol is a single line, so that it cannot break the framing of the connection.
\<close>

theorem error_response_answers_request:
  assumes "from_request_to_error_response D nid m error ty = Ok r"
  shows "request_id r = Some (id m) \<and> (\<forall>e. inner r = Modified (FValkey (VError e)) \<longrightarrow> CHR 0x0A \<notin> set e)"
proof -
  obtain md r0 where r: "to_error_response nid md error ty = Ok r0" and r': "r = set_request_id (id m) r0"
    using assms by (auto simp: from_request_to_error_response_def bind_result_Inr_iff)
  have "\<forall>e. inner r0 = Modified (FValkey (VError e)) \<longrightarrow> CHR 0x0A \<notin> set e"
    using r set_replace_nl by (auto simp: to_error_response_def from_frame_def from_frame_at_instant_def split: metadata.splits)
  then show ?thesis by (simp add: r' set_request_id_def)
qed

definition ex_valkey :: message where
  "ex_valkey = \<lparr>inner = Modified (FValkey VNull), received_at = None, codec = CValkey, id = 5, request_id = None\<rparr>"

theorem error_response_answers_request_witness:
  "\<forall>D. \<exists>r. from_request_to_error_response D 9 ex_valkey [CHR ''a'', CHR 0x0D, CHR 0x0A, CHR ''b''] Internal = Ok r \<and> request_id r = Some 5"
proof
  fix D
  have "\<exists>r. from_request_to_error_response D 9 ex_valkey [CHR ''a'', CHR 0x0D, CHR 0x0A, CHR ''b''] Internal = Ok r"
    by (simp add: from_request_to_error_response_def message_metadata_def ex_valkey_def to_error_response_def)
  then show "\<exists>r. from_request_to_error_response D 9 ex_valkey [CHR ''a'', CHR 0x0D, CHR 0x0A, CHR ''b''] Internal = Ok r \<and> request_id r = Some 5"
    using error_response_answers_request[of D 9 ex_valkey] by (fastforce simp: ex_valkey_def)
qed

text \<open>
  a backpressure response carries no request id: the response that a throttled Cassandra
  request gets does not say which request it answers.
\<close>

theorem backpressure_has_no_request_id:
  assumes "to_backpressure D nid m = Ok r"
  shows "request_id r = None"
proof -
  obtain md where "message_metadata D m = Ok md" and r: "(case md of
     MCassandra meta \<Rightarrow> Ok (from_frame_at_instant nid (FCassandra (backpressure_response meta)) (received_at m))
   | _ \<Rightarrow> Inl (Panic ''not implemented'')) = Ok r"
    using assms by (auto simp: to_backpressure_def bind_result_Inr_iff)
  from r show ?thesis by (cases md) (auto simp: from_frame_at_instant_def)
qed

definition ex_cassandra :: "cassandra_frame \<Rightarrow> message" where
  "ex_cassandra f = \<lparr>inner = Modified (FCassandra f), received_at = None, codec = CCassandra 0, id = 6, request_id = None\<rparr>"

theorem backpressure_has_no_request_id_witness:
  "\<forall>D f. \<exists>r. to_backpressure D 9 (ex_cassandra f) = Ok r \<and> request_id r = None"
proof (intro allI)
  fix D f
  have "\<exists>r. to_backpressure D 9 (ex_cassandra f) = Ok r"
    by (simp add: to_backpressure_def message_metadata_def ex_cassandra_def)
  then show "\<exists>r. to_backpressure D 9 (ex_cassandra f) = Ok r \<and> request_id r = None"
    using backpressure_has_no_request_id[of D 9 "ex_cassandra f"] by blast
qed

text \<open>
  The length of a Cassandra batch is read behind a check for two bytes although three are
  needed, so that a body of exactly two bytes panics.
\<close>

theorem two_byte_batch_panics:
  assumes "length bs = 2"
  shows "get_batch_len bs = Inl (Panic ''range end index 3 out of range for slice'')"
  using assms by (simp add: get_batch_len_def)

theorem two_byte_batch_panics_witness: "get_batch_len [0, 0] = Inl (Panic ''range end index 3 out of range for slice'')"
  by (rule two_byte_batch_panics) simp

subsection \<open>Connections\<close>

text \<open>
  C10: the dummy response inserter answers the outstanding requests in order: requests that get
  no response of their own receive a dummy response in their place, the others take the
  arrived responses one by one, and the indices kept inside stay those of the outstanding
  requests.
\<close>

theorem dummies_are_inserted_in_order:
  assumes "\<forall>r \<in> set rs. request_id r \<noteq> None" and "length rs \<le> expects q" and "answer nid q rs = (res, q')"
  shows "process_responses nid (pre @ rs) (length pre) (inserter_abs q) = Ok (pre @ res, inserter_abs q')"
  using assms by (rule process_responses_answer)

theorem dummies_are_inserted_in_order_witness:
  "\<forall>nid. process_responses nid ([] @ [set_request_id 2 ex_valkey]) (length ([] :: message list)) (inserter_abs [(1, True), (2, False), (3, True), (4, False)]) =
     Ok ([] @ [dummy_response nid 1, set_request_id 2 ex_valkey, dummy_response nid 3], inserter_abs [(4, False)])"
  by (intro allI dummies_are_inserted_in_order) (simp_all add: set_request_id_def expects_def)

text \<open>
  C16: what a connection returns are the responses to the oldest outstanding requests, in order
  and behind what the caller's buffer already held; the others stay outstanding.
\<close>

theorem connection_is_fifo:
  assumes "sink_chan c ids" and "try_recv_into nid pre c = (COk rs, c')"
  shows "\<exists>new. rs = pre @ new \<and> length new \<le> length ids \<and>
    map request_id new = map Some (take (length new) ids) \<and> sink_chan c' (drop (length new) ids)"
  using assms by (rule sink_chan_recv)

definition ex_conn1 :: sink_connection where
  "ex_conn1 = \<lparr>in_rx = [], in_disconnected = False, out_tx = [from_frame 1 FDummy, from_frame 2 FDummy], out_disconnected = False,
     closed_rx = None, conn_error = None, inserter = inserter_abs [(1, True), (2, False)]\<rparr>"

theorem connection_is_fifo_witness:
  "\<forall>nid. \<exists>rs c'. try_recv_into nid [] ex_conn1 = (COk rs, c') \<and> map request_id rs = [Some 1] \<and> sink_chan c' [2]"
proof
  fix nid
  let ?c = "ex_conn1\<lparr>inserter := inserter_abs [(2, False)]\<rparr>"
  have c: "sink_chan ex_conn1 [1, 2]"
    by (auto simp: sink_chan_def ex_conn1_def arrived_ok_def from_frame_def from_frame_at_instant_def intro!: exI[of _ "[(1, True), (2, False)]"])
  have r: "try_recv_into nid [] ex_conn1 = (COk [dummy_response nid 1], ?c)"
    using process_responses_answer[of "[]" "[(1, True), (2, False)]" nid "[dummy_response nid 1]" "[(2, False)]" "[]"]
    by (simp add: try_recv_into_def ex_conn1_def expects_def)
  from connection_is_fifo[OF c r] r show "\<exists>rs c'. try_recv_into nid [] ex_conn1 = (COk rs, c') \<and> map request_id rs = [Some 1] \<and> sink_chan c' [2]"
    by auto
qed

end
