(* ===== verification/Kafka_Nodes.thy ===== *)
theory Kafka_Nodes
  imports Message
begin

text \<open>
  Nodes of the Kafka cluster and of the shotover cluster in front of it
  (\<^verbatim>\<open>src/shotover/src/transforms/kafka/sink_cluster/kafka_node.rs\<close>, \<^verbatim>\<open>shotover_node.rs\<close> and the node
  helpers of \<^verbatim>\<open>sink_cluster/mod.rs\<close>): addresses, up/down state, the controller cell, the choice
  of a random broker, the choice of the shotover node that stands for a broker, and the list
  of known brokers.

  The record \<open>kafka_env\<close> holds what comes from outside the program: the random number
  generator, the hash function, the iteration order of hash maps, the random message ids, the
  decoders, and the table of Kafka error codes.
\<close>

datatype response_error =
    UnknownTopicOrPartition | NotLeaderOrFollower | CoordinatorNotAvailable | NotCoordinator
  | UnsupportedSaslMechanism | NotController | OtherError int

record kafka_env =
  rng_choose :: "nat \<Rightarrow> nat \<Rightarrow> nat \<times> nat"
  map_order :: "int list \<Rightarrow> int list"
  name_order :: "string list \<Rightarrow> string list"
  try_from_code :: "int \<Rightarrow> response_error option"
  error_code_of :: "response_error \<Rightarrow> int"
  xxh3 :: "bytes \<Rightarrow> nat"
  debug_broker_id :: "int \<Rightarrow> string"
  api_key_name :: "int \<Rightarrow> string option"
  api_key_code :: "string \<Rightarrow> int"
  default_leader :: leader_id_and_epoch
  fresh_id :: "nat \<Rightarrow> message_id"
  env_dec :: decoders

text \<open>What is relied on: a choice among \<open>n\<close> is below \<open>n\<close>, a map is iterated once over each key, new ids do not repeat.\<close>

definition choose_ok :: "kafka_env \<Rightarrow> bool" where
  "choose_ok E \<longleftrightarrow> (\<forall>r n. 0 < n \<longrightarrow> fst (rng_choose E r n) < n)"

definition order_ok :: "kafka_env \<Rightarrow> bool" where
  "order_ok E \<longleftrightarrow> (\<forall>ks. mset (map_order E ks) = mset ks) \<and> (\<forall>ks. mset (name_order E ks) = mset ks)"

definition ids_ok :: "kafka_env \<Rightarrow> bool" where
  "ids_ok E \<longleftrightarrow> inj (fresh_id E)"

subsection \<open>Addresses\<close>

record kafka_address =
  host :: string
  port :: int

text \<open>\<^verbatim>\<open>str::split(':')\<close> yields at least one part.\<close>

fun split_on :: "char \<Rightarrow> string \<Rightarrow> string list" where
  "split_on c [] = [[]]"
| "split_on c (x # xs) = (if x = c then [] # split_on c xs
     else (case split_on c xs of p # ps \<Rightarrow> (x # p) # ps | [] \<Rightarrow> [[x]]))"

definition is_digit :: "char \<Rightarrow> bool" where
  "is_digit c \<longleftrightarrow> 48 \<le> (of_char c :: nat) \<and> (of_char c :: nat) \<le> 57"

definition digits_value :: "string \<Rightarrow> int" where
  "digits_value s = foldl (\<lambda>n c. 10 * n + int (of_char c - 48)) 0 s"

text \<open>\<^verbatim>\<open>str::parse::<i32>\<close>: an optional sign, at least one digit, no overflow.\<close>

definition in_i32 :: "int \<Rightarrow> bool" where
  "in_i32 i \<longleftrightarrow> - (2 ^ 31) \<le> i \<and> i < 2 ^ 31"

definition parse_digits :: "string \<Rightarrow> int option" where
  "parse_digits s = (if s \<noteq> [] \<and> list_all is_digit s then Some (digits_value s) else None)"

definition parse_i32 :: "string \<Rightarrow> int option" where
  "parse_i32 s = (case (case s of
       [] \<Rightarrow> None
     | c # cs \<Rightarrow> if c = CHR ''-'' then map_option uminus (parse_digits cs)
                else if c = CHR ''+'' then parse_digits cs
                else parse_digits s) of
     None \<Rightarrow> None
   | Some i \<Rightarrow> if in_i32 i then Some i else None)"

definition address_from_str :: "string \<Rightarrow> kafka_address result" where
  "address_from_str a = (case split_on CHR '':'' a of
     [] \<Rightarrow> Inl (Err ''Address must include : seperator'')
   | [h] \<Rightarrow> Inl (Err ''Address must include port after :'')
   | h # p # _ \<Rightarrow> (case parse_i32 p of
        None \<Rightarrow> Inl (Err ''Failed to parse address port as integer'')
      | Some i \<Rightarrow> Ok \<lparr>host = h, port = i\<rparr>))"

text \<open>\<^verbatim>\<open>Display\<close> for an integer and for an address.\<close>

fun show_digits :: "nat \<Rightarrow> string" where
  "show_digits n = (if n < 10 then [char_of (48 + n)] else show_digits (n div 10) @ [char_of (48 + n mod 10)])"

declare show_digits.simps [simp del]

definition show_int :: "int \<Rightarrow> string" where
  "show_int i = (if i < 0 then CHR ''-'' # show_digits (nat (- i)) else show_digits (nat i))"

definition address_display :: "kafka_address \<Rightarrow> string" where
  "address_display a = host a @ '':'' @ show_int (port a)"

lemma split_on_absent: "c \<notin> set xs \<Longrightarrow> split_on c (xs @ c # ys) = xs # split_on c ys"
  by (induction xs) auto

lemma split_on_single: "c \<notin> set xs \<Longrightarrow> split_on c xs = [xs]"
  by (induction xs) auto

lemma split_on_neq_Nil [simp]: "split_on c xs \<noteq> []"
  by (induction xs) (auto split: list.splits)

lemma digit_char: "n < 10 \<Longrightarrow> (of_char (char_of (48 + n) :: char) :: nat) = 48 + n"
  by (simp add: of_char_of)

lemma show_digits_digits: "list_all is_digit (show_digits n) \<and> show_digits n \<noteq> []"
proof (induction n rule: show_digits.induct)
  case (1 n)
  have "is_digit (char_of (48 + m))" if "m < 10" for m :: nat
    using that by (simp add: is_digit_def digit_char)
  with 1 show ?case by (simp add: show_digits.simps[of n])
qed

lemma digits_value_show: "digits_value (show_digits n) = int n"
proof (induction n rule: show_digits.induct)
  case (1 n)
  have "int (n div 10) * 10 + int (n mod 10) = int n"
    by (metis div_mult_mod_eq of_nat_add of_nat_mult of_nat_numeral)
  with 1 show ?case
    by (subst show_digits.simps) (auto simp: digits_value_def digit_char)
qed

lemma is_digit_facts: "is_digit c \<Longrightarrow> c \<noteq> CHR ''-'' \<and> c \<noteq> CHR ''+'' \<and> c \<noteq> CHR '':''"
  by (auto simp: is_digit_def)

lemma parse_show_int: "in_i32 i \<Longrightarrow> parse_i32 (show_int i) = Some i"
proof (cases "i < 0")
  case True
  assume "in_i32 i"
  with True show ?thesis
    by (simp add: parse_i32_def show_int_def parse_digits_def show_digits_digits digits_value_show)
next
  case False
  assume i: "in_i32 i"
  obtain c cs where d: "show_digits (nat i) = c # cs"
    using show_digits_digits by (meson neq_Nil_conv)
  have "is_digit c" using show_digits_digits[of "nat i"] d by simp
  then have c: "c \<noteq> CHR ''-''" "c \<noteq> CHR ''+''" using is_digit_facts by blast+
  have "parse_digits (c # cs) = Some i"
    using show_digits_digits[of "nat i"] digits_value_show[of "nat i"] False d
    by (simp add: parse_digits_def)
  then show ?thesis using False d c i by (simp add: parse_i32_def show_int_def)
qed

lemma show_int_no_colon: "CHR '':'' \<notin> set (show_int i)"
proof -
  have "CHR '':'' \<notin> set (show_digits n)" for n
    using show_digits_digits[of n] is_digit_facts by (auto simp: list_all_iff)
  then show ?thesis by (simp add: show_int_def)
qed

subsection \<open>Broker nodes and the controller cell\<close>

datatype node_state = Up | Down

record kafka_node =
  kn_broker_id :: int
  kn_rack :: "string option"
  kn_address :: kafka_address
  kn_state :: node_state

definition kafka_node_new :: "int \<Rightarrow> kafka_address \<Rightarrow> string option \<Rightarrow> kafka_node" where
  "kafka_node_new b a r = \<lparr>kn_broker_id = b, kn_rack = r, kn_address = a, kn_state = Up\<rparr>"

definition kn_is_up :: "kafka_node \<Rightarrow> bool" where
  "kn_is_up n \<longleftrightarrow> kn_state n = Up"

text \<open>\<^verbatim>\<open>AtomicBrokerId\<close>: an \<^verbatim>\<open>i64\<close> whose maximum stands for "not set".\<close>

definition i64_max :: int where
  "i64_max = 2 ^ 63 - 1"

definition as_i32 :: "int \<Rightarrow> int" where
  "as_i32 x = (x + 2 ^ 31) mod 2 ^ 32 - 2 ^ 31"

definition abi_new :: int where
  "abi_new = i64_max"

definition abi_set :: "int \<Rightarrow> int \<Rightarrow> int" where
  "abi_set v cell = (if v \<noteq> - 1 then v else cell)"

definition abi_clear :: "int \<Rightarrow> int" where
  "abi_clear cell = i64_max"

definition abi_get :: "int \<Rightarrow> int option" where
  "abi_get cell = (if cell = i64_max then None else Some (as_i32 cell))"

lemma as_i32_id: "in_i32 x \<Longrightarrow> as_i32 x = x"
  by (simp add: as_i32_def in_i32_def)

lemma abi_get_set: "in_i32 v \<Longrightarrow> v \<noteq> - 1 \<Longrightarrow> abi_get (abi_set v cell) = Some v"
  by (auto simp: abi_get_def abi_set_def i64_max_def as_i32_id in_i32_def)

lemma abi_get_unset [simp]: "abi_get abi_new = None" "abi_get (abi_clear cell) = None"
  by (simp_all add: abi_get_def abi_new_def abi_clear_def)

subsection \<open>Choosing a broker\<close>

text \<open>\<^verbatim>\<open>IteratorRandom::choose\<close> of the \<^verbatim>\<open>rand\<close> crate over the candidates.\<close>

definition pick :: "kafka_env \<Rightarrow> nat \<Rightarrow> 'a list \<Rightarrow> 'a option \<times> nat" where
  "pick E rng xs = (if xs = [] then (None, rng)
     else let (i, rng') = rng_choose E rng (length xs) in (get xs i, rng'))"

definition random_broker_id_in_any_rack :: "kafka_env \<Rightarrow> nat \<Rightarrow> kafka_node list \<Rightarrow> int result \<times> nat" where
  "random_broker_id_in_any_rack E rng nodes =
    (case pick E rng (filter kn_is_up nodes) of
       (Some b, rng') \<Rightarrow> (Ok (kn_broker_id b), rng')
     | (None, rng') \<Rightarrow> (case pick E rng' nodes of
          (Some b, rng'') \<Rightarrow> (Ok (kn_broker_id b), rng'')
        | (None, rng'') \<Rightarrow> (Inl (Panic ''called Option::unwrap() on a None value''), rng'')))"

definition random_broker_id :: "kafka_env \<Rightarrow> nat \<Rightarrow> kafka_node list \<Rightarrow> string \<Rightarrow> int result \<times> nat" where
  "random_broker_id E rng nodes rack =
    (case pick E rng (filter (\<lambda>n. kn_rack n = Some rack \<and> kn_is_up n) nodes) of
       (Some b, rng') \<Rightarrow> (Ok (kn_broker_id b), rng')
     | (None, rng') \<Rightarrow> random_broker_id_in_any_rack E rng' nodes)"

lemma pick_Some:
  "choose_ok E \<Longrightarrow> xs \<noteq> [] \<Longrightarrow> \<exists>x rng'. pick E rng xs = (Some x, rng') \<and> x \<in> set xs"
  by (auto simp: pick_def choose_ok_def get_def split: prod.splits)
    (metis fst_conv length_greater_0_conv)+

lemma pick_None [simp]: "pick E rng [] = (None, rng)"
  by (simp add: pick_def)

text \<open>The preference order of the documentation: up in the rack, then up anywhere, then any.\<close>

definition preferred_brokers :: "kafka_node list \<Rightarrow> string \<Rightarrow> kafka_node list" where
  "preferred_brokers nodes rack =
    (if filter (\<lambda>n. kn_rack n = Some rack \<and> kn_is_up n) nodes \<noteq> []
       then filter (\<lambda>n. kn_rack n = Some rack \<and> kn_is_up n) nodes
     else if filter kn_is_up nodes \<noteq> [] then filter kn_is_up nodes else nodes)"

lemma random_broker_id_preferred:
  assumes "choose_ok E" and "nodes \<noteq> []"
  shows "\<exists>n \<in> set (preferred_brokers nodes rack). fst (random_broker_id E rng nodes rack) = Ok (kn_broker_id n)"
proof (cases "filter (\<lambda>n. kn_rack n = Some rack \<and> kn_is_up n) nodes = []")
  case False
  with pick_Some[OF assms(1) False, of rng] show ?thesis
    by (auto simp: random_broker_id_def preferred_brokers_def)
next
  case no_rack: True
  show ?thesis
  proof (cases "filter kn_is_up nodes = []")
    case False
    with no_rack pick_Some[OF assms(1) False, of rng] show ?thesis
      by (auto simp: random_broker_id_def random_broker_id_in_any_rack_def preferred_brokers_def)
  next
    case True
    with no_rack pick_Some[OF assms(1,2), of rng] show ?thesis
      by (auto simp: random_broker_id_def random_broker_id_in_any_rack_def preferred_brokers_def)
  qed
qed

lemma preferred_brokers_subset: "set (preferred_brokers nodes rack) \<subseteq> set nodes"
  by (auto simp: preferred_brokers_def)

subsection \<open>Shotover nodes\<close>

record shotover_node =
  sn_address_for_clients :: kafka_address
  sn_address_for_peers :: kafka_address
  sn_rack :: string
  sn_broker_id :: int
  sn_state :: node_state

record shotover_node_config =
  snc_address_for_clients :: string
  snc_address_for_peers :: string
  snc_rack :: string
  snc_broker_id :: int

definition shotover_node_build :: "shotover_node_config \<Rightarrow> shotover_node result" where
  "shotover_node_build c =
    bind_result (address_from_str (snc_address_for_clients c)) (\<lambda>a.
    bind_result (address_from_str (snc_address_for_peers c)) (\<lambda>p.
    Ok \<lparr>sn_address_for_clients = a, sn_address_for_peers = p, sn_rack = snc_rack c,
        sn_broker_id = snc_broker_id c, sn_state = Up\<rparr>))"

definition sn_is_up :: "shotover_node \<Rightarrow> bool" where
  "sn_is_up n \<longleftrightarrow> sn_state n = Up"

record shotover_nodes_by_rack =
  nodes_in_rack :: "shotover_node list"
  nodes_out_of_rack :: "shotover_node list"

definition partition_shotover_nodes_by_rack ::
  "shotover_node list \<Rightarrow> string option \<Rightarrow> shotover_nodes_by_rack" where
  "partition_shotover_nodes_by_rack nodes rack =
    (let p = (\<lambda>n. case rack of Some r \<Rightarrow> r = sn_rack n | None \<Rightarrow> True) in
     \<lparr>nodes_in_rack = filter p nodes, nodes_out_of_rack = filter (\<lambda>n. \<not> p n) nodes\<rparr>)"

definition rack_or_all :: "shotover_nodes_by_rack \<Rightarrow> shotover_node list" where
  "rack_or_all g = (if nodes_in_rack g \<noteq> [] then nodes_in_rack g else nodes_out_of_rack g)"

text \<open>\<^verbatim>\<open>hash % nodes.len()\<close> panics on an empty list, as does the \<^verbatim>\<open>expect\<close> after it.\<close>

definition select_shotover_node_by_hash :: "shotover_nodes_by_rack \<Rightarrow> nat \<Rightarrow> shotover_node result" where
  "select_shotover_node_by_hash g h = (let nodes = rack_or_all g in
     if nodes = [] then Inl (Panic ''attempt to calculate the remainder with a divisor of zero'')
     else Ok (nodes ! (h mod length nodes)))"

definition collect_broker_ids :: "shotover_nodes_by_rack \<Rightarrow> int list" where
  "collect_broker_ids g = map sn_broker_id (rack_or_all g)"

lemma set_rack_or_all:
  "nodes \<noteq> [] \<Longrightarrow> rack_or_all (partition_shotover_nodes_by_rack nodes r) \<noteq> []"
  "set (rack_or_all (partition_shotover_nodes_by_rack nodes r)) \<subseteq> set nodes"
  by (auto simp: rack_or_all_def partition_shotover_nodes_by_rack_def Let_def filter_empty_conv
      split: option.splits if_splits)

lemma rack_or_all_in_rack:
  assumes "n \<in> set nodes" and "sn_rack n = r" and "m \<in> set (rack_or_all (partition_shotover_nodes_by_rack nodes (Some r)))"
  shows "sn_rack m = r"
  using assms by (auto simp: rack_or_all_def partition_shotover_nodes_by_rack_def Let_def filter_empty_conv
      split: if_splits)

lemma select_shotover_node_ok:
  assumes "nodes \<noteq> []"
  shows "\<exists>n \<in> set (rack_or_all (partition_shotover_nodes_by_rack nodes r)).
           select_shotover_node_by_hash (partition_shotover_nodes_by_rack nodes r) h = Ok n"
  using set_rack_or_all(1)[OF assms, of r]
  by (auto simp: select_shotover_node_by_hash_def Let_def)

subsection \<open>Hashing\<close>

definition be_bytes :: "nat \<Rightarrow> int \<Rightarrow> bytes" where
  "be_bytes n x = map (\<lambda>i. word_of_int (x div 256 ^ (n - 1 - i))) [0..<n]"

definition hash_partition :: "kafka_env \<Rightarrow> uuid \<Rightarrow> int \<Rightarrow> nat" where
  "hash_partition E u i = xxh3 E (be_bytes 16 (int u) @ be_bytes 4 i)"

definition hash_str_bytes :: "kafka_env \<Rightarrow> string \<Rightarrow> nat" where
  "hash_str_bytes E s = xxh3 E (bytes_of_string s)"

subsection \<open>The list of known brokers\<close>

text \<open>
  \<^verbatim>\<open>add_node_if_new\<close> under the write lock: the two checks of the code collapse into one because
  only the second one decides.  \<^verbatim>\<open>sort_by_key\<close> is stable.
\<close>

definition add_node_if_new :: "kafka_node \<Rightarrow> kafka_node list \<Rightarrow> kafka_node list" where
  "add_node_if_new n shared =
    (if list_all (\<lambda>m. kn_broker_id m \<noteq> kn_broker_id n) shared
     then sort_key kn_broker_id (shared @ [n]) else shared)"

definition broker_within_rack :: "kafka_node list \<Rightarrow> string \<Rightarrow> int \<Rightarrow> bool" where
  "broker_within_rack nodes rack b =
    list_ex (\<lambda>n. kn_broker_id n = b \<and> (case kn_rack n of Some r \<Rightarrow> r = rack | None \<Rightarrow> False)) nodes"

definition nodes_ok :: "kafka_node list \<Rightarrow> bool" where
  "nodes_ok nodes \<longleftrightarrow> sorted (map kn_broker_id nodes) \<and> distinct (map kn_broker_id nodes)"

lemma distinct_map_sort_key: "distinct (map f (sort_key g xs)) = distinct (map f xs)"
proof -
  have "mset (map f (sort_key g xs)) = mset (map f xs)" by simp
  then show ?thesis by (metis mset_eq_imp_distinct_iff)
qed

lemma add_node_if_new_ok: "nodes_ok nodes \<Longrightarrow> nodes_ok (add_node_if_new n nodes)"
  by (auto simp: nodes_ok_def add_node_if_new_def distinct_map_sort_key list_all_iff)

lemma add_node_if_new_ids:
  "kn_broker_id ` set (add_node_if_new n nodes) = insert (kn_broker_id n) (kn_broker_id ` set nodes)"
  by (auto simp: add_node_if_new_def list_all_iff image_iff) metis

lemma add_node_if_new_keeps: "m \<in> set nodes \<Longrightarrow> m \<in> set (add_node_if_new n nodes)"
  by (simp add: add_node_if_new_def)

definition set_node_state :: "(kafka_node \<Rightarrow> bool) \<Rightarrow> node_state \<Rightarrow> kafka_node list \<Rightarrow> kafka_node list" where
  "set_node_state p st nodes = map (\<lambda>n. if p n then n\<lparr>kn_state := st\<rparr> else n) nodes"

end
