(* ===== verification/Kafka_Connections.thy ===== *)
theory Kafka_Connections
  imports Kafka_Nodes Connection
begin

text \<open>
  The outgoing connections of the Kafka sink
  (\<^verbatim>\<open>src/shotover/src/transforms/kafka/sink_cluster/connections.rs\<close> and
  \<^verbatim>\<open>scram_over_mtls/connection.rs\<close>): one connection per destination, created on demand, replaced
  when it failed or when its delegation token is about to expire.

  Opening a connection and authenticating on it is the parameter \<open>net\<close>; instants and timeouts
  are natural numbers.
\<close>

datatype destination = Id int | ControlConnection

subsection \<open>Connections that outlive their token\<close>

record scram_connection =
  sc_connection :: sink_connection
  sc_old_connection :: "sink_connection option"
  sc_created_at :: nat
  sc_timeout :: nat

definition into_old_connection :: "scram_connection \<Rightarrow> sink_connection option result" where
  "into_old_connection s =
    (if sc_old_connection s \<noteq> None then Inl (Err ''The connection to be replaced had an old_connection'')
     else Ok (if conn_pending_requests_count (sc_connection s) = 0 then None else Some (sc_connection s)))"

definition scram_new :: "nat \<Rightarrow> nat \<Rightarrow> sink_connection \<Rightarrow> scram_connection option \<Rightarrow> scram_connection result" where
  "scram_new now timeout c old =
    bind_result (case old of None \<Rightarrow> Ok None | Some o1 \<Rightarrow> into_old_connection o1) (\<lambda>old1.
    Ok \<lparr>sc_connection = c, sc_old_connection = old1, sc_created_at = now, sc_timeout = timeout\<rparr>)"

definition scram_send :: "decoders \<Rightarrow> message list \<Rightarrow> scram_connection \<Rightarrow> unit conn_result \<times> scram_connection" where
  "scram_send D ms s = (case conn_send D ms (sc_connection s) of (r, c) \<Rightarrow> (r, s\<lparr>sc_connection := c\<rparr>))"

definition scram_try_recv_into ::
  "(message_id \<Rightarrow> message_id) \<Rightarrow> message list \<Rightarrow> scram_connection \<Rightarrow> message list conn_result \<times> scram_connection" where
  "scram_try_recv_into nid responses s = (case sc_old_connection s of
     Some old \<Rightarrow> (case try_recv_into nid responses old of
         (COk rs, old') \<Rightarrow>
           (if conn_pending_requests_count old' = 0
            then (case try_recv_into nid rs (sc_connection s) of
                (r, c) \<Rightarrow> (r, s\<lparr>sc_old_connection := None, sc_connection := c\<rparr>))
            else (COk rs, s\<lparr>sc_old_connection := Some old'\<rparr>))
       | (r, old') \<Rightarrow> (r, s\<lparr>sc_old_connection := Some old'\<rparr>))
   | None \<Rightarrow> (case try_recv_into nid responses (sc_connection s) of (r, c) \<Rightarrow> (r, s\<lparr>sc_connection := c\<rparr>)))"

definition scram_pending_requests_count :: "scram_connection \<Rightarrow> nat" where
  "scram_pending_requests_count s = conn_pending_requests_count (sc_connection s) +
    (case sc_old_connection s of Some old \<Rightarrow> conn_pending_requests_count old | None \<Rightarrow> 0)"

definition scram_chan :: "scram_connection \<Rightarrow> message_id list \<Rightarrow> bool" where
  "scram_chan s ids \<longleftrightarrow> (case sc_old_connection s of
     None \<Rightarrow> sink_chan (sc_connection s) ids
   | Some old \<Rightarrow> (\<exists>a b. ids = a @ b \<and> a \<noteq> [] \<and> sink_chan old a \<and> sink_chan (sc_connection s) b))"

lemma scram_chan_send:
  assumes "scram_chan s ids" and "scram_send D ms s = (COk (), s')"
  shows "scram_chan s' (ids @ map id ms)"
proof -
  obtain c where c: "conn_send D ms (sc_connection s) = (COk (), c)" and s': "s' = s\<lparr>sc_connection := c\<rparr>"
    using assms(2) by (auto simp: scram_send_def split: prod.splits)
  show ?thesis
  proof (cases "sc_old_connection s")
    case None
    then show ?thesis using assms(1) s' sink_chan_send[OF _ c] by (simp add: scram_chan_def)
  next
    case (Some old)
    then obtain a b where "ids = a @ b" "a \<noteq> []" "sink_chan old a" "sink_chan (sc_connection s) b"
      using assms(1) by (auto simp: scram_chan_def)
    then have "ids @ map id ms = a @ (b @ map id ms) \<and> a \<noteq> [] \<and> sink_chan old a \<and> sink_chan c (b @ map id ms)"
      using sink_chan_send[OF _ c] by simp
    then show ?thesis using Some s' by (simp add: scram_chan_def) blast
  qed
qed

text \<open>Responses of the old connection are delivered before any of the new one.\<close>

lemma scram_chan_recv:
  assumes "scram_chan s ids" and r: "scram_try_recv_into nid pre s = (COk rs, s')"
  shows "\<exists>new. rs = pre @ new \<and> length new \<le> length ids
        \<and> map request_id new = map Some (take (length new) ids) \<and> scram_chan s' (drop (length new) ids)"
proof (cases "sc_old_connection s")
  case None
  obtain c where c: "try_recv_into nid pre (sc_connection s) = (COk rs, c)" and s': "s' = s\<lparr>sc_connection := c\<rparr>"
    using r None by (auto simp: scram_try_recv_into_def split: prod.splits)
  show ?thesis using sink_chan_recv[OF _ c, of ids] assms(1) None s' by (auto simp: scram_chan_def)
next
  case (Some old)
  obtain a b where ab: "ids = a @ b" "sink_chan old a" "sink_chan (sc_connection s) b"
    using assms(1) Some by (auto simp: scram_chan_def)
  obtain rs1 old' where o: "try_recv_into nid pre old = (COk rs1, old')"
    using r Some by (auto simp: scram_try_recv_into_def split: prod.splits conn_result.splits)
  from sink_chan_recv[OF ab(2) o] obtain n1 where n1: "rs1 = pre @ n1" "length n1 \<le> length a"
    "map request_id n1 = map Some (take (length n1) a)" "sink_chan old' (drop (length n1) a)" by blast
  show ?thesis
  proof (cases "conn_pending_requests_count old' = 0")
    case True
    then have all: "length n1 = length a" using sink_chan_pending[OF n1(4)] n1(2) by simp
    obtain c where c: "try_recv_into nid rs1 (sc_connection s) = (COk rs, c)"
      and s': "s' = s\<lparr>sc_old_connection := None, sc_connection := c\<rparr>"
      using r Some o True by (auto simp: scram_try_recv_into_def split: prod.splits)
    from sink_chan_recv[OF ab(3) c] obtain n2 where n2: "rs = rs1 @ n2" "length n2 \<le> length b"
      "map request_id n2 = map Some (take (length n2) b)" "sink_chan c (drop (length n2) b)" by blast
    show ?thesis using n1 n2 all ab(1) s'
      by (intro exI[of _ "n1 @ n2"]) (auto simp: scram_chan_def)
  next
    case False
    then have "rs = rs1" and s': "s' = s\<lparr>sc_old_connection := Some old'\<rparr>"
      using r Some o by (auto simp: scram_try_recv_into_def)
    moreover have "drop (length n1) a \<noteq> []" using False sink_chan_pending[OF n1(4)] by auto
    then have "scram_chan (s\<lparr>sc_old_connection := Some old'\<rparr>) (drop (length n1) a @ b)"
      unfolding scram_chan_def using n1(4) ab(3) by fastforce
    ultimately show ?thesis using n1 ab by (intro exI[of _ n1]) auto
  qed
qed

lemma scram_chan_pending: "scram_chan s ids \<Longrightarrow> scram_pending_requests_count s = length ids"
  using sink_chan_pending
  by (fastforce simp: scram_chan_def scram_pending_requests_count_def split: option.splits)

interpretation scram: fifo_connection scram_chan "scram_send D" "scram_try_recv_into nid" scram_pending_requests_count for D nid
  by unfold_locales (use scram_chan_send scram_chan_recv scram_chan_pending in blast)+

subsection \<open>Either kind of connection\<close>

datatype kafka_connection = Regular sink_connection | ScramOverMtls scram_connection

datatype connection_state = Open | Unopened | AtRiskOfAuthTokenExpiry

definition sasl_scram_mechanisms :: "string list" where
  "sasl_scram_mechanisms = [''SCRAM-SHA-256'', ''SCRAM-SHA-512'']"

text \<open>The option is the timeout derived from the token lifetime when SCRAM over mTLS is configured.\<close>

definition kafka_connection_new ::
  "nat \<Rightarrow> nat option \<Rightarrow> string option \<Rightarrow> sink_connection \<Rightarrow> kafka_connection option \<Rightarrow> kafka_connection result" where
  "kafka_connection_new now scram mechanism c old =
    (case scram of
       Some timeout \<Rightarrow>
         if (case mechanism of Some m \<Rightarrow> m \<in> set sasl_scram_mechanisms | None \<Rightarrow> False)
         then (case old of
             Some (Regular _) \<Rightarrow> Inl (Panic ''Cannot replace a Regular connection with ScramOverMtlsConnection'')
           | Some (ScramOverMtls s) \<Rightarrow> bind_result (scram_new now timeout c (Some s)) (\<lambda>x. Ok (ScramOverMtls x))
           | None \<Rightarrow> bind_result (scram_new now timeout c None) (\<lambda>x. Ok (ScramOverMtls x)))
         else Ok (Regular c)
     | None \<Rightarrow> Ok (Regular c))"

definition kc_try_recv_into ::
  "(message_id \<Rightarrow> message_id) \<Rightarrow> message list \<Rightarrow> kafka_connection \<Rightarrow> message list conn_result \<times> kafka_connection" where
  "kc_try_recv_into nid responses k = (case k of
     Regular c \<Rightarrow> (case try_recv_into nid responses c of (r, c') \<Rightarrow> (r, Regular c'))
   | ScramOverMtls s \<Rightarrow> (case scram_try_recv_into nid responses s of (r, s') \<Rightarrow> (r, ScramOverMtls s')))"

definition kc_send :: "decoders \<Rightarrow> message list \<Rightarrow> kafka_connection \<Rightarrow> unit conn_result \<times> kafka_connection" where
  "kc_send D ms k = (case k of
     Regular c \<Rightarrow> (case conn_send D ms c of (r, c') \<Rightarrow> (r, Regular c'))
   | ScramOverMtls s \<Rightarrow> (case scram_send D ms s of (r, s') \<Rightarrow> (r, ScramOverMtls s')))"

definition kc_get_error :: "kafka_connection \<Rightarrow> connection_error option \<times> kafka_connection" where
  "kc_get_error k = (case k of
     Regular c \<Rightarrow> (case get_error c of (e, c') \<Rightarrow> (e, Regular c'))
   | ScramOverMtls s \<Rightarrow> (case get_error (sc_connection s) of (e, c') \<Rightarrow> (e, ScramOverMtls (s\<lparr>sc_connection := c'\<rparr>))))"

definition kc_pending_requests_count :: "kafka_connection \<Rightarrow> nat" where
  "kc_pending_requests_count k = (case k of
     Regular c \<Rightarrow> conn_pending_requests_count c | ScramOverMtls s \<Rightarrow> scram_pending_requests_count s)"

definition kc_state :: "nat \<Rightarrow> kafka_connection \<Rightarrow> connection_state" where
  "kc_state now k = (case k of
     Regular _ \<Rightarrow> Open
   | ScramOverMtls s \<Rightarrow> if now - sc_created_at s > sc_timeout s then AtRiskOfAuthTokenExpiry else Open)"

definition kc_chan :: "kafka_connection \<Rightarrow> message_id list \<Rightarrow> bool" where
  "kc_chan k ids \<longleftrightarrow> (case k of Regular c \<Rightarrow> sink_chan c ids | ScramOverMtls s \<Rightarrow> scram_chan s ids)"

lemma kc_chan_send: "kc_chan k ids \<Longrightarrow> kc_send D ms k = (COk (), k') \<Longrightarrow> kc_chan k' (ids @ map id ms)"
  by (auto simp: kc_chan_def kc_send_def sink_chan_send scram_chan_send
      split: kafka_connection.splits prod.splits)

lemma kc_chan_recv:
  assumes "kc_chan k ids" and "kc_try_recv_into nid pre k = (COk rs, k')"
  shows "\<exists>new. rs = pre @ new \<and> length new \<le> length ids
        \<and> map request_id new = map Some (take (length new) ids) \<and> kc_chan k' (drop (length new) ids)"
proof (cases k)
  case (Regular c)
  then obtain c' where "try_recv_into nid pre c = (COk rs, c')" "k' = Regular c'"
    using assms(2) by (auto simp: kc_try_recv_into_def split: prod.splits)
  then show ?thesis using sink_chan_recv[of c ids nid pre rs c'] assms(1) Regular by (simp add: kc_chan_def)
next
  case (ScramOverMtls s)
  then obtain s' where "scram_try_recv_into nid pre s = (COk rs, s')" "k' = ScramOverMtls s'"
    using assms(2) by (auto simp: kc_try_recv_into_def split: prod.splits)
  then show ?thesis using scram_chan_recv[of s ids nid pre rs s'] assms(1) ScramOverMtls by (simp add: kc_chan_def)
qed

lemma kc_chan_pending: "kc_chan k ids \<Longrightarrow> kc_pending_requests_count k = length ids"
  by (auto simp: kc_chan_def kc_pending_requests_count_def sink_chan_pending scram_chan_pending
      split: kafka_connection.splits)

interpretation kconn: fifo_connection kc_chan "kc_send D" "kc_try_recv_into nid" kc_pending_requests_count for D nid
  by unfold_locales (use kc_chan_send kc_chan_recv kc_chan_pending in blast)+

lemma sink_chan_get_error [simp]: "sink_chan (snd (get_error c)) ids = sink_chan c ids"
  by (simp add: get_error_def sink_chan_def)

lemma kc_get_error_chan: "kc_chan (snd (kc_get_error k)) ids = kc_chan k ids"
proof (cases k)
  case (Regular c)
  then show ?thesis using sink_chan_get_error[of c ids]
    by (cases "get_error c") (simp add: kc_chan_def kc_get_error_def)
next
  case (ScramOverMtls s)
  have "sink_chan (snd (get_error (sc_connection s))) b = sink_chan (sc_connection s) b" for b by simp
  then show ?thesis using ScramOverMtls
    by (cases "get_error (sc_connection s)") (simp add: kc_chan_def kc_get_error_def scram_chan_def split: option.split)
qed

subsection \<open>The connections of one sink\<close>

record connections =
  conns :: "(destination \<times> kafka_connection) list"
  control_connection_address :: "kafka_address option"
  out_of_rack_requests :: nat

definition connections_new :: connections where
  "connections_new = \<lparr>conns = [], control_connection_address = None, out_of_rack_requests = 0\<rparr>"

record conn_config =
  cc_net :: "kafka_address \<Rightarrow> sink_connection result"
  cc_now :: nat
  cc_scram :: "nat option"
  cc_mechanism :: "string option"
  cc_contact_points :: "kafka_address list"
  cc_rack :: string

definition get_connection_state :: "nat \<Rightarrow> destination \<Rightarrow> connections \<Rightarrow> connection_state" where
  "get_connection_state now d cs = (case map_of (conns cs) d of Some k \<Rightarrow> kc_state now k | None \<Rightarrow> Unopened)"

text \<open>Where a new connection goes: a broker has its address, the control connection a random one.\<close>

definition choose_address ::
  "kafka_env \<Rightarrow> conn_config \<Rightarrow> kafka_node list \<Rightarrow> kafka_node option \<Rightarrow> connections \<Rightarrow> nat
     \<Rightarrow> kafka_address option \<times> connections \<times> nat" where
  "choose_address E C nodes node cs rng = (case node of
     Some n \<Rightarrow> (Some (kn_address n), cs, rng)
   | None \<Rightarrow> (case pick E rng (filter kn_is_up nodes) of
        (Some n, rng') \<Rightarrow> (Some (kn_address n), cs\<lparr>control_connection_address := Some (kn_address n)\<rparr>, rng')
      | (None, rng') \<Rightarrow> (case pick E rng' (cc_contact_points C) of
           (a, rng'') \<Rightarrow> (a, cs\<lparr>control_connection_address := a\<rparr>, rng''))))"

definition create_and_insert_connection ::
  "kafka_env \<Rightarrow> conn_config \<Rightarrow> kafka_node list \<Rightarrow> kafka_node option \<Rightarrow> kafka_connection option \<Rightarrow> destination
     \<Rightarrow> connections \<Rightarrow> nat \<Rightarrow> unit result \<times> connections \<times> nat" where
  "create_and_insert_connection E C nodes node old d cs rng =
    (case choose_address E C nodes node cs rng of
       (None, cs', rng') \<Rightarrow> (Inl (Panic ''called Option::unwrap() on a None value''), cs', rng')
     | (Some a, cs', rng') \<Rightarrow>
        (case cc_net C a of
           Inl e \<Rightarrow> (Inl e, cs', rng')
         | Inr c \<Rightarrow> (case kafka_connection_new (cc_now C) (cc_scram C) (cc_mechanism C) c old of
              Inl e \<Rightarrow> (Inl e, cs', rng')
            | Inr k \<Rightarrow> (Ok (), cs'\<lparr>conns := AList.update d k (conns cs')\<rparr>, rng'))))"

definition find_node :: "destination \<Rightarrow> kafka_node list \<Rightarrow> kafka_node option result" where
  "find_node d nodes = (case d of
     ControlConnection \<Rightarrow> Ok None
   | Id b \<Rightarrow> (case find (\<lambda>n. kn_broker_id n = b) nodes of
        Some n \<Rightarrow> Ok (Some n) | None \<Rightarrow> Inl (Panic ''called Option::unwrap() on a None value'')))"

definition count_out_of_rack :: "conn_config \<Rightarrow> kafka_node option \<Rightarrow> connections \<Rightarrow> connections" where
  "count_out_of_rack C node cs =
    (case node of
       Some n \<Rightarrow> (if (case kn_rack n of Some r \<Rightarrow> r \<noteq> cc_rack C | None \<Rightarrow> False)
                  then cs\<lparr>out_of_rack_requests := out_of_rack_requests cs + 1\<rparr> else cs)
     | None \<Rightarrow> cs)"

definition get_or_open_connection ::
  "kafka_env \<Rightarrow> conn_config \<Rightarrow> kafka_node list \<Rightarrow> destination \<Rightarrow> connections \<Rightarrow> nat \<Rightarrow> unit result \<times> connections \<times> nat" where
  "get_or_open_connection E C nodes d cs rng =
    (case find_node d nodes of
       Inl e \<Rightarrow> (Inl e, cs, rng)
     | Inr node \<Rightarrow>
        (let cs1 = count_out_of_rack C node cs in
         case get_connection_state (cc_now C) d cs1 of
           Open \<Rightarrow> (case map_of (conns cs1) d of
               None \<Rightarrow> (Inl (Panic ''called Option::unwrap() on a None value''), cs1, rng)
             | Some k \<Rightarrow> (case kc_get_error k of (err, k') \<Rightarrow>
                 (let cs2 = cs1\<lparr>conns := AList.update d k' (conns cs1)\<rparr> in
                  case err of
                    None \<Rightarrow> (Ok (), cs2, rng)
                  | Some _ \<Rightarrow> if kc_pending_requests_count k' > 0
                      then (Inl (Err ''get_or_open_connection: Outgoing connection had pending requests''), cs2, rng)
                      else create_and_insert_connection E C nodes node None d cs2 rng)))
         | Unopened \<Rightarrow> create_and_insert_connection E C nodes node None d cs1 rng
         | AtRiskOfAuthTokenExpiry \<Rightarrow>
             create_and_insert_connection E C nodes node (map_of (conns cs1) d) d
               (cs1\<lparr>conns := AList.delete d (conns cs1)\<rparr>) rng))"

definition node_at :: "destination \<Rightarrow> kafka_address option \<Rightarrow> kafka_node \<Rightarrow> bool" where
  "node_at d control n = (case d of Id b \<Rightarrow> kn_broker_id n = b | ControlConnection \<Rightarrow> Some (kn_address n) = control)"

text \<open>\<^verbatim>\<open>nodes.iter().find(..)\<close> followed by \<^verbatim>\<open>set_state\<close> changes the first match.\<close>

fun set_state_first :: "(kafka_node \<Rightarrow> bool) \<Rightarrow> node_state \<Rightarrow> kafka_node list \<Rightarrow> kafka_node list" where
  "set_state_first p st [] = []"
| "set_state_first p st (n # ns) = (if p n then n\<lparr>kn_state := st\<rparr> # ns else n # set_state_first p st ns)"

definition handle_connection_error ::
  "conn_config \<Rightarrow> kafka_node list \<Rightarrow> destination \<Rightarrow> err \<Rightarrow> connections \<Rightarrow> unit result \<times> kafka_node list \<times> connections" where
  "handle_connection_error C nodes d error cs =
    (let old = map_of (conns cs) d;
         cs1 = cs\<lparr>conns := AList.delete d (conns cs)\<rparr>;
         address = (case d of
             Id b \<Rightarrow> map_option kn_address (find (\<lambda>n. kn_broker_id n = b) nodes)
           | ControlConnection \<Rightarrow> control_connection_address cs)
     in case address of
          None \<Rightarrow> (Inl (Panic ''called Option::unwrap() on a None value''), nodes, cs1)
        | Some a \<Rightarrow>
           (let r = cc_net C a;
                nodes' = set_state_first (node_at d (control_connection_address cs))
                           (case r of Inl _ \<Rightarrow> Down | Inr _ \<Rightarrow> Up) nodes
            in if (case old of Some k \<Rightarrow> kc_pending_requests_count k | None \<Rightarrow> 0) > 0
               then (Inl error, nodes', cs1)
               else (case r of
                   Inl e \<Rightarrow> (Inl e, nodes', cs1)
                 | Inr c \<Rightarrow> (case kafka_connection_new (cc_now C) (cc_scram C) (cc_mechanism C) c None of
                      Inl e \<Rightarrow> (Inl e, nodes', cs1)
                    | Inr k \<Rightarrow> (Ok (), nodes', cs1\<lparr>conns := AList.update d k (conns cs1)\<rparr>)))))"

subsection \<open>No outstanding request is lost\<close>

text \<open>\<open>chans cs w\<close>: the outstanding requests of every destination are those of \<open>w\<close>; no connection means none.\<close>

definition chans :: "connections \<Rightarrow> (destination \<Rightarrow> message_id list) \<Rightarrow> bool" where
  "chans cs w \<longleftrightarrow> (\<forall>d. case map_of (conns cs) d of Some k \<Rightarrow> kc_chan k (w d) | None \<Rightarrow> w d = [])"

text \<open>What is relied on of a connection just opened: nothing is outstanding and nothing has arrived.\<close>

definition net_ok :: "(kafka_address \<Rightarrow> sink_connection result) \<Rightarrow> bool" where
  "net_ok net \<longleftrightarrow> (\<forall>a c. net a = Inr c \<longrightarrow> inserter c = inserter_new \<and> in_rx c = [])"

lemma sink_chan_fresh: "inserter c = inserter_new \<Longrightarrow> in_rx c = [] \<Longrightarrow> sink_chan c []"
  by (simp add: sink_chan_def inserter_abs_def inserter_new_def arrived_ok_def)

lemma kafka_connection_new_chan:
  assumes "sink_chan c []" and "kafka_connection_new now scram m c old = Inr k"
    and "case old of Some k0 \<Rightarrow> kc_chan k0 ids \<and> kc_state now k0 = AtRiskOfAuthTokenExpiry | None \<Rightarrow> ids = []"
    and "old \<noteq> None \<Longrightarrow> scram \<noteq> None \<and> (case m of Some m' \<Rightarrow> m' \<in> set sasl_scram_mechanisms | None \<Rightarrow> False)"
  shows "kc_chan k ids"
proof (cases old)
  case None
  then show ?thesis using assms
    by (auto simp: kafka_connection_new_def kc_chan_def scram_new_def scram_chan_def split: option.splits if_splits)
next
  case (Some k0)
  then obtain s where s: "k0 = ScramOverMtls s" using assms(3) by (cases k0) (auto simp: kc_state_def)
  have chan: "scram_chan s ids" using assms(3) Some s by (simp add: kc_chan_def)
  obtain x where x: "scram_new now (the scram) c (Some s) = Inr x" "k = ScramOverMtls x"
    using assms(2,4) Some s by (auto simp: kafka_connection_new_def bind_result_Inr_iff split: option.splits if_splits)
  show ?thesis
  proof (cases "conn_pending_requests_count (sc_connection s) = 0")
    case True
    then show ?thesis using x chan assms(1) sink_chan_pending[of "sc_connection s" ids]
      by (auto simp: scram_new_def into_old_connection_def bind_result_Inr_iff kc_chan_def scram_chan_def
          split: if_splits option.splits)
  next
    case False
    then have "x = \<lparr>sc_connection = c, sc_old_connection = Some (sc_connection s), sc_created_at = now, sc_timeout = the scram\<rparr>"
      and "sink_chan (sc_connection s) ids"
      using x chan by (auto simp: scram_new_def into_old_connection_def bind_result_Inr_iff scram_chan_def
          split: if_splits option.splits)
    moreover have "ids \<noteq> []" using False sink_chan_pending calculation(2) by fastforce
    ultimately show ?thesis using x(2) assms(1)
      by (simp add: kc_chan_def scram_chan_def) (metis append.right_neutral)
  qed
qed

text \<open>
  A SCRAM connection exists only while the sink is configured for SCRAM over mTLS and the
  client uses a SCRAM mechanism.
\<close>

definition uses_scram :: "conn_config \<Rightarrow> bool" where
  "uses_scram C \<longleftrightarrow> cc_scram C \<noteq> None \<and>
     (case cc_mechanism C of Some m \<Rightarrow> m \<in> set sasl_scram_mechanisms | None \<Rightarrow> False)"

definition scram_conns_ok :: "conn_config \<Rightarrow> connections \<Rightarrow> bool" where
  "scram_conns_ok C cs \<longleftrightarrow> (\<forall>d s. map_of (conns cs) d = Some (ScramOverMtls s) \<longrightarrow> uses_scram C)"

lemma chans_update:
  assumes "chans cs w" and "kc_chan k (w d)"
  shows "chans (cs\<lparr>conns := AList.update d k (conns cs)\<rparr>) w"
  using assms by (auto simp: chans_def update_conv' split: option.splits)

lemma choose_address_conns: "choose_address E C nodes node cs rng = (a, cs', rng') \<Longrightarrow> conns cs' = conns cs"
  by (auto simp: choose_address_def split: option.splits prod.splits)

lemma create_and_insert_chans:
  assumes "net_ok (cc_net C)"
    and "create_and_insert_connection E C nodes node old d cs rng = (Ok (), cs', rng')"
    and others: "\<And>e. e \<noteq> d \<Longrightarrow> case map_of (conns cs) e of Some k \<Rightarrow> kc_chan k (w e) | None \<Rightarrow> w e = []"
    and "case old of Some k0 \<Rightarrow> kc_chan k0 (w d) \<and> kc_state (cc_now C) k0 = AtRiskOfAuthTokenExpiry \<and> uses_scram C
                   | None \<Rightarrow> w d = []"
  shows "chans cs' w \<and> map_of (conns cs') d \<noteq> None"
proof -
  obtain a cs1 c k where n: "choose_address E C nodes node cs rng = (Some a, cs1, rng')" "cc_net C a = Inr c"
    "kafka_connection_new (cc_now C) (cc_scram C) (cc_mechanism C) c old = Inr k"
    "cs' = cs1\<lparr>conns := AList.update d k (conns cs1)\<rparr>"
    using assms(2) by (auto simp: create_and_insert_connection_def split: prod.splits option.splits sum.splits)
  have "sink_chan c []" using assms(1) n(2) sink_chan_fresh by (auto simp: net_ok_def)
  then have "kc_chan k (w d)"
    using kafka_connection_new_chan[OF _ n(3), of "w d"] assms(4)
    by (auto simp: uses_scram_def split: option.splits)
  then show ?thesis using others n(4) choose_address_conns[OF n(1)]
    by (auto simp: chans_def update_conv' split: option.splits)
qed

text \<open>
  Getting a connection, whether it exists, has to be opened, has failed or is about to expire,
  keeps the outstanding requests of every destination.
\<close>

lemma get_or_open_connection_chans:
  assumes "net_ok (cc_net C)" and "chans cs w" and "scram_conns_ok C cs"
    and ok: "get_or_open_connection E C nodes d cs rng = (Ok (), cs', rng')"
  shows "chans cs' w \<and> map_of (conns cs') d \<noteq> None"
proof -
  obtain node where node: "find_node d nodes = Inr node" using ok
    by (auto simp: get_or_open_connection_def split: sum.splits)
  define cs1 where "cs1 = count_out_of_rack C node cs"
  have conns1: "conns cs1 = conns cs" by (simp add: cs1_def count_out_of_rack_def split: option.split)
  have cw: "case map_of (conns cs) e of Some k \<Rightarrow> kc_chan k (w e) | None \<Rightarrow> w e = []" for e
    using assms(2) by (auto simp: chans_def split: option.splits)
  show ?thesis
  proof (cases "get_connection_state (cc_now C) d cs1")
    case Open
    then obtain k where k: "map_of (conns cs) d = Some k"
      by (auto simp: get_connection_state_def conns1 split: option.splits)
    obtain err k' where e: "kc_get_error k = (err, k')" by fastforce
    have k': "kc_chan k' (w d)" using cw[of d] k kc_get_error_chan[of k "w d"] e by simp
    define cs2 where "cs2 = cs1\<lparr>conns := AList.update d k' (conns cs1)\<rparr>"
    have c2: "chans cs2 w" using chans_update[of cs1 w k' d] assms(2) k' conns1 by (simp add: cs2_def chans_def)
    show ?thesis
    proof (cases err)
      case None
      then show ?thesis using ok node Open k e c2
        by (auto simp: get_or_open_connection_def conns1 cs2_def update_conv' simp flip: cs1_def)
    next
      case (Some x)
      then have p: "kc_pending_requests_count k' = 0"
        and c: "create_and_insert_connection E C nodes node None d cs2 rng = (Ok (), cs', rng')"
        using ok node Open k e by (auto simp: get_or_open_connection_def conns1 cs2_def Let_def simp flip: cs1_def split: if_splits)
      show ?thesis
        using create_and_insert_chans[OF assms(1) c, of w] c2 kc_chan_pending[OF k'] p by (auto simp: chans_def)
    qed
  next
    case Unopened
    then have n: "map_of (conns cs) d = None"
      by (auto simp: get_connection_state_def conns1 kc_state_def split: option.splits kafka_connection.splits if_splits)
    have "create_and_insert_connection E C nodes node None d cs1 rng = (Ok (), cs', rng')"
      using ok node Unopened by (simp add: get_or_open_connection_def flip: cs1_def)
    then show ?thesis using create_and_insert_chans[OF assms(1), of E nodes node None d cs1 rng cs' rng' w] n cw[of d] cw conns1
      by simp
  next
    case AtRiskOfAuthTokenExpiry
    then obtain k where k: "map_of (conns cs) d = Some k" "kc_state (cc_now C) k = AtRiskOfAuthTokenExpiry"
      by (auto simp: get_connection_state_def conns1 split: option.splits)
    then obtain s where "k = ScramOverMtls s" by (cases k) (auto simp: kc_state_def)
    then have u: "uses_scram C" using assms(3) k(1) by (auto simp: scram_conns_ok_def)
    have "create_and_insert_connection E C nodes node (Some k) d (cs1\<lparr>conns := AList.delete d (conns cs1)\<rparr>) rng = (Ok (), cs', rng')"
      using ok node AtRiskOfAuthTokenExpiry k by (simp add: get_or_open_connection_def conns1 flip: cs1_def)
    from create_and_insert_chans[OF assms(1) this, of w] show ?thesis
      using cw cw[of d] k u by (simp add: conns1 delete_conv')
  qed
qed

text \<open>After a connection error, success means that nothing was outstanding there.\<close>

lemma handle_connection_error_chans:
  assumes "net_ok (cc_net C)" and "chans cs w"
    and ok: "handle_connection_error C nodes d error cs = (Ok (), nodes', cs')"
  shows "w d = [] \<and> chans cs' w"
proof -
  obtain a c k where n: "cc_net C a = Inr c"
    "kafka_connection_new (cc_now C) (cc_scram C) (cc_mechanism C) c None = Inr k"
    "cs' = cs\<lparr>conns := AList.update d k (AList.delete d (conns cs))\<rparr>"
    and p: "(case map_of (conns cs) d of Some k \<Rightarrow> kc_pending_requests_count k | None \<Rightarrow> 0) = 0"
    using ok by (auto simp: handle_connection_error_def Let_def split: option.splits if_splits sum.splits)
  have w: "w d = []"
  proof (cases "map_of (conns cs) d")
    case None
    then show ?thesis using assms(2) by (auto simp: chans_def dest: spec[of _ d])
  next
    case (Some k0)
    then have "kc_chan k0 (w d)" using assms(2) by (auto simp: chans_def dest: spec[of _ d])
    then show ?thesis using p Some kc_chan_pending by fastforce
  qed
  have "sink_chan c []" using assms(1) n(1) sink_chan_fresh by (auto simp: net_ok_def)
  then have "kc_chan k []" using kafka_connection_new_chan[OF _ n(2), of "[]"] by simp
  then show ?thesis using w n(3) assms(2)
    by (auto simp: chans_def update_conv' delete_conv' split: option.splits)
qed

end
