(* ===== verification/Kafka_State.thy ===== *)
theory Kafka_State
  imports Kafka_Connections
begin

text \<open>
  The state of the Kafka cluster sink (\<^verbatim>\<open>KafkaSinkCluster\<close> in
  \<^verbatim>\<open>src/shotover/src/transforms/kafka/sink_cluster/mod.rs\<close>): metadata learned from the cluster, the
  queue of pending requests and the connections.  The maps shared between sinks
  (\<^verbatim>\<open>Arc<DashMap<..>>\<close>) and the shared list of nodes are fields of the sink that uses them; what
  other sinks do to them happens between its steps.
\<close>

record partition =
  pt_index :: int
  pt_leader_epoch :: int
  pt_leader_id :: int
  pt_shotover_rack_replica_nodes :: "int list"
  pt_external_rack_replica_nodes :: "int list"

type_synonym topic = "partition list"

datatype pending_request_state =
    Routed message
  | Sent nat "message option"
  | Received message "message option"

datatype pending_request_ty =
    PFetch nat int int
  | PFindCoordinator string int
  | RoutedToGroup string
  | RoutedToTransaction string
  | POther

record pending_request =
  pstate :: pending_request_state
  pdestination :: destination
  pty :: pending_request_ty
  pcombine :: nat

datatype original_scram_state = WaitingOnServerFirst | WaitingOnServerFinal | AuthFailed | AuthSuccess

record authorize_scram =
  original_scram_state :: original_scram_state
  scram_username :: string
  scram_timeout :: nat

record sink =
  first_contact_points :: "kafka_address list"
  shotover_nodes :: "shotover_node list"
  rack :: string
  broker_id :: int
  nodes :: "kafka_node list"
  nodes_shared :: "kafka_node list"
  controller_broker :: int
  group_to_coordinator_broker :: "string \<rightharpoonup> int"
  transaction_to_coordinator_broker :: "string \<rightharpoonup> int"
  topic_by_name :: "string \<rightharpoonup> topic"
  topic_by_id :: "uuid \<rightharpoonup> topic"
  rng :: nat
  id_counter :: nat
  auth_complete :: bool
  auth_requests :: "message list"
  pending_requests :: "pending_request list"
  sasl_mechanism :: "string option"
  authorize_scram_over_mtls :: "authorize_scram option"
  sink_connections :: connections
  refetch_backoff :: nat

text \<open>The iteration of a local hash map visits its entries in the map's own order.\<close>

definition hash_iter :: "('k list \<Rightarrow> 'k list) \<Rightarrow> ('k \<times> 'v) list \<Rightarrow> ('k \<times> 'v) list" where
  "hash_iter ord m = map (\<lambda>k. (k, the (map_of m k))) (ord (map fst m))"

lemma mset_hash_iter [hashmap]:
  assumes "mset (ord (map fst m)) = mset (map fst m)" and "distinct (map fst m)"
  shows "mset (hash_iter ord m) = mset m"
proof -
  have "mset (hash_iter ord m) = image_mset (\<lambda>k. (k, the (map_of m k))) (mset (map fst m))"
    unfolding hash_iter_def mset_map assms(1) ..
  also have "\<dots> = mset (map (\<lambda>kv. (fst kv, the (map_of m (fst kv)))) m)"
    by (simp add: image_mset.compositionality comp_def)
  also have "map (\<lambda>kv. (fst kv, the (map_of m (fst kv)))) m = m"
    using assms(2) by (intro map_idI) (auto simp: map_of_is_SomeI)
  finally show ?thesis .
qed

text \<open>Appending to the queue of pending requests.\<close>

definition push_back :: "pending_request \<Rightarrow> sink \<Rightarrow> sink" where
  "push_back p s = s\<lparr>pending_requests := pending_requests s @ [p]\<rparr>"

text \<open>A fresh random message id.\<close>

definition next_id :: "kafka_env \<Rightarrow> sink \<Rightarrow> message_id \<times> sink" where
  "next_id E s = (fresh_id E (id_counter s), s\<lparr>id_counter := Suc (id_counter s)\<rparr>)"

text \<open>\<^verbatim>\<open>random_broker_id(&self.nodes, &mut self.rng, &self.rack)\<close>.\<close>

definition sink_random_broker :: "kafka_env \<Rightarrow> sink \<Rightarrow> int result \<times> sink" where
  "sink_random_broker E s = (case random_broker_id E (rng s) (nodes s) (rack s) of (r, g) \<Rightarrow> (r, s\<lparr>rng := g\<rparr>))"

lemma sink_random_broker_ok:
  assumes "choose_ok E" and "nodes s \<noteq> []"
  obtains n g where "sink_random_broker E s = (Ok (kn_broker_id n), s\<lparr>rng := g\<rparr>)" and "n \<in> set (preferred_brokers (nodes s) (rack s))"
proof -
  obtain n where n: "n \<in> set (preferred_brokers (nodes s) (rack s))"
    "fst (random_broker_id E (rng s) (nodes s) (rack s)) = Ok (kn_broker_id n)"
    using random_broker_id_preferred[OF assms, of "rack s" "rng s"] by blast
  show ?thesis
    by (rule that[OF _ n(1), of "snd (random_broker_id E (rng s) (nodes s) (rack s))"])
      (use n(2) in \<open>auto simp: sink_random_broker_def split: prod.splits\<close>)
qed

text \<open>
  A split request is a group of consecutive entries of the queue, each of which knows the
  size of the group.  The first entry of a group keeps the id of the client's request.
\<close>

definition is_group :: "pending_request list \<Rightarrow> bool" where
  "is_group g \<longleftrightarrow> g \<noteq> [] \<and> (\<forall>p \<in> set g. pcombine p = length g)"

definition grouped :: "pending_request list list \<Rightarrow> pending_request list \<Rightarrow> bool" where
  "grouped gs ps \<longleftrightarrow> ps = concat gs \<and> (\<forall>g \<in> set gs. is_group g)"

lemma grouped_append: "grouped gs ps \<Longrightarrow> grouped hs qs \<Longrightarrow> grouped (gs @ hs) (ps @ qs)"
  by (auto simp: grouped_def)

lemma is_group_single: "pcombine p = 1 \<Longrightarrow> is_group [p]"
  by (simp add: is_group_def)

end
