(* ===== verification/Kafka_Split.thy ===== *)
theory Kafka_Split
  imports Kafka_State
begin

text \<open>
  Splitting a request by destination
  (\<^verbatim>\<open>src/shotover/src/transforms/kafka/sink_cluster/split.rs\<close> and the \<^verbatim>\<open>split_*_by_destination\<close>
  methods of \<^verbatim>\<open>sink_cluster/mod.rs\<close>).

  Requests about partitions go to the leader of each partition, requests about groups and
  transactions to the coordinator, broadcast requests to this node's share of the brokers.  The
  destination \<open>-1\<close> stands for "some random broker".  The trait \<^verbatim>\<open>RequestSplitAndRouter\<close> is the
  record \<open>router\<close>, each of its implementations a constant of that type; what the trait promises
  is the locale \<open>splitting_router\<close>.
\<close>

subsection \<open>Topics split by partition leader\<close>

definition partition_leader :: "topic \<Rightarrow> int \<Rightarrow> int" where
  "partition_leader tm i = (case get_i32 tm i of Some p \<Rightarrow> pt_leader_id p | None \<Rightarrow> - 1)"

text \<open>Adding a partition to the topics already routed to a destination: to the topic if it is there, else to a copy of it.\<close>

fun push_partition ::
  "('t \<Rightarrow> 'k) \<Rightarrow> ('t \<Rightarrow> 'p list) \<Rightarrow> ('p list \<Rightarrow> 't \<Rightarrow> 't) \<Rightarrow> 't \<Rightarrow> 'p \<Rightarrow> 't list \<Rightarrow> 't list" where
  "push_partition key parts upd t p [] = [upd [p] t]"
| "push_partition key parts upd t p (u # us) =
    (if key u = key t then upd (parts u @ [p]) u # us else u # push_partition key parts upd t p us)"

definition split_topic ::
  "('t \<Rightarrow> 'k) \<Rightarrow> ('t \<Rightarrow> 'p list) \<Rightarrow> ('p list \<Rightarrow> 't \<Rightarrow> 't) \<Rightarrow> ('t \<Rightarrow> topic option) \<Rightarrow> ('p \<Rightarrow> int)
     \<Rightarrow> 't \<Rightarrow> (int \<times> 't list) list \<Rightarrow> (int \<times> 't list) list" where
  "split_topic key parts upd meta index t result = (case meta t of
     Some tm \<Rightarrow> fold (\<lambda>p m. entry_or [] (partition_leader tm (index p)) (push_partition key parts upd t p) m)
                 (parts t) result
   | None \<Rightarrow> push_to (- 1) t result)"

definition split_topics ::
  "('t \<Rightarrow> 'k) \<Rightarrow> ('t \<Rightarrow> 'p list) \<Rightarrow> ('p list \<Rightarrow> 't \<Rightarrow> 't) \<Rightarrow> ('t \<Rightarrow> topic option) \<Rightarrow> ('p \<Rightarrow> int)
     \<Rightarrow> 't list \<Rightarrow> (int \<times> 't list) list" where
  "split_topics key parts upd meta index ts = fold (split_topic key parts upd meta index) ts []"

text \<open>The parts of a request as (topic, partition) pairs, and those of a routing with their destination.\<close>

definition topic_atoms :: "('t \<Rightarrow> 'k) \<Rightarrow> ('t \<Rightarrow> 'p list) \<Rightarrow> 't list \<Rightarrow> ('k \<times> 'p) list" where
  "topic_atoms key parts ts = concat (map (\<lambda>t. map (Pair (key t)) (parts t)) ts)"

definition routed_atoms :: "('t \<Rightarrow> 'k) \<Rightarrow> ('t \<Rightarrow> 'p list) \<Rightarrow> (int \<times> 't list) list \<Rightarrow> (int \<times> 'k \<times> 'p) list" where
  "routed_atoms key parts m = concat (map (\<lambda>(d, ts). map (Pair d) (topic_atoms key parts ts)) m)"

definition atom_dest :: "('k \<Rightarrow> topic option) \<Rightarrow> ('p \<Rightarrow> int) \<Rightarrow> 'k \<times> 'p \<Rightarrow> int" where
  "atom_dest meta index a = (case meta (fst a) of Some tm \<Rightarrow> partition_leader tm (index (snd a)) | None \<Rightarrow> - 1)"

lemma topic_atoms_simps [simp]:
  "topic_atoms key parts [] = []"
  "topic_atoms key parts (t # ts) = map (Pair (key t)) (parts t) @ topic_atoms key parts ts"
  "topic_atoms key parts (ts @ us) = topic_atoms key parts ts @ topic_atoms key parts us"
  by (simp_all add: topic_atoms_def)

lemma routed_atoms_simps [simp]:
  "routed_atoms key parts [] = []"
  "routed_atoms key parts ((d, ts) # m) = map (Pair d) (topic_atoms key parts ts) @ routed_atoms key parts m"
  by (simp_all add: routed_atoms_def)

locale partitioned_topic =
  fixes key :: "'t \<Rightarrow> 'k" and parts :: "'t \<Rightarrow> 'p list" and upd :: "'p list \<Rightarrow> 't \<Rightarrow> 't"
  assumes key_upd [simp]: "key (upd ps t) = key t"
    and parts_upd [simp]: "parts (upd ps t) = ps"
begin

lemma atoms_push_partition:
  "mset (topic_atoms key parts (push_partition key parts upd t p us)) =
     add_mset (key t, p) (mset (topic_atoms key parts us))"
  by (induction us) auto

lemma routed_entry:
  "mset (routed_atoms key parts (entry_or [] d (push_partition key parts upd t p) m)) =
     add_mset (d, key t, p) (mset (routed_atoms key parts m))"
  by (induction m) (auto simp: atoms_push_partition)

lemma routed_push:
  "mset (routed_atoms key parts (push_to d t m)) =
     mset (map (Pair d) (topic_atoms key parts [t])) + mset (routed_atoms key parts m)"
  unfolding push_to_def
  by (induction m) (auto simp: image_mset.compositionality)

lemma routed_split_topic:
  assumes "meta t = metak (key t)"
  shows "mset (routed_atoms key parts (split_topic key parts upd meta index t m)) =
     mset (map (\<lambda>a. (atom_dest metak index a, a)) (topic_atoms key parts [t])) + mset (routed_atoms key parts m)"
proof (cases "metak (key t)")
  case None
  then show ?thesis using assms
    by (simp add: split_topic_def routed_push atom_dest_def image_mset.compositionality comp_def)
next
  case (Some tm)
  have "mset (routed_atoms key parts
          (fold (\<lambda>p m. entry_or [] (partition_leader tm (index p)) (push_partition key parts upd t p) m) ps m)) =
        mset (map (\<lambda>a. (atom_dest metak index a, a)) (map (Pair (key t)) ps)) + mset (routed_atoms key parts m)" for ps
    using Some by (induction ps arbitrary: m) (auto simp: routed_entry atom_dest_def)
  then show ?thesis using assms Some by (simp add: split_topic_def)
qed

text \<open>Every (topic, partition) pair of the request is routed once, to the leader of the partition.\<close>

lemma routed_split_topics:
  assumes "\<And>t. t \<in> set ts \<Longrightarrow> meta t = metak (key t)"
  shows "mset (routed_atoms key parts (split_topics key parts upd meta index ts)) =
     mset (map (\<lambda>a. (atom_dest metak index a, a)) (topic_atoms key parts ts))"
proof -
  have "mset (routed_atoms key parts (fold (split_topic key parts upd meta index) ts m)) =
     mset (map (\<lambda>a. (atom_dest metak index a, a)) (topic_atoms key parts ts)) + mset (routed_atoms key parts m)" for m
    using assms
  proof (induction ts arbitrary: m)
    case (Cons t ts)
    then show ?case by (simp add: routed_split_topic[of meta t metak])
  qed simp
  then show ?thesis by (simp add: split_topics_def)
qed

lemma distinct_split_topics [simp]: "distinct (map fst (split_topics key parts upd meta index ts))"
proof -
  have e: "distinct (map fst (fold (\<lambda>p m. entry_or [] (f p) (g p) m) ps m))"
    if "distinct (map fst m)" for f and g :: "'p \<Rightarrow> 't list \<Rightarrow> 't list" and ps and m :: "(int \<times> 't list) list"
    using that by (induction ps arbitrary: m) (auto simp: distinct_entry_or)
  have "distinct (map fst (fold (split_topic key parts upd meta index) ts m))" if "distinct (map fst m)" for m
    using that by (induction ts arbitrary: m) (auto simp: split_topic_def e distinct_push_to split: option.splits)
  then show ?thesis by (simp add: split_topics_def)
qed

end

interpretation named: partitioned_topic tname tparts "\<lambda>ps t. t\<lparr>tparts := ps\<rparr>"
  by unfold_locales simp_all

text \<open>The topics of a fetch request are identified by name and id.\<close>

definition fkey :: "'p fetch_topic \<Rightarrow> string \<times> uuid" where
  "fkey t = (ftopic t, ftopic_id t)"

interpretation fetch: partitioned_topic fkey fparts "\<lambda>ps t. t\<lparr>fparts := ps\<rparr>"
  by unfold_locales (simp_all add: fkey_def)

subsection \<open>The splitting methods of the sink\<close>

text \<open>
  A produce request collects the topics of a destination in a hash map by topic name; a topic
  without metadata replaces an earlier one of the same name.
\<close>

definition push_produce :: "partition_req named_topic \<Rightarrow> partition_req
    \<Rightarrow> (string \<times> partition_req named_topic) list \<Rightarrow> (string \<times> partition_req named_topic) list" where
  "push_produce t p routed_topics =
     entry_or (t\<lparr>tparts := []\<rparr>) (tname t) (\<lambda>u. u\<lparr>tparts := tparts u @ [p]\<rparr>) routed_topics"

definition split_produce_topic :: "(string \<rightharpoonup> topic) \<Rightarrow> partition_req named_topic
    \<Rightarrow> (int \<times> (string \<times> partition_req named_topic) list) list \<Rightarrow> (int \<times> (string \<times> partition_req named_topic) list) list" where
  "split_produce_topic meta t result = (case meta (tname t) of
     Some tm \<Rightarrow> fold (\<lambda>p m. entry_or [] (partition_leader tm (pindex p)) (push_produce t p) m) (tparts t) result
   | None \<Rightarrow> entry_or [] (- 1) (AList.update (tname t) t) result)"

definition split_produce_request_by_destination :: "sink \<Rightarrow> produce_request
    \<Rightarrow> produce_request \<times> (int \<times> (string \<times> partition_req named_topic) list) list" where
  "split_produce_request_by_destination s r =
    (r\<lparr>topic_data := []\<rparr>, fold (split_produce_topic (topic_by_name s)) (topic_data r) [])"

definition split_fetch_request_by_destination :: "sink \<Rightarrow> fetch_request
    \<Rightarrow> fetch_request \<times> (int \<times> partition_req fetch_topic list) list" where
  "split_fetch_request_by_destination s r =
    (r\<lparr>fetch_topics := []\<rparr>,
     split_topics fkey fparts (\<lambda>ps t. t\<lparr>fparts := ps\<rparr>)
       (\<lambda>t. case topic_by_id s (ftopic_id t) of Some tm \<Rightarrow> Some tm | None \<Rightarrow> topic_by_name s (ftopic t))
       pindex (fetch_topics r))"

definition split_topics_request :: "sink \<Rightarrow> ('p \<Rightarrow> int) \<Rightarrow> 'p topics_request
    \<Rightarrow> 'p topics_request \<times> (int \<times> 'p named_topic list) list" where
  "split_topics_request s index r =
    (r\<lparr>rtopics := []\<rparr>,
     split_topics tname tparts (\<lambda>ps t. t\<lparr>tparts := ps\<rparr>) (\<lambda>t. topic_by_name s (tname t)) index (rtopics r))"

definition split_list_offsets_request_by_destination ::
  "sink \<Rightarrow> partition_req topics_request \<Rightarrow> partition_req topics_request \<times> (int \<times> partition_req named_topic list) list" where
  "split_list_offsets_request_by_destination s r = split_topics_request s pindex r"

definition split_offset_for_leader_epoch_request_by_destination ::
  "sink \<Rightarrow> partition_req topics_request \<Rightarrow> partition_req topics_request \<times> (int \<times> partition_req named_topic list) list" where
  "split_offset_for_leader_epoch_request_by_destination s r = split_topics_request s pindex r"

definition split_delete_records_request_by_destination ::
  "sink \<Rightarrow> partition_req topics_request \<Rightarrow> partition_req topics_request \<times> (int \<times> partition_req named_topic list) list" where
  "split_delete_records_request_by_destination s r = split_topics_request s pindex r"

text \<open>The partitions of \<^verbatim>\<open>DescribeProducers\<close> are bare indexes.\<close>

definition split_describe_producers_request_by_destination ::
  "sink \<Rightarrow> int topics_request \<Rightarrow> int topics_request \<times> (int \<times> int named_topic list) list" where
  "split_describe_producers_request_by_destination s r = split_topics_request s (\<lambda>i. i) r"

subsection \<open>Splitting by coordinator\<close>

definition coordinator_or_random :: "(string \<rightharpoonup> int) \<Rightarrow> string \<Rightarrow> int" where
  "coordinator_or_random m k = (case m k of Some b \<Rightarrow> b | None \<Rightarrow> - 1)"

definition split_delete_groups_request_by_destination ::
  "sink \<Rightarrow> ids_request \<Rightarrow> ids_request \<times> (int \<times> string list) list" where
  "split_delete_groups_request_by_destination s r =
    (r\<lparr>id_list := []\<rparr>, group_by_dest (coordinator_or_random (group_to_coordinator_broker s)) (id_list r))"

definition split_describe_groups_request_by_destination ::
  "sink \<Rightarrow> ids_request \<Rightarrow> ids_request \<times> (int \<times> string list) list" where
  "split_describe_groups_request_by_destination s r =
    (r\<lparr>id_list := []\<rparr>, group_by_dest (coordinator_or_random (group_to_coordinator_broker s)) (id_list r))"

definition split_consumer_group_describe_request_by_destination ::
  "sink \<Rightarrow> ids_request \<Rightarrow> ids_request \<times> (int \<times> string list) list" where
  "split_consumer_group_describe_request_by_destination s r =
    (r\<lparr>id_list := []\<rparr>, group_by_dest (coordinator_or_random (group_to_coordinator_broker s)) (id_list r))"

definition split_describe_transactions_request_by_destination ::
  "sink \<Rightarrow> ids_request \<Rightarrow> ids_request \<times> (int \<times> string list) list" where
  "split_describe_transactions_request_by_destination s r =
    (r\<lparr>id_list := []\<rparr>, group_by_dest (coordinator_or_random (transaction_to_coordinator_broker s)) (id_list r))"

definition split_offset_fetch_request_by_destination ::
  "sink \<Rightarrow> offset_fetch_request \<Rightarrow> offset_fetch_request \<times> (int \<times> offset_fetch_group list) list" where
  "split_offset_fetch_request_by_destination s r =
    (r\<lparr>of_groups := []\<rparr>,
     group_by_dest (\<lambda>g. coordinator_or_random (group_to_coordinator_broker s) (ofg_group_id g)) (of_groups r))"

definition split_add_partition_to_txn_request_by_destination ::
  "sink \<Rightarrow> add_partitions_to_txn_request \<Rightarrow> add_partitions_to_txn_request \<times> (int \<times> txn_transaction list) list" where
  "split_add_partition_to_txn_request_by_destination s r =
    (r\<lparr>transactions := []\<rparr>,
     group_by_dest (\<lambda>t. coordinator_or_random (transaction_to_coordinator_broker s) (tt_transactional_id t)) (transactions r))"

subsection \<open>Broadcast requests\<close>

definition rack_shotovers :: "sink \<Rightarrow> shotover_node list" where
  "rack_shotovers s = filter (\<lambda>n. sn_is_up n \<and> sn_rack n = rack s) (shotover_nodes s)"

definition rack_brokers :: "sink \<Rightarrow> kafka_node list" where
  "rack_brokers s = filter (\<lambda>n. kn_is_up n \<and> (case kn_rack n of Some r \<Rightarrow> r = rack s | None \<Rightarrow> True)) (nodes s)"

fun index_of :: "('a \<Rightarrow> bool) \<Rightarrow> 'a list \<Rightarrow> nat option" where
  "index_of p [] = None"
| "index_of p (x # xs) = (if p x then Some 0 else map_option Suc (index_of p xs))"

text \<open>The \<^verbatim>\<open>unwrap\<close> panics when this shotover node is not among the up nodes of its rack.\<close>

definition split_request_by_routing_to_all_brokers :: "sink \<Rightarrow> (int \<times> unit) list result" where
  "split_request_by_routing_to_all_brokers s =
    (case index_of (\<lambda>n. sn_broker_id n = broker_id s) (rack_shotovers s) of
       None \<Rightarrow> Inl (Panic ''called Option::unwrap() on a None value'')
     | Some local_index \<Rightarrow>
        Ok (fold (\<lambda>(i, n) m. AList.update (kn_broker_id n) () m)
              (filter (\<lambda>(i, n). i mod length (rack_shotovers s) = local_index) (enumerate 0 (rack_brokers s))) []))"

lemma index_of_Some: "index_of p xs = Some i \<longleftrightarrow> i < length xs \<and> p (xs ! i) \<and> (\<forall>j < i. \<not> p (xs ! j))"
proof (induction xs arbitrary: i)
  case (Cons x xs)
  then show ?case by (cases i) (auto simp: nth_Cons' less_Suc_eq_0_disj)
qed simp

lemma index_of_None: "index_of p xs = None \<longleftrightarrow> (\<forall>x \<in> set xs. \<not> p x)"
  by (induction xs) auto

lemma keys_fold_update:
  "fst ` set (fold (\<lambda>(i, n) m. AList.update (f n) () m) xs m) = f ` snd ` set xs \<union> fst ` set m"
proof -
  have "dom (map_of (fold (\<lambda>(i, n) m. AList.update (f n) () m) xs m)) = f ` snd ` set xs \<union> dom (map_of m)"
    by (induction xs arbitrary: m) (auto simp: update_conv' split: if_splits)
  then show ?thesis by (simp add: dom_map_of_conv_image_fst)
qed

lemma broadcast_keys:
  assumes "split_request_by_routing_to_all_brokers s = Ok m"
    and "index_of (\<lambda>n. sn_broker_id n = broker_id s) (rack_shotovers s) = Some k"
  shows "fst ` set m = {kn_broker_id (rack_brokers s ! i) | i. i < length (rack_brokers s) \<and> i mod length (rack_shotovers s) = k}"
proof -
  have f: "set (filter (\<lambda>(i, n). i mod length (rack_shotovers s) = k) (enumerate 0 (rack_brokers s))) =
      (\<lambda>i. (i, rack_brokers s ! i)) ` {i. i < length (rack_brokers s) \<and> i mod length (rack_shotovers s) = k}"
    by (auto simp: in_set_enumerate_eq)
  have m: "m = fold (\<lambda>(i, n) m. AList.update (kn_broker_id n) () m)
      (filter (\<lambda>(i, n). i mod length (rack_shotovers s) = k) (enumerate 0 (rack_brokers s))) []"
    using assms by (simp add: split_request_by_routing_to_all_brokers_def)
  have "fst ` set m = kn_broker_id ` snd ` set (filter (\<lambda>(i, n). i mod length (rack_shotovers s) = k) (enumerate 0 (rack_brokers s)))"
    unfolding m keys_fold_update by simp
  then show ?thesis unfolding f by (auto simp: image_image)
qed

text \<open>The view a shotover node of the same rack has of the same cluster.\<close>

definition as_node :: "shotover_node \<Rightarrow> sink \<Rightarrow> sink" where
  "as_node n s = s\<lparr>broker_id := sn_broker_id n\<rparr>"

lemma rack_as_node [simp]: "rack_shotovers (as_node n s) = rack_shotovers s" "rack_brokers (as_node n s) = rack_brokers s"
  by (simp_all add: rack_shotovers_def rack_brokers_def as_node_def cong: option.case_cong)

lemma broker_id_as_node [simp]: "broker_id (as_node n s) = sn_broker_id n"
  by (simp add: as_node_def)

lemma index_of_distinct:
  "distinct (map f xs) \<Longrightarrow> i < length xs \<Longrightarrow> index_of (\<lambda>x. f x = f (xs ! i)) xs = Some i"
  by (auto simp: index_of_Some distinct_conv_nth)

lemma broadcast_unique:
  assumes sn: "distinct (map sn_broker_id (shotover_nodes s))" and kn: "distinct (map kn_broker_id (nodes s))"
    and "rack_shotovers s \<noteq> []" and "n \<in> set (rack_brokers s)"
  shows "\<exists>!i. i < length (rack_shotovers s) \<and>
    (\<exists>m. split_request_by_routing_to_all_brokers (as_node (rack_shotovers s ! i) s) = Ok m \<and> kn_broker_id n \<in> fst ` set m)"
proof -
  let ?S = "rack_shotovers s" and ?B = "rack_brokers s"
  obtain j where j: "j < length ?B" "?B ! j = n" using assms(4) by (auto simp: in_set_conv_nth)
  have dB: "distinct (map kn_broker_id ?B)" using kn by (simp add: rack_brokers_def distinct_map_filter)
  have dS: "distinct (map sn_broker_id ?S)" using sn by (simp add: rack_shotovers_def distinct_map_filter)
  have reach: "(\<exists>m. split_request_by_routing_to_all_brokers (as_node (?S ! i) s) = Ok m \<and> kn_broker_id n \<in> fst ` set m)
      \<longleftrightarrow> j mod length ?S = i" if i: "i < length ?S" for i
  proof -
    have idx: "index_of (\<lambda>x. sn_broker_id x = broker_id (as_node (?S ! i) s)) (rack_shotovers (as_node (?S ! i) s)) = Some i"
      using index_of_distinct[OF dS i] by simp
    then obtain m where m: "split_request_by_routing_to_all_brokers (as_node (?S ! i) s) = Ok m"
      by (simp add: split_request_by_routing_to_all_brokers_def)
    have "kn_broker_id n \<in> fst ` set m \<longleftrightarrow> j mod length ?S = i"
      unfolding broadcast_keys[OF m idx]
      using j dB by (auto simp: distinct_conv_nth)
    then show ?thesis using m by simp
  qed
  have "j mod length ?S < length ?S" using assms(3) by simp
  then show ?thesis using reach by (metis (no_types, lifting))
qed

subsection \<open>The implementations of \<^verbatim>\<open>RequestSplitAndRouter\<close>\<close>

record ('r, 'sub) router =
  get_request_frame :: "request_body \<Rightarrow> 'r option"
  put_request_frame :: "'r \<Rightarrow> request_body"
  split_by_destination :: "sink \<Rightarrow> 'r \<Rightarrow> ('r \<times> (int \<times> 'sub) list) result"
  reassemble :: "kafka_env \<Rightarrow> 'r \<Rightarrow> 'sub \<Rightarrow> 'r"

definition produce_router :: "(produce_request, (string \<times> partition_req named_topic) list) router" where
  "produce_router = \<lparr>
     get_request_frame = (\<lambda>b. case b of Produce r \<Rightarrow> Some r | _ \<Rightarrow> None),
     put_request_frame = Produce,
     split_by_destination = (\<lambda>s r. Ok (split_produce_request_by_destination s r)),
     reassemble = (\<lambda>E r sub. r\<lparr>topic_data := map snd (hash_iter (name_order E) sub)\<rparr>)\<rparr>"

definition add_partitions_to_txn_router :: "(add_partitions_to_txn_request, txn_transaction list) router" where
  "add_partitions_to_txn_router = \<lparr>
     get_request_frame = (\<lambda>b. case b of AddPartitionsToTxn r \<Rightarrow> Some r | _ \<Rightarrow> None),
     put_request_frame = AddPartitionsToTxn,
     split_by_destination = (\<lambda>s r. Ok (split_add_partition_to_txn_request_by_destination s r)),
     reassemble = (\<lambda>E r sub. r\<lparr>transactions := sub\<rparr>)\<rparr>"

definition list_offsets_router :: "(partition_req topics_request, partition_req named_topic list) router" where
  "list_offsets_router = \<lparr>
     get_request_frame = (\<lambda>b. case b of ListOffsets r \<Rightarrow> Some r | _ \<Rightarrow> None),
     put_request_frame = ListOffsets,
     split_by_destination = (\<lambda>s r. Ok (split_list_offsets_request_by_destination s r)),
     reassemble = (\<lambda>E r sub. r\<lparr>rtopics := sub\<rparr>)\<rparr>"

definition offset_for_leader_epoch_router :: "(partition_req topics_request, partition_req named_topic list) router" where
  "offset_for_leader_epoch_router = \<lparr>
     get_request_frame = (\<lambda>b. case b of OffsetForLeaderEpoch r \<Rightarrow> Some r | _ \<Rightarrow> None),
     put_request_frame = OffsetForLeaderEpoch,
     split_by_destination = (\<lambda>s r. Ok (split_offset_for_leader_epoch_request_by_destination s r)),
     reassemble = (\<lambda>E r sub. r\<lparr>rtopics := sub\<rparr>)\<rparr>"

definition delete_records_router :: "(partition_req topics_request, partition_req named_topic list) router" where
  "delete_records_router = \<lparr>
     get_request_frame = (\<lambda>b. case b of DeleteRecords r \<Rightarrow> Some r | _ \<Rightarrow> None),
     put_request_frame = DeleteRecords,
     split_by_destination = (\<lambda>s r. Ok (split_delete_records_request_by_destination s r)),
     reassemble = (\<lambda>E r sub. r\<lparr>rtopics := sub\<rparr>)\<rparr>"

definition describe_producers_router :: "(int topics_request, int named_topic list) router" where
  "describe_producers_router = \<lparr>
     get_request_frame = (\<lambda>b. case b of DescribeProducers r \<Rightarrow> Some r | _ \<Rightarrow> None),
     put_request_frame = DescribeProducers,
     split_by_destination = (\<lambda>s r. Ok (split_describe_producers_request_by_destination s r)),
     reassemble = (\<lambda>E r sub. r\<lparr>rtopics := sub\<rparr>)\<rparr>"

definition delete_groups_router :: "(ids_request, string list) router" where
  "delete_groups_router = \<lparr>
     get_request_frame = (\<lambda>b. case b of DeleteGroups r \<Rightarrow> Some r | _ \<Rightarrow> None),
     put_request_frame = DeleteGroups,
     split_by_destination = (\<lambda>s r. Ok (split_delete_groups_request_by_destination s r)),
     reassemble = (\<lambda>E r sub. r\<lparr>id_list := sub\<rparr>)\<rparr>"

definition describe_groups_router :: "(ids_request, string list) router" where
  "describe_groups_router = \<lparr>
     get_request_frame = (\<lambda>b. case b of DescribeGroups r \<Rightarrow> Some r | _ \<Rightarrow> None),
     put_request_frame = DescribeGroups,
     split_by_destination = (\<lambda>s r. Ok (split_describe_groups_request_by_destination s r)),
     reassemble = (\<lambda>E r sub. r\<lparr>id_list := sub\<rparr>)\<rparr>"

definition consumer_group_describe_router :: "(ids_request, string list) router" where
  "consumer_group_describe_router = \<lparr>
     get_request_frame = (\<lambda>b. case b of ConsumerGroupDescribe r \<Rightarrow> Some r | _ \<Rightarrow> None),
     put_request_frame = ConsumerGroupDescribe,
     split_by_destination = (\<lambda>s r. Ok (split_consumer_group_describe_request_by_destination s r)),
     reassemble = (\<lambda>E r sub. r\<lparr>id_list := sub\<rparr>)\<rparr>"

definition describe_transactions_router :: "(ids_request, string list) router" where
  "describe_transactions_router = \<lparr>
     get_request_frame = (\<lambda>b. case b of DescribeTransactions r \<Rightarrow> Some r | _ \<Rightarrow> None),
     put_request_frame = DescribeTransactions,
     split_by_destination = (\<lambda>s r. Ok (split_describe_transactions_request_by_destination s r)),
     reassemble = (\<lambda>E r sub. r\<lparr>id_list := sub\<rparr>)\<rparr>"

definition offset_fetch_router :: "(offset_fetch_request, offset_fetch_group list) router" where
  "offset_fetch_router = \<lparr>
     get_request_frame = (\<lambda>b. case b of OffsetFetch r \<Rightarrow> Some r | _ \<Rightarrow> None),
     put_request_frame = OffsetFetch,
     split_by_destination = (\<lambda>s r. Ok (split_offset_fetch_request_by_destination s r)),
     reassemble = (\<lambda>E r sub. r\<lparr>of_groups := sub\<rparr>)\<rparr>"

text \<open>The broadcast requests are sent to every destination as they are.\<close>

definition broadcast_router :: "plain_request \<Rightarrow> (opaque, unit) router" where
  "broadcast_router k = \<lparr>
     get_request_frame = (\<lambda>b. case b of PlainRequest k' r \<Rightarrow> if k' = k then Some r else None | _ \<Rightarrow> None),
     put_request_frame = PlainRequest k,
     split_by_destination = (\<lambda>s r. bind_result (split_request_by_routing_to_all_brokers s) (\<lambda>m. Ok (r, m))),
     reassemble = (\<lambda>E r sub. r)\<rparr>"

definition list_groups_router :: "(opaque, unit) router" where
  "list_groups_router = broadcast_router ListGroups"

definition list_transactions_router :: "(opaque, unit) router" where
  "list_transactions_router = broadcast_router ListTransactions"

definition describe_log_dirs_router :: "(opaque, unit) router" where
  "describe_log_dirs_router = broadcast_router DescribeLogDirs"

lemmas router_defs = produce_router_def add_partitions_to_txn_router_def list_offsets_router_def
  offset_for_leader_epoch_router_def delete_records_router_def describe_producers_router_def
  delete_groups_router_def describe_groups_router_def consumer_group_describe_router_def
  describe_transactions_router_def offset_fetch_router_def broadcast_router_def
  list_groups_router_def list_transactions_router_def describe_log_dirs_router_def

subsection \<open>Produce requests\<close>

text \<open>
  For a request that names each topic once, the hash map of topics that a produce request
  collects per destination is the vector of topics that the other requests collect.
\<close>

type_synonym produce_routing = "(int \<times> (string \<times> partition_req named_topic) list) list"

abbreviation "set_tparts \<equiv> (\<lambda>ps t. t\<lparr>tparts := ps\<rparr>)"

definition routing_vec :: "produce_routing \<Rightarrow> (int \<times> partition_req named_topic list) list" where
  "routing_vec m = map (\<lambda>(d, sub). (d, map snd sub)) m"

definition produce_inv :: "string set \<Rightarrow> produce_routing \<Rightarrow> bool" where
  "produce_inv N m \<longleftrightarrow> (\<forall>(d, sub) \<in> set m. distinct (map fst sub) \<and> fst ` set sub \<subseteq> N \<and> (\<forall>(k, t) \<in> set sub. tname t = k))"

lemma push_produce_vec:
  assumes "\<forall>(k, u) \<in> set sub. tname u = k"
  shows "map snd (push_produce t p sub) = push_partition tname tparts set_tparts t p (map snd sub)"
    and "\<forall>(k, u) \<in> set (push_produce t p sub). tname u = k"
  using assms unfolding push_produce_def
  by (induction sub) (auto split: if_splits)

lemma routing_vec_entry:
  assumes "\<forall>(d', sub) \<in> set m. map snd (f sub) = g (map snd sub)" and "map snd (f []) = g []"
  shows "routing_vec (entry_or [] d f m) = entry_or [] d g (routing_vec m)"
  using assms by (induction m) (auto simp: routing_vec_def)

lemma entry_or_cases:
  assumes "(d', x) \<in> set (entry_or e d f m)"
  shows "(d', x) \<in> set m \<or> (d' = d \<and> (x = f e \<or> (\<exists>y. (d, y) \<in> set m \<and> x = f y)))"
  using assms by (induction m) (auto split: if_splits)

lemma produce_inv_entry:
  assumes "produce_inv N m"
    and "\<And>sub. distinct (map fst sub) \<Longrightarrow> fst ` set sub \<subseteq> N \<Longrightarrow> \<forall>(k, t) \<in> set sub. tname t = k \<Longrightarrow>
      distinct (map fst (f sub)) \<and> fst ` set (f sub) \<subseteq> M \<and> (\<forall>(k, t) \<in> set (f sub). tname t = k)"
    and "N \<subseteq> M"
  shows "produce_inv M (entry_or [] d f m)"
  unfolding produce_inv_def
proof (clarify, goal_cases)
  case (1 d' x)
  then consider "(d', x) \<in> set m" | "x = f []" | y where "(d, y) \<in> set m" "x = f y"
    using entry_or_cases by metis
  then show ?case
  proof cases
    case 1
    then show ?thesis using assms(1,3) by (fastforce simp: produce_inv_def)
  next
    case 2
    then show ?thesis using assms(2)[of "[]"] by auto
  next
    case 3
    then show ?thesis using assms(1) assms(2)[of y] by (fastforce simp: produce_inv_def)
  qed
qed

lemma push_produce_inv:
  assumes "distinct (map fst sub)" and "fst ` set sub \<subseteq> N" and "\<forall>(k, t) \<in> set sub. tname t = k"
  shows "distinct (map fst (push_produce t p sub)) \<and> fst ` set (push_produce t p sub) \<subseteq> insert (tname t) N
     \<and> (\<forall>(k, u) \<in> set (push_produce t p sub). tname u = k)"
  using assms push_produce_vec(2)[OF assms(3)]
  by (auto simp: push_produce_def distinct_entry_or fst_entry_or)

lemma split_produce_topic_vec:
  assumes "produce_inv N m" and "tname t \<notin> N"
  shows "routing_vec (split_produce_topic meta t m) =
      split_topic tname tparts set_tparts (\<lambda>t. meta (tname t)) pindex t (routing_vec m)"
    and "produce_inv (insert (tname t) N) (split_produce_topic meta t m)"
proof -
  let ?M = "insert (tname t) N"
  have step: "produce_inv ?M m \<Longrightarrow>
      routing_vec (fold (\<lambda>p m. entry_or [] (partition_leader tm (pindex p)) (push_produce t p) m) ps m) =
      fold (\<lambda>p m. entry_or [] (partition_leader tm (pindex p)) (push_partition tname tparts set_tparts t p) m) ps (routing_vec m)
      \<and> produce_inv ?M (fold (\<lambda>p m. entry_or [] (partition_leader tm (pindex p)) (push_produce t p) m) ps m)"
    for tm ps m
  proof (induction ps arbitrary: m)
    case (Cons p ps)
    have inv: "produce_inv ?M (entry_or [] (partition_leader tm (pindex p)) (push_produce t p) m)"
      by (rule produce_inv_entry[OF Cons.prems]) (use push_produce_inv[of _ ?M t p] in simp_all)
    have "\<forall>(d', sub) \<in> set m. map snd (push_produce t p sub) = push_partition tname tparts set_tparts t p (map snd sub)"
      using Cons.prems push_produce_vec(1) by (fastforce simp: produce_inv_def)
    then have "routing_vec (entry_or [] (partition_leader tm (pindex p)) (push_produce t p) m) =
        entry_or [] (partition_leader tm (pindex p)) (push_partition tname tparts set_tparts t p) (routing_vec m)"
      by (intro routing_vec_entry) (auto simp: push_produce_def)
    then show ?case using Cons.IH[OF inv] by simp
  qed simp
  have invM: "produce_inv ?M m" using assms(1) by (fastforce simp: produce_inv_def)
  have upd: "map snd (AList.update (tname t) t sub) = map snd sub @ [t]" if "tname t \<notin> fst ` set sub" for sub
    using that by (induction sub) auto
  have "\<forall>(d', sub) \<in> set m. map snd (AList.update (tname t) t sub) = map snd sub @ [t]"
    using assms upd by (fastforce simp: produce_inv_def)
  then have none: "routing_vec (entry_or [] (- 1) (AList.update (tname t) t) m) = push_to (- 1) t (routing_vec m)"
    unfolding push_to_def by (intro routing_vec_entry) auto
  have upd_inv: "produce_inv ?M (entry_or [] (- 1) (AList.update (tname t) t) m)"
  proof (rule produce_inv_entry[OF assms(1)])
    fix sub :: "(string \<times> partition_req named_topic) list"
    assume sub: "distinct (map fst sub)" "fst ` set sub \<subseteq> N" "\<forall>(k, t) \<in> set sub. tname t = k"
    have u: "set (AList.update (tname t) t sub) \<subseteq> insert (tname t, t) (set sub)" by (induction sub) auto
    have "fst ` set (AList.update (tname t) t sub) \<subseteq> ?M" using image_mono[OF u, of fst] sub(2) by auto
    then show "distinct (map fst (AList.update (tname t) t sub)) \<and> fst ` set (AList.update (tname t) t sub) \<subseteq> ?M
        \<and> (\<forall>(k, u) \<in> set (AList.update (tname t) t sub). tname u = k)"
      using sub u by (auto simp: distinct_update)
  qed auto
  show "routing_vec (split_produce_topic meta t m) =
      split_topic tname tparts set_tparts (\<lambda>t. meta (tname t)) pindex t (routing_vec m)"
    using step[OF invM] none by (auto simp: split_produce_topic_def split_topic_def split: option.splits)
  show "produce_inv ?M (split_produce_topic meta t m)"
    using step[OF invM] upd_inv by (auto simp: split_produce_topic_def split: option.splits)
qed

lemma split_produce_vec:
  assumes "distinct (map tname (topic_data r))"
  shows "routing_vec (snd (split_produce_request_by_destination s r)) =
      split_topics tname tparts set_tparts (\<lambda>t. topic_by_name s (tname t)) pindex (topic_data r)"
    and "produce_inv UNIV (snd (split_produce_request_by_destination s r))"
proof -
  have "routing_vec (fold (split_produce_topic meta) ts m) =
      fold (split_topic tname tparts set_tparts (\<lambda>t. meta (tname t)) pindex) ts (routing_vec m)
      \<and> produce_inv UNIV (fold (split_produce_topic meta) ts m)"
    if "produce_inv N m" "distinct (map tname ts)" "N \<inter> tname ` set ts = {}" for meta ts N m
    using that
  proof (induction ts arbitrary: N m)
    case Nil
    then show ?case by (fastforce simp: produce_inv_def)
  next
    case (Cons t ts)
    have t: "tname t \<notin> N" using Cons.prems(3) by auto
    show ?case
      using Cons.IH[OF split_produce_topic_vec(2)[OF Cons.prems(1) t]] Cons.prems(2,3)
        split_produce_topic_vec(1)[OF Cons.prems(1) t] by auto
  qed
  from this[of "{}" "[]" "topic_data r" "topic_by_name s"] assms
  show "routing_vec (snd (split_produce_request_by_destination s r)) =
      split_topics tname tparts set_tparts (\<lambda>t. topic_by_name s (tname t)) pindex (topic_data r)"
    and "produce_inv UNIV (snd (split_produce_request_by_destination s r))"
    by (simp_all add: split_produce_request_by_destination_def split_topics_def routing_vec_def produce_inv_def)
qed

subsection \<open>What splitting promises\<close>

text \<open>
  The contract of \<^verbatim>\<open>RequestSplitAndRouter\<close>: reassembling the parts of a split gives requests that
  together carry every atom of the original request exactly once, each in the request of its
  destination; the destinations are pairwise different.
\<close>

definition sub_atoms :: "('r, 'sub) router \<Rightarrow> ('r \<Rightarrow> 'a list) \<Rightarrow> kafka_env \<Rightarrow> 'r \<Rightarrow> (int \<times> 'sub) list \<Rightarrow> (int \<times> 'a) list" where
  "sub_atoms R atoms E r m = concat (map (\<lambda>(d, sub). map (Pair d) (atoms (reassemble R E r sub))) m)"

locale splitting_router =
  fixes R :: "('r, 'sub) router" and atoms :: "'r \<Rightarrow> 'a list" and dest :: "sink \<Rightarrow> 'a \<Rightarrow> int" and valid :: "'r \<Rightarrow> bool"
  assumes get_put [simp]: "get_request_frame R (put_request_frame R r) = Some r"
    and split_total: "\<exists>r' m. split_by_destination R s r = Ok (r', m)"
    and split_distinct: "split_by_destination R s r = Ok (r', m) \<Longrightarrow> valid r \<Longrightarrow> distinct (map fst m)"
    and split_atoms: "order_ok E \<Longrightarrow> valid r \<Longrightarrow> split_by_destination R s r = Ok (r', m) \<Longrightarrow>
      mset (sub_atoms R atoms E r'' m) = mset (map (\<lambda>a. (dest s a, a)) (atoms r))"
    and split_drained: "split_by_destination R s r = Ok (r', m) \<Longrightarrow> atoms r' = []"
begin

lemma split_conserves:
  assumes "order_ok E" and "valid r" and "split_by_destination R s r = Ok (r', m)"
  shows "mset (concat (map (\<lambda>(d, sub). atoms (reassemble R E r'' sub)) m)) = mset (atoms r)"
proof -
  have "map snd (sub_atoms R atoms E r'' m) = concat (map (\<lambda>(d, sub). atoms (reassemble R E r'' sub)) m)"
    by (simp add: sub_atoms_def map_concat comp_def case_prod_unfold)
  then have "mset (concat (map (\<lambda>(d, sub). atoms (reassemble R E r'' sub)) m)) =
      image_mset snd (mset (map (\<lambda>a. (dest s a, a)) (atoms r)))"
    using split_atoms[OF assms, of r''] by (metis mset_map)
  then show ?thesis by (simp add: image_mset.compositionality comp_def)
qed

lemma split_to_destination:
  assumes "order_ok E" and "valid r" and "split_by_destination R s r = Ok (r', m)"
    and "(d, sub) \<in> set m" and "a \<in> set (atoms (reassemble R E r'' sub))"
  shows "a \<in> set (atoms r) \<and> dest s a = d"
proof -
  have "(d, a) \<in> set (sub_atoms R atoms E r'' m)" using assms(4,5) by (force simp: sub_atoms_def)
  then show ?thesis using arg_cong[OF split_atoms[OF assms(1-3), of r''], of set_mset] by auto
qed

end

lemma routed_atoms_concat:
  "routed_atoms key parts m = concat (map (\<lambda>(d, sub). map (Pair d) (topic_atoms key parts sub)) m)"
  by (simp add: routed_atoms_def)

definition topics_dest :: "('p \<Rightarrow> int) \<Rightarrow> sink \<Rightarrow> string \<times> 'p \<Rightarrow> int" where
  "topics_dest index s a = atom_dest (topic_by_name s) index a"

lemma split_topics_request_atoms:
  "mset (routed_atoms tname tparts (snd (split_topics_request s index r))) =
     mset (map (\<lambda>a. (topics_dest index s a, a)) (topic_atoms tname tparts (rtopics r)))"
  unfolding split_topics_request_def snd_conv topics_dest_def
  by (rule named.routed_split_topics) simp

lemma topics_router:
  assumes "\<And>r. get_request_frame R (put_request_frame R r) = Some r"
    and "split_by_destination R = (\<lambda>s r. Ok (split_topics_request s index r))"
    and "reassemble R = (\<lambda>E r sub. r\<lparr>rtopics := sub\<rparr>)"
  shows "splitting_router R (\<lambda>r. topic_atoms tname tparts (rtopics r)) (topics_dest index) (\<lambda>r. True)"
proof (unfold_locales, goal_cases)
  case (1 r)
  then show ?case by (rule assms(1))
next
  case (2 s r)
  then show ?case by (simp add: assms(2) split_topics_request_def)
next
  case (3 s r r' m)
  then show ?case by (auto simp: assms(2) split_topics_request_def)
next
  case (4 E r s r' m r'')
  then have "m = snd (split_topics_request s index r)" by (auto simp: assms(2))
  then show ?case using split_topics_request_atoms[of s index r]
    by (simp add: sub_atoms_def assms(3) routed_atoms_concat)
next
  case (5 s r r' m)
  then show ?case by (auto simp: assms(2) split_topics_request_def topic_atoms_def)
qed

lemmas topics_split_defs = split_list_offsets_request_by_destination_def
  split_offset_for_leader_epoch_request_by_destination_def split_delete_records_request_by_destination_def
  split_describe_producers_request_by_destination_def

interpretation list_offsets: splitting_router list_offsets_router "\<lambda>r. topic_atoms tname tparts (rtopics r)"
    "topics_dest pindex" "\<lambda>r. True"
  by (rule topics_router) (simp_all add: list_offsets_router_def topics_split_defs)

interpretation offset_for_leader_epoch: splitting_router offset_for_leader_epoch_router "\<lambda>r. topic_atoms tname tparts (rtopics r)"
    "topics_dest pindex" "\<lambda>r. True"
  by (rule topics_router) (simp_all add: offset_for_leader_epoch_router_def topics_split_defs)

interpretation delete_records: splitting_router delete_records_router "\<lambda>r. topic_atoms tname tparts (rtopics r)"
    "topics_dest pindex" "\<lambda>r. True"
  by (rule topics_router) (simp_all add: delete_records_router_def topics_split_defs)

interpretation describe_producers: splitting_router describe_producers_router "\<lambda>r. topic_atoms tname tparts (rtopics r)"
    "topics_dest (\<lambda>i. i)" "\<lambda>r. True"
  by (rule topics_router) (simp_all add: describe_producers_router_def topics_split_defs)

text \<open>Requests split by coordinator: the atoms are the entries themselves.\<close>

lemma group_by_dest_atoms:
  "mset (concat (map (\<lambda>(d, sub). map (Pair d) sub) (group_by_dest f xs))) = mset (map (\<lambda>x. (f x, x)) xs)"
proof -
  have push: "mset (concat (map (\<lambda>(d, sub). map (Pair d) sub) (push_to k x m))) =
      add_mset (k, x) (mset (concat (map (\<lambda>(d, sub). map (Pair d) sub) m)))" for k x m
    unfolding push_to_def by (induction m) auto
  have "mset (concat (map (\<lambda>(d, sub). map (Pair d) sub) (fold (\<lambda>x m. push_to (f x) x m) xs m))) =
      mset (map (\<lambda>x. (f x, x)) xs) + mset (concat (map (\<lambda>(d, sub). map (Pair d) sub) m))" for m
    by (induction xs arbitrary: m) (auto simp: push)
  then show ?thesis by (simp add: group_by_dest_def)
qed

definition group_dest :: "sink \<Rightarrow> string \<Rightarrow> int" where
  "group_dest s = coordinator_or_random (group_to_coordinator_broker s)"

definition transaction_dest :: "sink \<Rightarrow> string \<Rightarrow> int" where
  "transaction_dest s = coordinator_or_random (transaction_to_coordinator_broker s)"

lemma coordinator_router:
  assumes "\<And>r. get_request_frame R (put_request_frame R r) = Some r"
    and "\<And>s r. \<exists>r'. split_by_destination R s r = Ok (r', group_by_dest (dest s) (atoms r)) \<and> atoms r' = []"
    and "\<And>E r sub. atoms (reassemble R E r sub) = sub"
  shows "splitting_router R atoms dest (\<lambda>r. True)"
proof (unfold_locales, goal_cases)
  case (1 r)
  then show ?case by (rule assms(1))
next
  case (2 s r)
  then show ?case using assms(2) by blast
next
  case (3 s r r' m)
  then show ?case using assms(2)[of s r] by auto
next
  case (4 E r s r' m r'')
  then have "m = group_by_dest (dest s) (atoms r)" using assms(2)[of s r] by auto
  then show ?case using group_by_dest_atoms[of "dest s" "atoms r"] by (simp add: sub_atoms_def assms(3))
next
  case (5 s r r' m)
  then show ?case using assms(2)[of s r] by auto
qed

interpretation delete_groups: splitting_router delete_groups_router id_list group_dest "\<lambda>r. True"
  by (rule coordinator_router) (simp_all add: delete_groups_router_def group_dest_def
      split_delete_groups_request_by_destination_def)

interpretation describe_groups: splitting_router describe_groups_router id_list group_dest "\<lambda>r. True"
  by (rule coordinator_router) (simp_all add: describe_groups_router_def group_dest_def
      split_describe_groups_request_by_destination_def)

interpretation consumer_group_describe: splitting_router consumer_group_describe_router id_list group_dest "\<lambda>r. True"
  by (rule coordinator_router) (simp_all add: consumer_group_describe_router_def group_dest_def
      split_consumer_group_describe_request_by_destination_def)

interpretation describe_transactions: splitting_router describe_transactions_router id_list transaction_dest "\<lambda>r. True"
  by (rule coordinator_router) (simp_all add: describe_transactions_router_def transaction_dest_def
      split_describe_transactions_request_by_destination_def)

interpretation offset_fetch: splitting_router offset_fetch_router of_groups "\<lambda>s g. group_dest s (ofg_group_id g)" "\<lambda>r. True"
  by (rule coordinator_router) (simp_all add: offset_fetch_router_def group_dest_def
      split_offset_fetch_request_by_destination_def)

interpretation add_partitions_to_txn: splitting_router add_partitions_to_txn_router transactions "\<lambda>s t. transaction_dest s (tt_transactional_id t)" "\<lambda>r. True"
  by (rule coordinator_router) (simp_all add: add_partitions_to_txn_router_def transaction_dest_def
      split_add_partition_to_txn_request_by_destination_def)

text \<open>A produce request is split like the others when it names each topic once.\<close>

lemma topic_atoms_mset: "mset ts = mset us \<Longrightarrow> mset (topic_atoms key parts ts) = mset (topic_atoms key parts us)"
  unfolding topic_atoms_def by (rule mset_concat_map)

lemma produce_sub_atoms:
  assumes "order_ok E" and "produce_inv N m"
  shows "mset (sub_atoms produce_router (\<lambda>r. topic_atoms tname tparts (topic_data r)) E r m) =
    mset (routed_atoms tname tparts (routing_vec m))"
  using assms(2)
proof (induction m)
  case (Cons x m)
  obtain d sub where x: "x = (d, sub)" by fastforce
  have "distinct (map fst sub)" using Cons.prems x by (auto simp: produce_inv_def)
  then have "mset (hash_iter (name_order E) sub) = mset sub"
    using assms(1) by (intro mset_hash_iter) (auto simp: order_ok_def)
  then have "mset (topic_atoms tname tparts (map snd (hash_iter (name_order E) sub))) =
      mset (topic_atoms tname tparts (map snd sub))"
    by (intro topic_atoms_mset) (metis mset_map)
  moreover have "produce_inv N m" using Cons.prems by (auto simp: produce_inv_def)
  ultimately show ?case using Cons.IH x
    by (simp add: sub_atoms_def produce_router_def routing_vec_def)
qed (simp add: sub_atoms_def routing_vec_def)

interpretation produce: splitting_router produce_router "\<lambda>r. topic_atoms tname tparts (topic_data r)"
    "topics_dest pindex" "\<lambda>r. distinct (map tname (topic_data r))"
proof (unfold_locales, goal_cases)
  case (1 r)
  then show ?case by (simp add: produce_router_def)
next
  case (2 s r)
  then show ?case by (simp add: produce_router_def)
next
  case (3 s r r' m)
  then have m: "m = snd (split_produce_request_by_destination s r)" by (auto simp: produce_router_def)
  have "map fst m = map fst (routing_vec m)" by (simp add: routing_vec_def comp_def case_prod_unfold)
  then show ?case using split_produce_vec(1)[OF 3(2), of s] m by simp
next
  case (4 E r s r' m r'')
  then have m: "m = snd (split_produce_request_by_destination s r)" by (auto simp: produce_router_def)
  show ?case
    unfolding produce_sub_atoms[OF 4(1) split_produce_vec(2)[OF 4(2), of s, folded m]]
    unfolding m split_produce_vec(1)[OF 4(2)] topics_dest_def
    by (rule named.routed_split_topics) simp
next
  case (5 s r r' m)
  then show ?case by (auto simp: produce_router_def split_produce_request_by_destination_def topic_atoms_def)
qed

end
