(* ===== verification/Kafka_Combine.thy ===== *)
theory Kafka_Combine
  imports Kafka_Split
begin

text \<open>
  Combining the responses to a split request (the \<^verbatim>\<open>combine_*\<close> functions of
  \<^verbatim>\<open>src/shotover/src/transforms/kafka/sink_cluster/mod.rs\<close>): the first response is the base, the
  contents of the others are moved into it.
\<close>

record response_to_be_combined =
  rc_response :: message
  rc_destination :: destination

definition response_body_of :: "decoders \<Rightarrow> message \<Rightarrow> response_body option" where
  "response_body_of D m = (case fst (frame D m) of Some (FKafka (Response _ _ b)) \<Rightarrow> Some b | _ \<Rightarrow> None)"

text \<open>
  The loop over the remaining responses.  Some of the functions fail on a response of another
  type (\<open>Some\<close> error text), the others skip it.
\<close>

fun combine_loop ::
  "decoders \<Rightarrow> (response_body \<Rightarrow> 'b option) \<Rightarrow> (destination \<Rightarrow> 'b \<Rightarrow> 'b \<Rightarrow> 'b result) \<Rightarrow> string option
     \<Rightarrow> 'b \<Rightarrow> response_to_be_combined list \<Rightarrow> 'b result" where
  "combine_loop D sel merge mismatch base [] = Ok base"
| "combine_loop D sel merge mismatch base (n # ns) =
    (case Option.bind (response_body_of D (rc_response n)) sel of
       Some b \<Rightarrow> bind_result (merge (rc_destination n) base b) (\<lambda>base'. combine_loop D sel merge mismatch base' ns)
     | None \<Rightarrow> (case mismatch of Some e \<Rightarrow> Inl (Err e) | None \<Rightarrow> combine_loop D sel merge mismatch base ns))"

subsection \<open>Topics kept in vectors\<close>

fun merge_topic :: "('t \<Rightarrow> 'k) \<Rightarrow> ('t \<Rightarrow> 'p list) \<Rightarrow> ('p list \<Rightarrow> 't \<Rightarrow> 't) \<Rightarrow> 't \<Rightarrow> 't list \<Rightarrow> 't list" where
  "merge_topic key parts upd n [] = [n]"
| "merge_topic key parts upd n (b # bs) =
    (if key b = key n then upd (parts b @ parts n) b # bs else b # merge_topic key parts upd n bs)"

definition merge_topics :: "('t \<Rightarrow> 'k) \<Rightarrow> ('t \<Rightarrow> 'p list) \<Rightarrow> ('p list \<Rightarrow> 't \<Rightarrow> 't) \<Rightarrow> 't list \<Rightarrow> 't list \<Rightarrow> 't list" where
  "merge_topics key parts upd ns bs = fold (merge_topic key parts upd) ns bs"

definition combine_fetch_responses ::
  "decoders \<Rightarrow> fetch_response \<Rightarrow> response_to_be_combined list \<Rightarrow> fetch_response result" where
  "combine_fetch_responses D base drain =
    combine_loop D (\<lambda>b. case b of FetchR r \<Rightarrow> Some r | _ \<Rightarrow> None)
      (\<lambda>d base n. Ok (base\<lparr>fres_responses :=
         merge_topics fkey fparts (\<lambda>ps t. t\<lparr>fparts := ps\<rparr>) (fres_responses n) (fres_responses base)\<rparr>))
      (Some ''Combining Fetch responses but received another message type'') base drain"

definition combine_list_offsets_responses ::
  "decoders \<Rightarrow> partition_res topics_response \<Rightarrow> response_to_be_combined list \<Rightarrow> partition_res topics_response result" where
  "combine_list_offsets_responses D base drain =
    combine_loop D (\<lambda>b. case b of ListOffsetsR r \<Rightarrow> Some r | _ \<Rightarrow> None)
      (\<lambda>d base n. Ok (base\<lparr>stopics := merge_topics tname tparts set_tparts (stopics n) (stopics base)\<rparr>))
      (Some ''Combining ListOffsets responses but received another message type'') base drain"

definition combine_offset_for_leader_epoch_responses ::
  "decoders \<Rightarrow> partition_res topics_response \<Rightarrow> response_to_be_combined list \<Rightarrow> partition_res topics_response result" where
  "combine_offset_for_leader_epoch_responses D base drain =
    combine_loop D (\<lambda>b. case b of OffsetForLeaderEpochR r \<Rightarrow> Some r | _ \<Rightarrow> None)
      (\<lambda>d base n. Ok (base\<lparr>stopics := merge_topics tname tparts set_tparts (stopics n) (stopics base)\<rparr>))
      (Some ''Combining OffsetForLeaderEpoch responses but received another message type'') base drain"

subsection \<open>Topics kept in hash maps\<close>

definition topics_to_map :: "'p named_topic list \<Rightarrow> (string \<times> 'p named_topic) list" where
  "topics_to_map ts = fold (\<lambda>t. AList.update (tname t) t) ts []"

definition merge_topic_map :: "'p named_topic \<Rightarrow> (string \<times> 'p named_topic) list \<Rightarrow> (string \<times> 'p named_topic) list" where
  "merge_topic_map n m = (case map_of m (tname n) of
     Some b \<Rightarrow> AList.update (tname n) (b\<lparr>tparts := tparts b @ tparts n\<rparr>) m
   | None \<Rightarrow> AList.update (tname n) n m)"

text \<open>The loop runs on the map; the values go back into the (now empty) vector at the end.\<close>

definition combine_in_map ::
  "kafka_env \<Rightarrow> (response_body \<Rightarrow> 'p named_topic list option) \<Rightarrow> string \<Rightarrow> 'p named_topic list
     \<Rightarrow> response_to_be_combined list \<Rightarrow> 'p named_topic list result" where
  "combine_in_map E sel mismatch base drain =
    bind_result
      (fold_result (\<lambda>n m. case Option.bind (response_body_of (env_dec E) (rc_response n)) sel of
           Some ts \<Rightarrow> Ok (fold merge_topic_map ts m)
         | None \<Rightarrow> Inl (Err mismatch)) drain (topics_to_map base))
      (\<lambda>m. Ok (map snd (hash_iter (name_order E) m)))"

definition combine_produce_responses ::
  "kafka_env \<Rightarrow> produce_response \<Rightarrow> response_to_be_combined list \<Rightarrow> produce_response result" where
  "combine_produce_responses E base drain =
    bind_result (combine_in_map E (\<lambda>b. case b of ProduceR r \<Rightarrow> Some (pres_responses r) | _ \<Rightarrow> None)
        ''Combining Produce responses but received another message type'' (pres_responses base) drain)
      (\<lambda>ts. Ok (base\<lparr>pres_responses := ts\<rparr>))"

definition combine_delete_records ::
  "kafka_env \<Rightarrow> partition_res topics_response \<Rightarrow> response_to_be_combined list \<Rightarrow> partition_res topics_response result" where
  "combine_delete_records E base drain =
    bind_result (combine_in_map E (\<lambda>b. case b of DeleteRecordsR r \<Rightarrow> Some (stopics r) | _ \<Rightarrow> None)
        ''Combining DeleteRecords responses but received another message type'' (stopics base) drain)
      (\<lambda>ts. Ok (base\<lparr>stopics := ts\<rparr>))"

definition combine_describe_producers ::
  "kafka_env \<Rightarrow> partition_res topics_response \<Rightarrow> response_to_be_combined list \<Rightarrow> partition_res topics_response result" where
  "combine_describe_producers E base drain =
    bind_result (combine_in_map E (\<lambda>b. case b of DescribeProducersR r \<Rightarrow> Some (stopics r) | _ \<Rightarrow> None)
        ''Combining DescribeProducers responses but received another message type'' (stopics base) drain)
      (\<lambda>ts. Ok (base\<lparr>stopics := ts\<rparr>))"

subsection \<open>Plain vectors\<close>

definition extend_items :: "destination \<Rightarrow> 'a items_response \<Rightarrow> 'a items_response \<Rightarrow> 'a items_response result" where
  "extend_items d base n = Ok (base\<lparr>items := items base @ items n\<rparr>)"

definition combine_delete_groups_responses ::
  "decoders \<Rightarrow> group_result items_response \<Rightarrow> response_to_be_combined list \<Rightarrow> group_result items_response result" where
  "combine_delete_groups_responses D =
    combine_loop D (\<lambda>b. case b of DeleteGroupsR r \<Rightarrow> Some r | _ \<Rightarrow> None) extend_items None"

definition combine_offset_fetch ::
  "decoders \<Rightarrow> offset_fetch_response \<Rightarrow> response_to_be_combined list \<Rightarrow> offset_fetch_response result" where
  "combine_offset_fetch D =
    combine_loop D (\<lambda>b. case b of OffsetFetchR r \<Rightarrow> Some r | _ \<Rightarrow> None)
      (\<lambda>d base n. Ok (base\<lparr>ofr_groups := ofr_groups base @ ofr_groups n\<rparr>)) None"

definition combine_list_groups ::
  "decoders \<Rightarrow> opaque items_response \<Rightarrow> response_to_be_combined list \<Rightarrow> opaque items_response result" where
  "combine_list_groups D =
    combine_loop D (\<lambda>b. case b of ListGroupsR r \<Rightarrow> Some r | _ \<Rightarrow> None) extend_items None"

definition combine_describe_transactions ::
  "decoders \<Rightarrow> opaque items_response \<Rightarrow> response_to_be_combined list \<Rightarrow> opaque items_response result" where
  "combine_describe_transactions D =
    combine_loop D (\<lambda>b. case b of DescribeTransactionsR r \<Rightarrow> Some r | _ \<Rightarrow> None) extend_items None"

definition combine_list_transactions ::
  "decoders \<Rightarrow> opaque items_response \<Rightarrow> response_to_be_combined list \<Rightarrow> opaque items_response result" where
  "combine_list_transactions D =
    combine_loop D (\<lambda>b. case b of ListTransactionsR r \<Rightarrow> Some r | _ \<Rightarrow> None) extend_items None"

definition combine_describe_groups ::
  "decoders \<Rightarrow> opaque items_response \<Rightarrow> response_to_be_combined list \<Rightarrow> opaque items_response result" where
  "combine_describe_groups D =
    combine_loop D (\<lambda>b. case b of DescribeGroupsR r \<Rightarrow> Some r | _ \<Rightarrow> None) extend_items None"

definition combine_consumer_group_describe ::
  "decoders \<Rightarrow> opaque items_response \<Rightarrow> response_to_be_combined list \<Rightarrow> opaque items_response result" where
  "combine_consumer_group_describe D =
    combine_loop D (\<lambda>b. case b of ConsumerGroupDescribeR r \<Rightarrow> Some r | _ \<Rightarrow> None) extend_items None"

definition combine_add_partitions_to_txn ::
  "decoders \<Rightarrow> add_partitions_to_txn_response \<Rightarrow> response_to_be_combined list \<Rightarrow> add_partitions_to_txn_response result" where
  "combine_add_partitions_to_txn D =
    combine_loop D (\<lambda>b. case b of AddPartitionsToTxnR r \<Rightarrow> Some r | _ \<Rightarrow> None)
      (\<lambda>d base n. Ok (base\<lparr>results_by_transaction := results_by_transaction base @ results_by_transaction n\<rparr>))
      (Some ''Combining AddPartitionsToTxn responses but received another message type'')"

text \<open>
  Log directories get the broker they are on in front, so that equal paths of different
  brokers stay apart.  The text of a broker id is its \<^verbatim>\<open>Debug\<close> form, a parameter.
\<close>

definition prepend_destination_to_log_dir ::
  "kafka_env \<Rightarrow> destination \<Rightarrow> log_dir_result items_response \<Rightarrow> log_dir_result items_response result" where
  "prepend_destination_to_log_dir E d body = (case d of
     Id b \<Rightarrow> Ok (body\<lparr>items := map (\<lambda>r. r\<lparr>log_dir := ''actual-kafka-broker-id'' @ debug_broker_id E b @ '':'' @ log_dir r\<rparr>) (items body)\<rparr>)
   | ControlConnection \<Rightarrow> if items body = [] then Ok body
       else Inl (Panic ''DescribeLogDirs are not sent as control connections''))"

definition combine_describe_log_dirs ::
  "kafka_env \<Rightarrow> destination \<Rightarrow> log_dir_result items_response \<Rightarrow> response_to_be_combined list \<Rightarrow> log_dir_result items_response result" where
  "combine_describe_log_dirs E d base drain =
    bind_result (prepend_destination_to_log_dir E d base) (\<lambda>base'.
    combine_loop (env_dec E) (\<lambda>b. case b of DescribeLogDirsR r \<Rightarrow> Some r | _ \<Rightarrow> None)
      (\<lambda>d' base n. bind_result (prepend_destination_to_log_dir E d' n) (\<lambda>n'. extend_items d' base n'))
      None base' drain)"

subsection \<open>Any type of response\<close>

definition combine_bodies ::
  "kafka_env \<Rightarrow> destination \<Rightarrow> response_body \<Rightarrow> response_to_be_combined list \<Rightarrow> response_body result" where
  "combine_bodies E d body drain = (let D = env_dec E in case body of
     FetchR b \<Rightarrow> bind_result (combine_fetch_responses D b drain) (\<lambda>r. Ok (FetchR r))
   | ListOffsetsR b \<Rightarrow> bind_result (combine_list_offsets_responses D b drain) (\<lambda>r. Ok (ListOffsetsR r))
   | OffsetForLeaderEpochR b \<Rightarrow> bind_result (combine_offset_for_leader_epoch_responses D b drain) (\<lambda>r. Ok (OffsetForLeaderEpochR r))
   | ProduceR b \<Rightarrow> bind_result (combine_produce_responses E b drain) (\<lambda>r. Ok (ProduceR r))
   | DeleteGroupsR b \<Rightarrow> bind_result (combine_delete_groups_responses D b drain) (\<lambda>r. Ok (DeleteGroupsR r))
   | DeleteRecordsR b \<Rightarrow> bind_result (combine_delete_records E b drain) (\<lambda>r. Ok (DeleteRecordsR r))
   | OffsetFetchR b \<Rightarrow> bind_result (combine_offset_fetch D b drain) (\<lambda>r. Ok (OffsetFetchR r))
   | DescribeProducersR b \<Rightarrow> bind_result (combine_describe_producers E b drain) (\<lambda>r. Ok (DescribeProducersR r))
   | ListGroupsR b \<Rightarrow> bind_result (combine_list_groups D b drain) (\<lambda>r. Ok (ListGroupsR r))
   | DescribeTransactionsR b \<Rightarrow> bind_result (combine_describe_transactions D b drain) (\<lambda>r. Ok (DescribeTransactionsR r))
   | ListTransactionsR b \<Rightarrow> bind_result (combine_list_transactions D b drain) (\<lambda>r. Ok (ListTransactionsR r))
   | DescribeGroupsR b \<Rightarrow> bind_result (combine_describe_groups D b drain) (\<lambda>r. Ok (DescribeGroupsR r))
   | ConsumerGroupDescribeR b \<Rightarrow> bind_result (combine_consumer_group_describe D b drain) (\<lambda>r. Ok (ConsumerGroupDescribeR r))
   | DescribeLogDirsR b \<Rightarrow> bind_result (combine_describe_log_dirs E d b drain) (\<lambda>r. Ok (DescribeLogDirsR r))
   | AddPartitionsToTxnR b \<Rightarrow> bind_result (combine_add_partitions_to_txn D b drain) (\<lambda>r. Ok (AddPartitionsToTxnR r))
   | _ \<Rightarrow> Inl (Err ''Combining of this message type is currently unsupported''))"

definition combine_responses :: "kafka_env \<Rightarrow> response_to_be_combined list \<Rightarrow> message result" where
  "combine_responses E drain = (case drain of
     [] \<Rightarrow> Inl (Panic ''called Option::unwrap() on a None value'')
   | base # rest \<Rightarrow> (case frame (env_dec E) (rc_response base) of
        (Some (FKafka (Response v c body)), m) \<Rightarrow>
          bind_result (combine_bodies E (rc_destination base) body rest) (\<lambda>body'.
          Ok (invalidate_cache (set_frame (FKafka (Response v c body')) m)))
      | _ \<Rightarrow> Inl (Err ''Combining of this message type is currently unsupported'')))"

text \<open>\<^verbatim>\<open>total_fetch_record_bytes\<close> over the first \<open>n\<close> entries of the queue.\<close>

definition fetch_bytes :: "fetch_response \<Rightarrow> int" where
  "fetch_bytes r = sum_list (map (\<lambda>t. sum_list (map (\<lambda>p. case fpr_records p of Some b \<Rightarrow> int (length b) | None \<Rightarrow> 0) (fparts t)))
     (fres_responses r))"

fun total_fetch_record_bytes :: "decoders \<Rightarrow> pending_request list \<Rightarrow> int result" where
  "total_fetch_record_bytes D [] = Ok 0"
| "total_fetch_record_bytes D (p # ps) = (case pstate p of
     Received response _ \<Rightarrow> (case response_body_of D response of
         Some (FetchR r) \<Rightarrow> bind_result (total_fetch_record_bytes D ps) (\<lambda>n. Ok (fetch_bytes r + n))
       | _ \<Rightarrow> Inl (Panic ''must be called on fetch responses''))
   | _ \<Rightarrow> Inl (Panic ''must be called on received responses''))"

subsection \<open>Nothing is lost or made up\<close>

context partitioned_topic
begin

lemma atoms_merge_topic:
  "mset (topic_atoms key parts (merge_topic key parts upd n bs)) = mset (topic_atoms key parts (n # bs))"
  by (induction bs) auto

lemma atoms_merge_topics:
  "mset (topic_atoms key parts (merge_topics key parts upd ns bs)) = mset (topic_atoms key parts (ns @ bs))"
  unfolding merge_topics_def by (induction ns arbitrary: bs) (auto simp: atoms_merge_topic)

lemma distinct_merge_topic:
  "distinct (map key bs) \<Longrightarrow> distinct (map key (merge_topic key parts upd n bs))"
proof -
  have "set (map key (merge_topic key parts upd n bs)) = insert (key n) (set (map key bs))" for bs
    by (induction bs) auto
  then show "distinct (map key bs) \<Longrightarrow> ?thesis" by (induction bs) auto
qed

text \<open>Merging keeps the order of the first appearance of each topic and never lists a topic twice.\<close>

lemma distinct_merge_topics:
  "distinct (map key bs) \<Longrightarrow> distinct (map key (merge_topics key parts upd ns bs))"
  unfolding merge_topics_def by (induction ns arbitrary: bs) (auto simp: distinct_merge_topic)

end

abbreviation answers_with ::
  "decoders \<Rightarrow> (response_body \<Rightarrow> 'b option) \<Rightarrow> response_to_be_combined list \<Rightarrow> 'b list \<Rightarrow> bool" where
  "answers_with D sel drain bs \<equiv> list_all2 (\<lambda>n b. Option.bind (response_body_of D (rc_response n)) sel = Some b) drain bs"

lemma combine_loop_all:
  assumes "answers_with D sel drain bs" and "\<And>d x y. merge d x y = Ok (f x y)"
  shows "combine_loop D sel merge mismatch base drain = Ok (foldl f base bs)"
  using assms(1) by (induction drain bs arbitrary: base rule: list_all2_induct) (auto simp: assms(2))

lemma combine_loop_mismatch:
  assumes "\<exists>n \<in> set drain. Option.bind (response_body_of D (rc_response n)) sel = None"
    and "\<And>d x y. \<exists>z. merge d x y = Ok z"
  shows "combine_loop D sel merge (Some e) base drain = Inl (Err e)"
  using assms(1)
proof (induction drain arbitrary: base)
  case (Cons n ns)
  show ?case
  proof (cases "Option.bind (response_body_of D (rc_response n)) sel")
    case (Some b)
    obtain z where "merge (rc_destination n) base b = Ok z" using assms(2) by blast
    then show ?thesis using Cons Some by auto
  qed simp
qed simp

lemma foldl_stopics_atoms:
  "mset (topic_atoms tname tparts (stopics (foldl (\<lambda>base n. base\<lparr>stopics :=
      merge_topics tname tparts set_tparts (stopics n) (stopics base)\<rparr>) base bs))) =
    mset (topic_atoms tname tparts (concat (map stopics (base # bs))))"
  by (induction bs arbitrary: base) (auto simp: named.atoms_merge_topics)

lemma foldl_fetch_atoms:
  "mset (topic_atoms fkey fparts (fres_responses (foldl (\<lambda>base n. base\<lparr>fres_responses :=
      merge_topics fkey fparts (\<lambda>ps t. t\<lparr>fparts := ps\<rparr>) (fres_responses n) (fres_responses base)\<rparr>) base bs))) =
    mset (topic_atoms fkey fparts (concat (map fres_responses (base # bs))))"
  by (induction bs arbitrary: base) (auto simp: fetch.atoms_merge_topics)

lemma combine_fetch_atoms:
  assumes "answers_with D (\<lambda>b. case b of FetchR r \<Rightarrow> Some r | _ \<Rightarrow> None) drain bs"
  obtains r where "combine_fetch_responses D base drain = Ok r"
    and "mset (topic_atoms fkey fparts (fres_responses r)) = mset (topic_atoms fkey fparts (concat (map fres_responses (base # bs))))"
  using that foldl_fetch_atoms[of base bs] combine_loop_all[OF assms] by (auto simp: combine_fetch_responses_def)

lemma combine_list_offsets_atoms:
  assumes "answers_with D (\<lambda>b. case b of ListOffsetsR r \<Rightarrow> Some r | _ \<Rightarrow> None) drain bs"
  obtains r where "combine_list_offsets_responses D base drain = Ok r"
    and "mset (topic_atoms tname tparts (stopics r)) = mset (topic_atoms tname tparts (concat (map stopics (base # bs))))"
  using that foldl_stopics_atoms[of base bs] combine_loop_all[OF assms] by (auto simp: combine_list_offsets_responses_def)

text \<open>The hash map is the vector of its values, as long as every entry is stored under its own name.\<close>

definition map_ok :: "(string \<times> 'p named_topic) list \<Rightarrow> bool" where
  "map_ok m \<longleftrightarrow> distinct (map fst m) \<and> (\<forall>(k, t) \<in> set m. tname t = k)"

lemma merge_topic_map_vec:
  "map_ok m \<Longrightarrow> map snd (merge_topic_map n m) = merge_topic tname tparts set_tparts n (map snd m)"
proof (induction m)
  case (Cons x m)
  obtain k b where x: "x = (k, b)" by fastforce
  have "map_ok m" "tname b = k" using Cons.prems x by (auto simp: map_ok_def)
  then show ?case using Cons.IH x by (auto simp: merge_topic_map_def split: option.splits)
qed (simp add: merge_topic_map_def)

lemma map_ok_update: "map_ok m \<Longrightarrow> tname t = k \<Longrightarrow> map_ok (AList.update k t m)"
proof -
  assume m: "map_ok m" and t: "tname t = k"
  have "set (AList.update k t m) \<subseteq> insert (k, t) (set m)" by (induction m) auto
  then show ?thesis using m t by (auto simp: map_ok_def distinct_update)
qed

lemma map_ok_merge: "map_ok m \<Longrightarrow> map_ok (merge_topic_map n m)"
proof (cases "map_of m (tname n)")
  case (Some b)
  assume m: "map_ok m"
  then have "tname b = tname n" using map_of_SomeD[OF Some] by (auto simp: map_ok_def)
  then show ?thesis using m Some by (simp add: merge_topic_map_def map_ok_update)
qed (simp add: merge_topic_map_def map_ok_update)

lemma map_ok_fold_merge:
  "map_ok m \<Longrightarrow> map_ok (fold merge_topic_map ts m) \<and>
     map snd (fold merge_topic_map ts m) = merge_topics tname tparts set_tparts ts (map snd m)"
  unfolding merge_topics_def
  by (induction ts arbitrary: m) (auto simp: map_ok_merge merge_topic_map_vec)

lemma topics_to_map_vec:
  assumes "distinct (map tname ts)"
  shows "map_ok (topics_to_map ts)" and "map snd (topics_to_map ts) = ts"
proof -
  have upd: "AList.update k t m = m @ [(k, t)]" if "k \<notin> fst ` set m" for k and t :: "'a named_topic" and m
    using that by (induction m) auto
  have "fold (\<lambda>t. AList.update (tname t) t) ts m = m @ map (\<lambda>t. (tname t, t)) ts"
    if "distinct (map tname ts)" "fst ` set m \<inter> tname ` set ts = {}" for m
    using that
  proof (induction ts arbitrary: m)
    case (Cons t ts)
    then show ?case using upd[of "tname t" m t] by (simp add: Cons.IH)
  qed simp
  from this[OF assms, of "[]"] have eq: "topics_to_map ts = map (\<lambda>t. (tname t, t)) ts"
    by (simp add: topics_to_map_def)
  show "map_ok (topics_to_map ts)" and "map snd (topics_to_map ts) = ts"
    using assms by (auto simp: eq map_ok_def comp_def)
qed

lemma combine_in_map_atoms:
  assumes "order_ok E" and "answers_with (env_dec E) sel drain bs" and "distinct (map tname base)"
  obtains ts where "combine_in_map E sel mismatch base drain = Ok ts"
    and "mset (topic_atoms tname tparts ts) = mset (topic_atoms tname tparts (base @ concat bs))"
proof -
  let ?step = "\<lambda>n m. case Option.bind (response_body_of (env_dec E) (rc_response n)) sel of
           Some ts \<Rightarrow> Ok (fold merge_topic_map ts m) | None \<Rightarrow> Inl (Err mismatch)"
  have "\<exists>m'. fold_result ?step drain m = Ok m' \<and> map_ok m' \<and>
      mset (topic_atoms tname tparts (map snd m')) = mset (topic_atoms tname tparts (map snd m @ concat bs))"
    if "map_ok m" for m
    using assms(2) that
  proof (induction drain bs arbitrary: m rule: list_all2_induct)
    case (Cons n ns b bs)
    have "map_ok (fold merge_topic_map b m)" and
      "map snd (fold merge_topic_map b m) = merge_topics tname tparts set_tparts b (map snd m)"
      using map_ok_fold_merge[OF Cons.prems] by blast+
    then show ?case using Cons.IH[of "fold merge_topic_map b m"] Cons.hyps
      by (auto simp: named.atoms_merge_topics)
  qed simp
  from this[OF topics_to_map_vec(1)[OF assms(3)]] obtain m' where m':
    "fold_result ?step drain (topics_to_map base) = Ok m'" "map_ok m'"
    "mset (topic_atoms tname tparts (map snd m')) = mset (topic_atoms tname tparts (base @ concat bs))"
    using topics_to_map_vec(2)[OF assms(3)] by auto
  have "mset (hash_iter (name_order E) m') = mset m'"
    using assms(1) m'(2) by (intro mset_hash_iter) (auto simp: order_ok_def map_ok_def)
  then have "mset (topic_atoms tname tparts (map snd (hash_iter (name_order E) m'))) = mset (topic_atoms tname tparts (map snd m'))"
    by (intro topic_atoms_mset) (metis mset_map)
  then show ?thesis using that m' by (simp add: combine_in_map_def)
qed

text \<open>The combined response is the base response with another body: it answers the same request.\<close>

lemma combine_responses_keeps:
  assumes "combine_responses E (base # rest) = Ok m"
  shows "request_id m = request_id (rc_response base)" and "id m = id (rc_response base)"
proof -
  obtain v c body m1 body' where f: "frame (env_dec E) (rc_response base) = (Some (FKafka (Response v c body)), m1)"
    and m: "m = invalidate_cache (set_frame (FKafka (Response v c body')) m1)"
    using assms by (auto simp: combine_responses_def bind_result_Inr_iff split: prod.splits option.splits frame.splits kafka_frame.splits)
  show "request_id m = request_id (rc_response base)" and "id m = id (rc_response base)"
    using frame_keeps[of "env_dec E" "rc_response base"] f m by (simp_all add: invalidate_cache_def set_frame_def)
qed

end
