(* ===== verification/Kafka_Response.thy ===== *)
theory Kafka_Response
  imports Kafka_Combine
begin

text \<open>
  Processing a response before it goes back to the client (\<^verbatim>\<open>process_response\<close> and what it calls
  in \<^verbatim>\<open>src/shotover/src/transforms/kafka/sink_cluster/mod.rs\<close>, and \<^verbatim>\<open>api_versions.rs\<close>): learning
  metadata from it, forgetting metadata that turned out to be wrong, and rewriting it so that
  the client sees the shotover cluster in the place of the Kafka cluster.
\<close>

subsection \<open>Supported versions\<close>

definition supported_versions :: "(string \<times> int \<times> int) list" where
  "supported_versions =
    [(''Produce'', 0, 11), (''Fetch'', 0, 16), (''ListOffsets'', 0, 8), (''Metadata'', 0, 12),
     (''OffsetCommit'', 0, 9), (''OffsetFetch'', 0, 9), (''FindCoordinator'', 0, 5), (''JoinGroup'', 0, 9),
     (''Heartbeat'', 0, 4), (''LeaveGroup'', 0, 5), (''SyncGroup'', 0, 5), (''DescribeGroups'', 0, 5),
     (''ListGroups'', 0, 5), (''SaslHandshake'', 0, 1), (''ApiVersions'', 0, 3), (''CreateTopics'', 0, 7),
     (''DeleteTopics'', 0, 6), (''DeleteRecords'', 0, 2), (''InitProducerId'', 0, 5), (''OffsetForLeaderEpoch'', 0, 4),
     (''AddPartitionsToTxn'', 0, 5), (''AddOffsetsToTxn'', 0, 4), (''EndTxn'', 0, 4), (''TxnOffsetCommit'', 0, 4),
     (''CreateAcls'', 0, 3), (''DescribeConfigs'', 0, 4), (''AlterConfigs'', 0, 2), (''DescribeLogDirs'', 0, 4),
     (''SaslAuthenticate'', 0, 2), (''CreatePartitions'', 0, 3), (''DeleteGroups'', 0, 2), (''ElectLeaders'', 0, 2),
     (''AlterPartitionReassignments'', 0, 0), (''ListPartitionReassignments'', 0, 0), (''OffsetDelete'', 0, 0),
     (''AlterPartition'', 0, 3), (''DescribeCluster'', 0, 1), (''DescribeProducers'', 0, 0),
     (''DescribeTransactions'', 0, 0), (''ListTransactions'', 0, 1), (''ConsumerGroupHeartbeat'', 0, 0),
     (''ConsumerGroupDescribe'', 0, 0)]"

definition versions_supported_by_key :: "kafka_env \<Rightarrow> int \<Rightarrow> (int \<times> int) option" where
  "versions_supported_by_key E k = Option.bind (api_key_name E k) (map_of supported_versions)"

text \<open>The \<^verbatim>\<open>retain_mut\<close> of the \<^verbatim>\<open>ApiVersions\<close> response.\<close>

definition clamp_versions :: "kafka_env \<Rightarrow> api_version_entry \<Rightarrow> api_version_entry option" where
  "clamp_versions E e = (case versions_supported_by_key E (av_api_key e) of
     Some (lo, hi) \<Rightarrow> Some (e\<lparr>av_max_version := if av_max_version e > hi then hi else av_max_version e,
                          av_min_version := if av_min_version e < lo then lo else av_min_version e\<rparr>)
   | None \<Rightarrow> None)"

definition rewrite_api_versions :: "kafka_env \<Rightarrow> api_version_entry list \<Rightarrow> api_version_entry list" where
  "rewrite_api_versions E es = List.map_filter (clamp_versions E) es"

subsection \<open>Learning from metadata\<close>

definition sink_add_node :: "kafka_node \<Rightarrow> sink \<Rightarrow> sink" where
  "sink_add_node n s =
    (let shared = add_node_if_new n (nodes_shared s) in s\<lparr>nodes_shared := shared, nodes := shared\<rparr>)"

definition update_local_nodes :: "sink \<Rightarrow> sink" where
  "update_local_nodes s = s\<lparr>nodes := nodes_shared s\<rparr>"

definition node_of_broker :: "response_broker \<Rightarrow> kafka_node" where
  "node_of_broker b = kafka_node_new (rb_node_id b) \<lparr>host = rb_host b, port = rb_port b\<rparr> (rb_rack b)"

definition new_partition :: "sink \<Rightarrow> metadata_partition \<Rightarrow> partition" where
  "new_partition s p = \<lparr>pt_index = mp_partition_index p, pt_leader_epoch = mp_leader_epoch p, pt_leader_id = mp_leader_id p,
     pt_shotover_rack_replica_nodes = filter (broker_within_rack (nodes s) (rack s)) (mp_replica_nodes p),
     pt_external_rack_replica_nodes = filter (\<lambda>b. \<not> broker_within_rack (nodes s) (rack s) b) (mp_replica_nodes p)\<rparr>"

fun update_first :: "('a \<Rightarrow> bool) \<Rightarrow> ('a \<Rightarrow> 'a) \<Rightarrow> 'a list \<Rightarrow> 'a list" where
  "update_first p f [] = []"
| "update_first p f (x # xs) = (if p x then f x # xs else x # update_first p f xs)"

text \<open>A known leader with a more recent epoch is kept; the epoch itself is the one of the response.\<close>

definition keep_newer_leader :: "partition \<Rightarrow> topic \<Rightarrow> topic" where
  "keep_newer_leader old ps =
    update_first (\<lambda>p. pt_index p = pt_index old)
      (\<lambda>p. if pt_leader_epoch old > pt_leader_epoch p
           then p\<lparr>pt_leader_id := pt_leader_id old,
                  pt_shotover_rack_replica_nodes := pt_shotover_rack_replica_nodes old,
                  pt_external_rack_replica_nodes := pt_external_rack_replica_nodes old\<rparr>
           else p) ps"

definition new_partitions :: "sink \<Rightarrow> metadata_topic \<Rightarrow> topic" where
  "new_partitions s t =
    (let ps = sort_key pt_index (map (new_partition s) (mt_partitions t)) in
     case Option.bind (mt_name t) (topic_by_name s) of
       Some old \<Rightarrow> fold keep_newer_leader old ps
     | None \<Rightarrow> ps)"

definition process_metadata_topic :: "kafka_env \<Rightarrow> metadata_topic \<Rightarrow> sink \<Rightarrow> sink" where
  "process_metadata_topic E t s =
    (if try_from_code E (mt_error_code t) = None
     then (let ps = new_partitions s t;
               s1 = (case mt_name t of Some n \<Rightarrow> s\<lparr>topic_by_name := (topic_by_name s)(n \<mapsto> ps)\<rparr> | None \<Rightarrow> s)
           in if mt_topic_id t \<noteq> 0 then s1\<lparr>topic_by_id := (topic_by_id s1)(mt_topic_id t \<mapsto> ps)\<rparr> else s1)
     else s)"

definition process_metadata_response :: "kafka_env \<Rightarrow> metadata_response \<Rightarrow> sink \<Rightarrow> sink" where
  "process_metadata_response E md s =
    (let s1 = fold (\<lambda>b. sink_add_node (node_of_broker b)) (md_brokers md) s;
         s2 = s1\<lparr>controller_broker := abi_set (md_controller_id md) (controller_broker s1)\<rparr>
     in fold (process_metadata_topic E) (md_topics md) s2)"

definition process_describe_cluster_response :: "describe_cluster_response \<Rightarrow> sink \<Rightarrow> sink" where
  "process_describe_cluster_response dc s =
    (let s1 = fold (\<lambda>b. sink_add_node (node_of_broker b)) (dc_brokers dc) s
     in s1\<lparr>controller_broker := abi_set (dc_controller_id dc) (controller_broker s1)\<rparr>)"

definition process_find_coordinator_response ::
  "int \<Rightarrow> string \<Rightarrow> int \<Rightarrow> find_coordinator_response \<Rightarrow> sink \<Rightarrow> sink" where
  "process_find_coordinator_response version key key_type fc s =
    (if key_type = 0
     then (if version \<le> 3
           then (if fcr_error_code fc = 0
                 then s\<lparr>group_to_coordinator_broker := (group_to_coordinator_broker s)(key \<mapsto> fcr_node_id fc)\<rparr> else s)
           else fold (\<lambda>c s. if co_error_code c = 0
                 then s\<lparr>group_to_coordinator_broker := (group_to_coordinator_broker s)(co_key c \<mapsto> co_node_id c)\<rparr> else s)
                (fcr_coordinators fc) s)
     else s)"

subsection \<open>Rewriting to the shotover cluster\<close>

definition up_shotover_nodes :: "sink \<Rightarrow> shotover_node list" where
  "up_shotover_nodes s = filter sn_is_up (shotover_nodes s)"

definition find_broker :: "sink \<Rightarrow> int \<Rightarrow> kafka_node option" where
  "find_broker s b = find (\<lambda>n. kn_broker_id n = b) (nodes s)"

definition rewrite_coordinator :: "kafka_env \<Rightarrow> sink \<Rightarrow> string \<Rightarrow> int \<Rightarrow> shotover_node result" where
  "rewrite_coordinator E s key node_id = (case find_broker s node_id of
     None \<Rightarrow> Inl (Panic ''called Option::unwrap() on a None value'')
   | Some n \<Rightarrow> select_shotover_node_by_hash
       (partition_shotover_nodes_by_rack (up_shotover_nodes s) (kn_rack n)) (hash_str_bytes E key))"

fun rewrite_coordinators :: "kafka_env \<Rightarrow> sink \<Rightarrow> coordinator list \<Rightarrow> coordinator list result" where
  "rewrite_coordinators E s [] = Ok []"
| "rewrite_coordinators E s (c # cs) =
    bind_result (if co_error_code c = 0
        then bind_result (rewrite_coordinator E s (co_key c) (co_node_id c)) (\<lambda>n.
          Ok (c\<lparr>co_host := host (sn_address_for_clients n), co_port := port (sn_address_for_clients n), co_node_id := sn_broker_id n\<rparr>))
        else Ok c) (\<lambda>c'.
    bind_result (rewrite_coordinators E s cs) (\<lambda>cs'. Ok (c' # cs')))"

definition rewrite_find_coordinator_response ::
  "kafka_env \<Rightarrow> int \<Rightarrow> string \<Rightarrow> sink \<Rightarrow> find_coordinator_response \<Rightarrow> find_coordinator_response result" where
  "rewrite_find_coordinator_response E version key s fc =
    (if version \<le> 3
     then (if fcr_error_code fc = 0
           then bind_result (rewrite_coordinator E s key (fcr_node_id fc)) (\<lambda>n.
             Ok (fc\<lparr>fcr_host := host (sn_address_for_clients n), fcr_port := port (sn_address_for_clients n), fcr_node_id := sn_broker_id n\<rparr>))
           else Ok fc)
     else bind_result (rewrite_coordinators E s (fcr_coordinators fc)) (\<lambda>cs. Ok (fc\<lparr>fcr_coordinators := cs\<rparr>)))"

definition shotover_broker :: "shotover_node \<Rightarrow> response_broker" where
  "shotover_broker n = \<lparr>rb_node_id = sn_broker_id n, rb_host = host (sn_address_for_clients n),
     rb_port = port (sn_address_for_clients n), rb_rack = Some (sn_rack n)\<rparr>"

text \<open>The shotover nodes that stand for a list of replicas: a hash set, iterated in its own order.\<close>

definition rewrite_replicas :: "kafka_env \<Rightarrow> sink \<Rightarrow> int list \<Rightarrow> int list" where
  "rewrite_replicas E s bs = map_order E (remdups (concat (map (\<lambda>b. case find_broker s b of
     Some n \<Rightarrow> collect_broker_ids (partition_shotover_nodes_by_rack (up_shotover_nodes s) (kn_rack n))
   | None \<Rightarrow> []) bs)))"

definition rewrite_leader :: "kafka_env \<Rightarrow> sink \<Rightarrow> uuid \<Rightarrow> metadata_partition \<Rightarrow> int result" where
  "rewrite_leader E s topic_id p = (case find_broker s (mp_leader_id p) of
     Some n \<Rightarrow> bind_result (select_shotover_node_by_hash
         (partition_shotover_nodes_by_rack (up_shotover_nodes s) (kn_rack n)) (hash_partition E topic_id (mp_partition_index p)))
         (\<lambda>sn. Ok (sn_broker_id sn))
   | None \<Rightarrow> Ok (- 1))"

definition rewrite_partition :: "kafka_env \<Rightarrow> sink \<Rightarrow> uuid \<Rightarrow> metadata_partition \<Rightarrow> metadata_partition result" where
  "rewrite_partition E s topic_id p = bind_result (rewrite_leader E s topic_id p) (\<lambda>l.
     Ok (p\<lparr>mp_leader_id := l, mp_replica_nodes := rewrite_replicas E s (mp_replica_nodes p),
          mp_isr_nodes := rewrite_replicas E s (mp_isr_nodes p), mp_offline_replicas := []\<rparr>))"

fun map_result :: "('a \<Rightarrow> 'b result) \<Rightarrow> 'a list \<Rightarrow> 'b list result" where
  "map_result f [] = Ok []"
| "map_result f (x # xs) = bind_result (f x) (\<lambda>y. bind_result (map_result f xs) (\<lambda>ys. Ok (y # ys)))"

definition rewrite_controller_id :: "sink \<Rightarrow> int \<Rightarrow> int result" where
  "rewrite_controller_id s b = (case find_broker s b of
     None \<Rightarrow> Ok (- 1)
   | Some n \<Rightarrow> (let g = partition_shotover_nodes_by_rack (up_shotover_nodes s) (kn_rack n) in
       case nodes_in_rack g @ nodes_out_of_rack g of
         [] \<Rightarrow> Inl (Panic ''There will always be at least one up shotover node'')
       | sn # _ \<Rightarrow> Ok (sn_broker_id sn)))"

definition rewrite_metadata_response :: "kafka_env \<Rightarrow> sink \<Rightarrow> metadata_response \<Rightarrow> metadata_response result" where
  "rewrite_metadata_response E s md =
    bind_result (map_result (\<lambda>t. bind_result (map_result (rewrite_partition E s (mt_topic_id t)) (mt_partitions t))
        (\<lambda>ps. Ok (t\<lparr>mt_partitions := ps\<rparr>))) (md_topics md)) (\<lambda>ts.
    bind_result (rewrite_controller_id s (md_controller_id md)) (\<lambda>c.
    Ok (md\<lparr>md_brokers := map shotover_broker (up_shotover_nodes s), md_topics := ts, md_controller_id := c\<rparr>)))"

definition rewrite_describe_cluster_response :: "sink \<Rightarrow> describe_cluster_response \<Rightarrow> describe_cluster_response result" where
  "rewrite_describe_cluster_response s dc =
    bind_result (rewrite_controller_id s (dc_controller_id dc)) (\<lambda>c.
    Ok (dc\<lparr>dc_brokers := map shotover_broker (up_shotover_nodes s), dc_controller_id := c\<rparr>))"

subsection \<open>Forgetting stale metadata\<close>

definition is_error :: "kafka_env \<Rightarrow> response_error \<Rightarrow> int \<Rightarrow> bool" where
  "is_error E e code \<longleftrightarrow> try_from_code E code = Some e"

definition handle_group_coordinator_routing_error :: "kafka_env \<Rightarrow> pending_request_ty \<Rightarrow> int \<Rightarrow> sink \<Rightarrow> sink" where
  "handle_group_coordinator_routing_error E ty code s =
    (if is_error E NotCoordinator code
     then (case ty of RoutedToGroup g \<Rightarrow> s\<lparr>group_to_coordinator_broker := (group_to_coordinator_broker s)(g := None)\<rparr> | _ \<Rightarrow> s)
     else s)"

definition handle_transaction_coordinator_routing_error :: "kafka_env \<Rightarrow> pending_request_ty \<Rightarrow> int \<Rightarrow> sink \<Rightarrow> sink" where
  "handle_transaction_coordinator_routing_error E ty code s =
    (if is_error E NotCoordinator code
     then (case ty of RoutedToTransaction t \<Rightarrow>
       s\<lparr>transaction_to_coordinator_broker := (transaction_to_coordinator_broker s)(t := None)\<rparr> | _ \<Rightarrow> s)
     else s)"

definition remove_topic :: "string \<Rightarrow> sink \<Rightarrow> sink" where
  "remove_topic n s = s\<lparr>topic_by_name := (topic_by_name s)(n := None)\<rparr>"

text \<open>One topic of a produce response: a named new leader is stored, an unknown one clears the topic and ends the loop.\<close>

definition store_leader :: "string \<Rightarrow> produce_partition_res \<Rightarrow> sink \<Rightarrow> sink" where
  "store_leader name p s = (case topic_by_name s name of
     Some tm \<Rightarrow> (case get_i32 tm (ppr_index p) of
         Some stored \<Rightarrow>
           (if cl_leader_epoch (ppr_current_leader p) > pt_leader_epoch stored
            then s\<lparr>topic_by_name := (topic_by_name s)(name \<mapsto>
                   tm[nat (ppr_index p) := stored\<lparr>pt_leader_id := cl_leader_id (ppr_current_leader p),
                                                pt_leader_epoch := cl_leader_epoch (ppr_current_leader p)\<rparr>])\<rparr>
            else s)
       | None \<Rightarrow> s)
   | None \<Rightarrow> s)"

fun produce_leaders :: "kafka_env \<Rightarrow> string \<Rightarrow> produce_partition_res list \<Rightarrow> sink \<Rightarrow> sink" where
  "produce_leaders E name [] s = s"
| "produce_leaders E name (p # ps) s =
    (if is_error E NotLeaderOrFollower (ppr_error_code p)
     then (if cl_leader_id (ppr_current_leader p) \<noteq> - 1 then produce_leaders E name ps (store_leader name p s)
           else remove_topic name s)
     else produce_leaders E name ps s)"

definition process_produce :: "kafka_env \<Rightarrow> produce_response \<Rightarrow> sink \<Rightarrow> produce_response \<times> sink" where
  "process_produce E r s =
    (r\<lparr>pres_node_endpoints := [],
       pres_responses := map (\<lambda>t. t\<lparr>tparts := map (\<lambda>p. p\<lparr>ppr_current_leader := default_leader E\<rparr>) (tparts t)\<rparr>) (pres_responses r)\<rparr>,
     fold (\<lambda>t. produce_leaders E (tname t) (tparts t)) (pres_responses r) s)"

text \<open>One topic of a fetch response: the loop over the partitions ends at the first stale leader.\<close>

fun fetch_partitions :: "kafka_env \<Rightarrow> fetch_partition_res list \<Rightarrow> fetch_partition_res list \<times> bool" where
  "fetch_partitions E [] = ([], False)"
| "fetch_partitions E (p # ps) =
    (let p' = p\<lparr>fpr_current_leader := default_leader E, fpr_preferred_read_replica := - 1\<rparr> in
     if is_error E NotLeaderOrFollower (fpr_error_code p) then (p' # ps, True)
     else (case fetch_partitions E ps of (ps', b) \<Rightarrow> (p' # ps', b)))"

definition process_fetch_topic :: "kafka_env \<Rightarrow> fetch_partition_res fetch_topic \<Rightarrow> sink \<Rightarrow> fetch_partition_res fetch_topic \<times> sink" where
  "process_fetch_topic E t s = (case fetch_partitions E (fparts t) of (ps, stale) \<Rightarrow>
     (t\<lparr>fparts := ps\<rparr>,
      if stale then s\<lparr>topic_by_name := (topic_by_name s)(ftopic t := None), topic_by_id := (topic_by_id s)(ftopic_id t := None)\<rparr>
      else s))"

fun process_fetch_topics ::
  "kafka_env \<Rightarrow> fetch_partition_res fetch_topic list \<Rightarrow> sink \<Rightarrow> fetch_partition_res fetch_topic list \<times> sink" where
  "process_fetch_topics E [] s = ([], s)"
| "process_fetch_topics E (t # ts) s =
    (case process_fetch_topic E t s of (t', s') \<Rightarrow> (case process_fetch_topics E ts s' of (ts', s'') \<Rightarrow> (t' # ts', s'')))"

definition process_fetch :: "kafka_env \<Rightarrow> fetch_response \<Rightarrow> sink \<Rightarrow> fetch_response \<times> sink" where
  "process_fetch E r s = (case process_fetch_topics E (fres_responses r) s of (ts, s') \<Rightarrow>
     (r\<lparr>fres_node_endpoints := [], fres_responses := ts\<rparr>, s'))"

text \<open>Responses of \<^verbatim>\<open>ListOffsets\<close> and \<^verbatim>\<open>OffsetForLeaderEpoch\<close> clear the topics with a stale leader.\<close>

definition clear_stale_topics :: "kafka_env \<Rightarrow> partition_res named_topic list \<Rightarrow> sink \<Rightarrow> sink" where
  "clear_stale_topics E ts s =
    fold (\<lambda>t s. if list_ex (\<lambda>p. is_error E NotLeaderOrFollower (pr_error_code p)) (tparts t) then remove_topic (tname t) s else s) ts s"

definition clear_groups :: "kafka_env \<Rightarrow> group_result list \<Rightarrow> sink \<Rightarrow> sink" where
  "clear_groups E gs s =
    fold (\<lambda>g s. if is_error E NotCoordinator (gr_error_code g)
                then s\<lparr>group_to_coordinator_broker := (group_to_coordinator_broker s)(gr_group_id g := None)\<rparr> else s) gs s"

definition clear_transactions :: "kafka_env \<Rightarrow> txn_result list \<Rightarrow> sink \<Rightarrow> sink" where
  "clear_transactions E ts s =
    fold (\<lambda>t s. if list_ex (list_ex (is_error E NotCoordinator)) (tr_topic_results t)
                then s\<lparr>transaction_to_coordinator_broker := (transaction_to_coordinator_broker s)(tr_transactional_id t := None)\<rparr> else s) ts s"

subsection \<open>Authentication\<close>

definition uses_scram_mechanism :: "sink \<Rightarrow> bool" where
  "uses_scram_mechanism s = (case sasl_mechanism s of Some m \<Rightarrow> m \<in> set sasl_scram_mechanisms | None \<Rightarrow> False)"

definition process_sasl_handshake :: "kafka_env \<Rightarrow> sasl_handshake_response \<Rightarrow> sink \<Rightarrow> sasl_handshake_response" where
  "process_sasl_handshake E r s = r\<lparr>shr_mechanisms := filter (\<lambda>m. m \<notin> set sasl_scram_mechanisms) (shr_mechanisms r),
     shr_error_code := if uses_scram_mechanism s then error_code_of E UnsupportedSaslMechanism else shr_error_code r\<rparr>"

definition scram_next :: "original_scram_state \<Rightarrow> int \<Rightarrow> original_scram_state result" where
  "scram_next st code = (case st of
     WaitingOnServerFirst \<Rightarrow> Ok (if code = 0 then WaitingOnServerFinal else AuthFailed)
   | WaitingOnServerFinal \<Rightarrow> Ok (if code = 0 then AuthSuccess else AuthFailed)
   | _ \<Rightarrow> Inl (Err ''SCRAM protocol does not allow a third sasl response''))"

definition process_sasl_authenticate :: "sasl_authenticate_response \<Rightarrow> bool \<Rightarrow> sink \<Rightarrow> unit result \<times> bool \<times> sink" where
  "process_sasl_authenticate r close s =
    (let close' = (close \<or> sar_error_code r \<noteq> 0) in
     if uses_scram_mechanism s
     then (case authorize_scram_over_mtls s of
         Some a \<Rightarrow> (case scram_next (original_scram_state a) (sar_error_code r) of
             Inr st \<Rightarrow> (Ok (), close', s\<lparr>authorize_scram_over_mtls := Some (a\<lparr>original_scram_state := st\<rparr>)\<rparr>)
           | Inl e \<Rightarrow> (Inl e, close', s))
       | None \<Rightarrow> (Ok (), close', s))
     else (Ok (), close', s))"

subsection \<open>Any response\<close>

text \<open>
  The new body, whether the cache of the message is invalidated, whether the client connection
  is to be closed, and the new state.
\<close>

record processed =
  px_body :: response_body
  px_invalidate :: bool
  px_close :: bool
  px_sink :: sink

definition keep :: "response_body \<Rightarrow> bool \<Rightarrow> sink \<Rightarrow> processed result" where
  "keep b close s = Ok \<lparr>px_body = b, px_invalidate = False, px_close = close, px_sink = s\<rparr>"

definition rewritten :: "response_body \<Rightarrow> bool \<Rightarrow> sink \<Rightarrow> processed result" where
  "rewritten b close s = Ok \<lparr>px_body = b, px_invalidate = True, px_close = close, px_sink = s\<rparr>"

definition code_response_effect :: "kafka_env \<Rightarrow> code_response \<Rightarrow> pending_request_ty \<Rightarrow> int \<Rightarrow> sink \<Rightarrow> sink" where
  "code_response_effect E k ty code s =
    (if k \<in> {EndTxnR, AddOffsetsToTxnR, InitProducerIdR}
     then handle_transaction_coordinator_routing_error E ty code s
     else handle_group_coordinator_routing_error E ty code s)"

definition process_body ::
  "kafka_env \<Rightarrow> int \<Rightarrow> response_body \<Rightarrow> pending_request_ty \<Rightarrow> bool \<Rightarrow> sink \<Rightarrow> processed result" where
  "process_body E version body ty close s = (case body of
     FindCoordinatorR fc \<Rightarrow> (case ty of
         PFindCoordinator key kt \<Rightarrow>
           (let s1 = process_find_coordinator_response version key kt fc s in
            bind_result (rewrite_find_coordinator_response E version key s1 fc) (\<lambda>fc'. rewritten (FindCoordinatorR fc') close s1))
       | _ \<Rightarrow> Inl (Err ''Received find_coordinator but not requested''))
   | SaslHandshakeR h \<Rightarrow>
       (if authorize_scram_over_mtls s = None then rewritten (SaslHandshakeR (process_sasl_handshake E h s)) close s
        else keep body close s)
   | SaslAuthenticateR a \<Rightarrow> (case process_sasl_authenticate a close s of
         (Inr _, close', s') \<Rightarrow> keep body close' s' | (Inl e, _, _) \<Rightarrow> Inl e)
   | ProduceR r \<Rightarrow> (case process_produce E r s of (r', s') \<Rightarrow> rewritten (ProduceR r') close s')
   | FetchR r \<Rightarrow> (case process_fetch E r s of (r', s') \<Rightarrow> rewritten (FetchR r') close s')
   | ListOffsetsR r \<Rightarrow> keep body close (clear_stale_topics E (stopics r) s)
   | OffsetForLeaderEpochR r \<Rightarrow> keep body close (clear_stale_topics E (stopics r) s)
   | CodeResponse k code _ \<Rightarrow> keep body close (code_response_effect E k ty code s)
   | OffsetFetchR r \<Rightarrow> keep body close
       (if version \<le> 7 then handle_group_coordinator_routing_error E ty (ofr_error_code r) s else clear_groups E (ofr_groups r) s)
   | TxnOffsetCommitR codes _ \<Rightarrow> keep body close
       (fold (handle_group_coordinator_routing_error E ty) (concat codes) s)
   | AddPartitionsToTxnR r \<Rightarrow> keep body close
       (if version \<le> 3 then fold (handle_transaction_coordinator_routing_error E ty) (concat (results_by_topic_v3_and_below r)) s
        else clear_transactions E (results_by_transaction r) s)
   | DeleteGroupsR r \<Rightarrow> keep body close (clear_groups E (items r) s)
   | CreateTopicsR codes _ \<Rightarrow> keep body close
       (if list_ex (is_error E NotController) codes then s\<lparr>controller_broker := abi_clear (controller_broker s)\<rparr> else s)
   | MetadataR md \<Rightarrow>
       (let s1 = process_metadata_response E md s in
        bind_result (rewrite_metadata_response E s1 md) (\<lambda>md'. rewritten (MetadataR md') close s1))
   | DescribeClusterR dc \<Rightarrow>
       (let s1 = process_describe_cluster_response dc s in
        bind_result (rewrite_describe_cluster_response s1 dc) (\<lambda>dc'. rewritten (DescribeClusterR dc') close s1))
   | ApiVersionsR es r \<Rightarrow> rewritten (ApiVersionsR (rewrite_api_versions E es) r) close s
   | _ \<Rightarrow> keep body close s)"

definition process_response ::
  "kafka_env \<Rightarrow> message \<Rightarrow> pending_request_ty \<Rightarrow> bool \<Rightarrow> sink \<Rightarrow> (message \<times> bool \<times> sink) result" where
  "process_response E response ty close s = (case frame (env_dec E) response of
     (Some (FKafka (Response v c body)), m) \<Rightarrow>
       bind_result (process_body E v body ty close s) (\<lambda>p.
       Ok (let m1 = set_frame (FKafka (Response v c (px_body p))) m in if px_invalidate p then invalidate_cache m1 else m1,
           px_close p, px_sink p))
   | (_, m) \<Rightarrow> Ok (m, close, s))"

subsection \<open>What the rewritten metadata shows\<close>

definition up_ids :: "sink \<Rightarrow> int set" where
  "up_ids s = sn_broker_id ` set (up_shotover_nodes s)"

lemma map_result_ok:
  assumes "\<And>x. x \<in> set xs \<Longrightarrow> \<exists>y. f x = Ok y \<and> P x y"
  shows "\<exists>ys. map_result f xs = Ok ys \<and> list_all2 P xs ys"
  using assms by (induction xs) (fastforce simp: bind_result_def)+

lemma select_up_ok:
  assumes "up_shotover_nodes s \<noteq> []"
  shows "\<exists>n. select_shotover_node_by_hash (partition_shotover_nodes_by_rack (up_shotover_nodes s) r) h = Ok n
             \<and> n \<in> set (rack_or_all (partition_shotover_nodes_by_rack (up_shotover_nodes s) r)) \<and> n \<in> set (up_shotover_nodes s)"
  using select_shotover_node_ok[OF assms, of r h] set_rack_or_all(2)[of "up_shotover_nodes s" r] by auto

text \<open>A shotover node stands for a broker: it is up, and in the rack of the broker when that rack has an up node.\<close>

definition stands_for :: "sink \<Rightarrow> kafka_node \<Rightarrow> shotover_node \<Rightarrow> bool" where
  "stands_for s b n \<longleftrightarrow> n \<in> set (up_shotover_nodes s) \<and>
     (\<forall>r. kn_rack b = Some r \<longrightarrow> (\<exists>m \<in> set (up_shotover_nodes s). sn_rack m = r) \<longrightarrow> sn_rack n = r)"

lemma stands_for_rack_or_all:
  "n \<in> set (rack_or_all (partition_shotover_nodes_by_rack (up_shotover_nodes s) (kn_rack b))) \<Longrightarrow> stands_for s b n"
  using set_rack_or_all(2)[of "up_shotover_nodes s" "kn_rack b"]
  by (auto simp: stands_for_def dest: rack_or_all_in_rack)

definition leader_ok :: "sink \<Rightarrow> int \<Rightarrow> int \<Rightarrow> bool" where
  "leader_ok s old new \<longleftrightarrow> (case find_broker s old of
     None \<Rightarrow> new = - 1
   | Some b \<Rightarrow> \<exists>n. stands_for s b n \<and> new = sn_broker_id n)"

lemma rewrite_leader_ok:
  assumes "up_shotover_nodes s \<noteq> []"
  shows "\<exists>l. rewrite_leader E s u p = Ok l \<and> leader_ok s (mp_leader_id p) l"
proof (cases "find_broker s (mp_leader_id p)")
  case (Some b)
  obtain n where "select_shotover_node_by_hash (partition_shotover_nodes_by_rack (up_shotover_nodes s) (kn_rack b))
      (hash_partition E u (mp_partition_index p)) = Ok n" and "stands_for s b n"
    using select_up_ok[OF assms, of "kn_rack b"] stands_for_rack_or_all[of _ s b] by metis
  then show ?thesis using Some by (auto simp: rewrite_leader_def leader_ok_def)
qed (simp add: rewrite_leader_def leader_ok_def)

lemma rewrite_controller_id_ok:
  assumes "up_shotover_nodes s \<noteq> []"
  shows "\<exists>c. rewrite_controller_id s b = Ok c \<and> leader_ok s b c"
proof (cases "find_broker s b")
  case (Some n)
  let ?g = "partition_shotover_nodes_by_rack (up_shotover_nodes s) (kn_rack n)"
  have ne: "rack_or_all ?g \<noteq> []" by (rule set_rack_or_all(1)[OF assms])
  then have hd_eq: "nodes_in_rack ?g @ nodes_out_of_rack ?g = hd (rack_or_all ?g) # tl (nodes_in_rack ?g @ nodes_out_of_rack ?g)"
    by (cases "nodes_in_rack ?g") (auto simp: rack_or_all_def)
  have "stands_for s n (hd (rack_or_all ?g))" by (rule stands_for_rack_or_all) (simp add: ne)
  then show ?thesis using Some using hd_eq
    by (cases "nodes_in_rack ?g @ nodes_out_of_rack ?g") (auto simp: rewrite_controller_id_def leader_ok_def Let_def)
qed (simp add: rewrite_controller_id_def leader_ok_def)

lemma rewrite_replicas_set:
  assumes "order_ok E"
  shows "set (rewrite_replicas E s bs) =
    (\<Union>b \<in> set bs. case find_broker s b of None \<Rightarrow> {}
       | Some n \<Rightarrow> sn_broker_id ` set (rack_or_all (partition_shotover_nodes_by_rack (up_shotover_nodes s) (kn_rack n))))"
proof -
  have "set (map_order E ks) = set ks" for ks
    using assms by (auto simp: order_ok_def intro!: mset_eq_setD)
  then have "set (rewrite_replicas E s bs) = (\<Union>b \<in> set bs. set (case find_broker s b of
     Some n \<Rightarrow> collect_broker_ids (partition_shotover_nodes_by_rack (up_shotover_nodes s) (kn_rack n)) | None \<Rightarrow> []))"
    by (simp add: rewrite_replicas_def)
  also have "\<dots> = (\<Union>b \<in> set bs. case find_broker s b of None \<Rightarrow> {}
       | Some n \<Rightarrow> sn_broker_id ` set (rack_or_all (partition_shotover_nodes_by_rack (up_shotover_nodes s) (kn_rack n))))"
    by (intro SUP_cong) (simp_all add: collect_broker_ids_def split: option.split)
  finally show ?thesis .
qed

lemma rewrite_replicas_distinct:
  "order_ok E \<Longrightarrow> distinct (rewrite_replicas E s bs)"
  unfolding rewrite_replicas_def order_ok_def by (metis distinct_remdups mset_eq_imp_distinct_iff)

lemma rewrite_replicas_up:
  "order_ok E \<Longrightarrow> set (rewrite_replicas E s bs) \<subseteq> up_ids s"
  using set_rack_or_all(2)[of "up_shotover_nodes s"]
  by (fastforce simp: rewrite_replicas_set up_ids_def split: option.splits)

text \<open>What the client sees of one partition and of one topic.\<close>

definition partition_hidden :: "sink \<Rightarrow> metadata_partition \<Rightarrow> metadata_partition \<Rightarrow> bool" where
  "partition_hidden s p q \<longleftrightarrow>
     mp_partition_index q = mp_partition_index p \<and> mp_error_code q = mp_error_code p \<and> mp_leader_epoch q = mp_leader_epoch p \<and>
     leader_ok s (mp_leader_id p) (mp_leader_id q) \<and>
     distinct (mp_replica_nodes q) \<and> distinct (mp_isr_nodes q) \<and>
     set (mp_replica_nodes q) \<subseteq> up_ids s \<and> set (mp_isr_nodes q) \<subseteq> up_ids s \<and> mp_offline_replicas q = []"

definition topic_hidden :: "sink \<Rightarrow> metadata_topic \<Rightarrow> metadata_topic \<Rightarrow> bool" where
  "topic_hidden s t t' \<longleftrightarrow> t' = t\<lparr>mt_partitions := mt_partitions t'\<rparr> \<and>
     list_all2 (partition_hidden s) (mt_partitions t) (mt_partitions t')"

lemma rewrite_partition_ok:
  assumes "order_ok E" and "up_shotover_nodes s \<noteq> []"
  shows "\<exists>q. rewrite_partition E s u p = Ok q \<and> partition_hidden s p q"
  using rewrite_leader_ok[OF assms(2), of E u p] rewrite_replicas_distinct[OF assms(1)] rewrite_replicas_up[OF assms(1)]
  by (auto simp: rewrite_partition_def partition_hidden_def bind_result_def)

lemma rewrite_topic_ok:
  assumes "order_ok E" and "up_shotover_nodes s \<noteq> []"
  shows "\<exists>t'. bind_result (map_result (rewrite_partition E s (mt_topic_id t)) (mt_partitions t))
           (\<lambda>ps. Ok (t\<lparr>mt_partitions := ps\<rparr>)) = Ok t' \<and> topic_hidden s t t'"
  using map_result_ok[of "mt_partitions t" "rewrite_partition E s (mt_topic_id t)" "partition_hidden s"]
    rewrite_partition_ok[OF assms]
  by (auto simp: topic_hidden_def bind_result_def)

lemma rewrite_metadata_hides:
  assumes "order_ok E" and "up_shotover_nodes s \<noteq> []"
  shows "\<exists>md'. rewrite_metadata_response E s md = Ok md' \<and>
     md_brokers md' = map shotover_broker (up_shotover_nodes s) \<and>
     leader_ok s (md_controller_id md) (md_controller_id md') \<and>
     list_all2 (topic_hidden s) (md_topics md) (md_topics md') \<and> md_rest md' = md_rest md"
proof -
  let ?f = "\<lambda>t. bind_result (map_result (rewrite_partition E s (mt_topic_id t)) (mt_partitions t)) (\<lambda>ps. Ok (t\<lparr>mt_partitions := ps\<rparr>))"
  obtain ts where "map_result ?f (md_topics md) = Ok ts" "list_all2 (topic_hidden s) (md_topics md) ts"
    using map_result_ok[of "md_topics md" ?f "topic_hidden s"] rewrite_topic_ok[OF assms] by blast
  moreover obtain c where "rewrite_controller_id s (md_controller_id md) = Ok c" "leader_ok s (md_controller_id md) c"
    using rewrite_controller_id_ok[OF assms(2)] by blast
  ultimately show ?thesis by (simp add: rewrite_metadata_response_def)
qed

text \<open>
  Two shotover instances that agree on the up shotover nodes and on the racks of the brokers
  name the same leader for every partition.
\<close>

definition same_view :: "sink \<Rightarrow> sink \<Rightarrow> bool" where
  "same_view s s' \<longleftrightarrow> up_shotover_nodes s = up_shotover_nodes s' \<and>
     (\<forall>b. map_option kn_rack (find_broker s b) = map_option kn_rack (find_broker s' b))"

lemma same_view_cases:
  assumes "same_view s s'"
  obtains (unknown) "find_broker s b = None" "find_broker s' b = None"
  | (known) n n' where "find_broker s b = Some n" "find_broker s' b = Some n'" "kn_rack n = kn_rack n'"
proof -
  have "map_option kn_rack (find_broker s b) = map_option kn_rack (find_broker s' b)" using assms by (simp add: same_view_def)
  then show ?thesis using that by (cases "find_broker s b"; cases "find_broker s' b") simp_all
qed

lemma same_view_up: "same_view s s' \<Longrightarrow> up_shotover_nodes s = up_shotover_nodes s'"
  by (simp add: same_view_def)

lemma rewrite_leader_same:
  assumes "same_view s s'"
  shows "rewrite_leader E s u p = rewrite_leader E s' u p"
  by (rule same_view_cases[OF assms, of "mp_leader_id p"]) (simp_all add: rewrite_leader_def same_view_up[OF assms])

lemma rewrite_replicas_same:
  assumes "same_view s s'"
  shows "rewrite_replicas E s bs = rewrite_replicas E s' bs"
proof -
  have "(case find_broker s b of Some n \<Rightarrow> collect_broker_ids (partition_shotover_nodes_by_rack (up_shotover_nodes s) (kn_rack n)) | None \<Rightarrow> [])
      = (case find_broker s' b of Some n \<Rightarrow> collect_broker_ids (partition_shotover_nodes_by_rack (up_shotover_nodes s') (kn_rack n)) | None \<Rightarrow> [])" for b
    by (rule same_view_cases[OF assms, of b]) (simp_all add: same_view_up[OF assms])
  then show ?thesis by (simp add: rewrite_replicas_def)
qed

lemma rewrite_controller_id_same:
  assumes "same_view s s'"
  shows "rewrite_controller_id s b = rewrite_controller_id s' b"
  by (rule same_view_cases[OF assms, of b]) (simp_all add: rewrite_controller_id_def same_view_up[OF assms])

lemma rewrite_metadata_same:
  assumes "same_view s s'"
  shows "rewrite_metadata_response E s md = rewrite_metadata_response E s' md"
proof -
  have "rewrite_partition E s u = rewrite_partition E s' u" for u
    by (rule ext) (simp add: rewrite_partition_def rewrite_leader_same[OF assms] rewrite_replicas_same[OF assms])
  then show ?thesis using assms
    by (simp add: rewrite_metadata_response_def rewrite_controller_id_same[OF assms] same_view_def)
qed

subsection \<open>Coordinators\<close>

lemma rewrite_coordinator_ok:
  assumes "up_shotover_nodes s \<noteq> []" and "find_broker s b = Some n"
  shows "\<exists>sn. rewrite_coordinator E s key b = Ok sn \<and> stands_for s n sn"
  using select_up_ok[OF assms(1), of "kn_rack n" "hash_str_bytes E key"] stands_for_rack_or_all assms(2)
  by (auto simp: rewrite_coordinator_def)

lemma rewrite_coordinator_unknown:
  "find_broker s b = None \<Longrightarrow> rewrite_coordinator E s key b = Inl (Panic ''called Option::unwrap() on a None value'')"
  by (simp add: rewrite_coordinator_def)

text \<open>What the client sees of one coordinator.\<close>

definition coordinator_hidden :: "sink \<Rightarrow> coordinator \<Rightarrow> coordinator \<Rightarrow> bool" where
  "coordinator_hidden s c c' \<longleftrightarrow>
     (if co_error_code c \<noteq> 0 then c' = c
      else \<exists>b n. find_broker s (co_node_id c) = Some b \<and> stands_for s b n \<and>
        c' = c\<lparr>co_host := host (sn_address_for_clients n), co_port := port (sn_address_for_clients n), co_node_id := sn_broker_id n\<rparr>)"

lemma rewrite_coordinators_ok:
  assumes "up_shotover_nodes s \<noteq> []"
    and "\<And>c. c \<in> set cs \<Longrightarrow> co_error_code c = 0 \<Longrightarrow> find_broker s (co_node_id c) \<noteq> None"
  shows "\<exists>cs'. rewrite_coordinators E s cs = Ok cs' \<and> list_all2 (coordinator_hidden s) cs cs'"
  using assms(2)
proof (induction cs)
  case (Cons c cs)
  then obtain cs' where rest: "rewrite_coordinators E s cs = Ok cs'" "list_all2 (coordinator_hidden s) cs cs'" by auto
  show ?case
  proof (cases "co_error_code c = 0")
    case True
    then obtain b where b: "find_broker s (co_node_id c) = Some b" using Cons.prems[of c] by auto
    obtain n where "rewrite_coordinator E s (co_key c) (co_node_id c) = Ok n" "stands_for s b n"
      using rewrite_coordinator_ok[OF assms(1) b] by blast
    moreover have "coordinator_hidden s c (c\<lparr>co_host := host (sn_address_for_clients n),
        co_port := port (sn_address_for_clients n), co_node_id := sn_broker_id n\<rparr>)"
      unfolding coordinator_hidden_def using True b \<open>stands_for s b n\<close> by auto
    ultimately show ?thesis using True rest by simp
  next
    case False
    then have "coordinator_hidden s c c" by (simp add: coordinator_hidden_def)
    then show ?thesis using False rest by simp
  qed
qed simp

subsection \<open>Advertised versions\<close>

definition advertises :: "api_version_entry list \<Rightarrow> int \<Rightarrow> int \<Rightarrow> bool" where
  "advertises es k v \<longleftrightarrow> (\<exists>e \<in> set es. av_api_key e = k \<and> av_min_version e \<le> v \<and> v \<le> av_max_version e)"

definition supports :: "kafka_env \<Rightarrow> int \<Rightarrow> int \<Rightarrow> bool" where
  "supports E k v \<longleftrightarrow> (case versions_supported_by_key E k of Some (lo, hi) \<Rightarrow> lo \<le> v \<and> v \<le> hi | None \<Rightarrow> False)"

lemma clamp_versions_range:
  "(\<exists>e'. clamp_versions E e = Some e' \<and> av_api_key e' = k \<and> av_min_version e' \<le> v \<and> v \<le> av_max_version e') \<longleftrightarrow>
   av_api_key e = k \<and> av_min_version e \<le> v \<and> v \<le> av_max_version e \<and> supports E k v"
  by (auto simp: clamp_versions_def supports_def split: option.splits)

lemma advertises_rewritten:
  "advertises (rewrite_api_versions E es) k v \<longleftrightarrow> advertises es k v \<and> supports E k v"
proof -
  have "advertises (rewrite_api_versions E es) k v \<longleftrightarrow>
      (\<exists>e \<in> set es. \<exists>e'. clamp_versions E e = Some e' \<and> av_api_key e' = k \<and> av_min_version e' \<le> v \<and> v \<le> av_max_version e')"
    by (force simp: advertises_def rewrite_api_versions_def List.map_filter_def)
  then show ?thesis unfolding clamp_versions_range by (auto simp: advertises_def)
qed

subsection \<open>The learned metadata\<close>

text \<open>
  The router finds a partition by its position.  That is right when the partitions of a topic
  are numbered from 0 without gaps, as Kafka numbers them, and stored in this order.
\<close>

definition topic_ok :: "topic \<Rightarrow> bool" where
  "topic_ok t \<longleftrightarrow> map pt_index t = map int [0..<length t]"

definition topics_ok :: "sink \<Rightarrow> bool" where
  "topics_ok s \<longleftrightarrow> (\<forall>t \<in> ran (topic_by_name s). topic_ok t) \<and> (\<forall>t \<in> ran (topic_by_id s). topic_ok t)"

definition gapless :: "metadata_topic \<Rightarrow> bool" where
  "gapless t \<longleftrightarrow> mset (map mp_partition_index (mt_partitions t)) = mset (map int [0..<length (mt_partitions t)])"

lemma update_first_map:
  "(\<And>x. p x \<Longrightarrow> g (f x) = g x) \<Longrightarrow> map g (update_first p f xs) = map g xs"
  by (induction xs) auto

lemma keep_newer_leader_index [simp]: "map pt_index (keep_newer_leader old ps) = map pt_index ps"
  unfolding keep_newer_leader_def by (rule update_first_map) simp

lemma keep_newer_leader_epoch [simp]: "map pt_leader_epoch (keep_newer_leader old ps) = map pt_leader_epoch ps"
  unfolding keep_newer_leader_def by (rule update_first_map) simp

lemma fold_keep_newer_leader [simp]:
  "map pt_index (fold keep_newer_leader old ps) = map pt_index ps"
  "map pt_leader_epoch (fold keep_newer_leader old ps) = map pt_leader_epoch ps"
  by (induction old arbitrary: ps) auto

lemma new_partitions_index:
  "map pt_index (new_partitions s t) = sort (map mp_partition_index (mt_partitions t))"
proof -
  have "map pt_index (sort_key pt_index (map (new_partition s) (mt_partitions t))) = sort (map mp_partition_index (mt_partitions t))"
    by (rule properties_for_sort[symmetric]) (simp_all add: new_partition_def image_mset.compositionality o_def)
  then show ?thesis by (simp add: new_partitions_def Let_def split: option.split)
qed

lemma new_partitions_ok:
  assumes "gapless t"
  shows "topic_ok (new_partitions s t)"
proof -
  let ?n = "length (mt_partitions t)"
  have "sorted (map int [0..<?n])" by (simp add: sorted_wrt_map flip: sorted_wrt_upt)
  then have "sort (map mp_partition_index (mt_partitions t)) = map int [0..<?n]"
    using assms by (intro properties_for_sort) (simp_all add: gapless_def)
  moreover have "length (new_partitions s t) = ?n"
    using arg_cong[OF new_partitions_index[of s t], of length] by simp
  ultimately show ?thesis by (simp add: topic_ok_def new_partitions_index)
qed

lemma process_metadata_topic_ok:
  assumes "topics_ok s" and "gapless t"
  shows "topics_ok (process_metadata_topic E t s)"
  using assms(1) new_partitions_ok[OF assms(2), of s]
  by (auto simp: process_metadata_topic_def topics_ok_def Let_def ran_def split: option.splits if_splits)

lemma sink_add_node_topics [simp]:
  "topic_by_name (sink_add_node n s) = topic_by_name s" "topic_by_id (sink_add_node n s) = topic_by_id s"
  by (simp_all add: sink_add_node_def Let_def)

lemma fold_add_node_topics [simp]:
  "topic_by_name (fold (\<lambda>b. sink_add_node (f b)) bs s) = topic_by_name s"
  "topic_by_id (fold (\<lambda>b. sink_add_node (f b)) bs s) = topic_by_id s"
  by (induction bs arbitrary: s) auto

lemma process_metadata_response_ok:
  assumes "topics_ok s" and "\<And>t. t \<in> set (md_topics md) \<Longrightarrow> gapless t"
  shows "topics_ok (process_metadata_response E md s)"
proof -
  have "topics_ok (fold (process_metadata_topic E) ts s')" if "topics_ok s'" "\<And>t. t \<in> set ts \<Longrightarrow> gapless t" for ts s'
    using that by (induction ts arbitrary: s') (auto intro: process_metadata_topic_ok)
  moreover have "topics_ok (fold (\<lambda>b. sink_add_node (node_of_broker b)) (md_brokers md) s
      \<lparr>controller_broker := abi_set (md_controller_id md) (controller_broker (fold (\<lambda>b. sink_add_node (node_of_broker b)) (md_brokers md) s))\<rparr>)"
    using assms(1) by (simp add: topics_ok_def)
  ultimately show ?thesis using assms(2) by (simp add: process_metadata_response_def Let_def)
qed

lemma topic_ok_nth:
  assumes "topic_ok t" and "i < length t"
  shows "pt_index (t ! i) = int i"
  using arg_cong[OF assms(1)[unfolded topic_ok_def], of "\<lambda>xs. xs ! i"] assms(2) by simp

lemma topic_ok_lookup:
  assumes "topic_ok t"
  shows "get_i32 t i = find (\<lambda>p. pt_index p = i) t"
proof (cases "0 \<le> i \<and> nat i < length t")
  case True
  have "find (\<lambda>p. pt_index p = i) t = Some (t ! nat i)"
    unfolding find_Some_iff using True topic_ok_nth[OF assms] by (intro exI[of _ "nat i"]) auto
  then show ?thesis using True by (simp add: get_i32_def get_def)
next
  case False
  have "find (\<lambda>p. pt_index p = i) t = None"
    unfolding find_None_iff in_set_conv_nth using False topic_ok_nth[OF assms] by auto
  then show ?thesis using False by (auto simp: get_i32_def get_def)
qed

text \<open>Every broker of the response is known afterwards, in the shared list and in the local one.\<close>

lemma fold_add_node_shared:
  "nodes_ok (nodes_shared s) \<Longrightarrow> bs \<noteq> [] \<Longrightarrow>
   nodes (fold (\<lambda>b. sink_add_node (node_of_broker b)) bs s) = nodes_shared (fold (\<lambda>b. sink_add_node (node_of_broker b)) bs s)"
  by (induction bs rule: rev_induct) (simp_all add: sink_add_node_def Let_def)

lemma fold_add_node_ok:
  "nodes_ok (nodes_shared s) \<Longrightarrow> nodes_ok (nodes_shared (fold (\<lambda>b. sink_add_node (node_of_broker b)) bs s))"
  by (induction bs arbitrary: s) (simp_all add: sink_add_node_def Let_def add_node_if_new_ok)

lemma fold_add_node_ids:
  "kn_broker_id ` set (nodes_shared (fold (\<lambda>b. sink_add_node (node_of_broker b)) bs s))
   = kn_broker_id ` set (nodes_shared s) \<union> rb_node_id ` set bs"
  by (induction bs arbitrary: s)
    (auto simp: sink_add_node_def Let_def add_node_if_new_ids node_of_broker_def kafka_node_new_def)

lemma process_metadata_topics_nodes:
  "nodes (fold (process_metadata_topic E) ts s) = nodes s"
  "nodes_shared (fold (process_metadata_topic E) ts s) = nodes_shared s"
  "controller_broker (fold (process_metadata_topic E) ts s) = controller_broker s"
  by (induction ts arbitrary: s) (auto simp: process_metadata_topic_def Let_def split: option.splits)

text \<open>The leader that is stored for a partition is the one with the newer epoch.\<close>

lemma keep_newer_leader_at:
  assumes "distinct (map pt_index ps)" and "p \<in> set ps"
  shows "(if pt_index p = pt_index old \<and> pt_leader_epoch old > pt_leader_epoch p
      then p\<lparr>pt_leader_id := pt_leader_id old, pt_shotover_rack_replica_nodes := pt_shotover_rack_replica_nodes old,
             pt_external_rack_replica_nodes := pt_external_rack_replica_nodes old\<rparr> else p) \<in> set (keep_newer_leader old ps)"
  using assms unfolding keep_newer_leader_def by (induction ps) (auto simp: image_iff)

definition merge_old :: "partition option \<Rightarrow> partition \<Rightarrow> partition" where
  "merge_old old p = (case old of
     Some q \<Rightarrow> (if pt_leader_epoch q > pt_leader_epoch p
       then p\<lparr>pt_leader_id := pt_leader_id q, pt_shotover_rack_replica_nodes := pt_shotover_rack_replica_nodes q,
              pt_external_rack_replica_nodes := pt_external_rack_replica_nodes q\<rparr> else p)
   | None \<Rightarrow> p)"

lemma merge_old_fields [simp]:
  "pt_index (merge_old q p) = pt_index p" "pt_leader_epoch (merge_old q p) = pt_leader_epoch p"
  by (simp_all add: merge_old_def split: option.split)

lemma fold_keep_newer_leader_at:
  assumes "distinct (map pt_index ps)" and "distinct (map pt_index old)" and "p \<in> set ps"
  shows "merge_old (find (\<lambda>q. pt_index q = pt_index p) old) p \<in> set (fold keep_newer_leader old ps)"
  using assms
proof (induction old arbitrary: ps p)
  case (Cons q old)
  let ?p = "if pt_index p = pt_index q then merge_old (Some q) p else p"
  have "?p \<in> set (keep_newer_leader q ps)"
    using keep_newer_leader_at[OF Cons.prems(1,3), of q] by (auto simp: merge_old_def split: if_splits)
  moreover have "find (\<lambda>r. pt_index r = pt_index p) old = None" if "pt_index p = pt_index q"
    using Cons.prems(2) that by (auto simp: find_None_iff image_iff)
  ultimately show ?case
    using Cons.IH[of "keep_newer_leader q ps" ?p] Cons.prems(1,2) by (auto simp: merge_old_def split: if_splits)
qed (simp add: merge_old_def)

definition known_partitions :: "sink \<Rightarrow> metadata_topic \<Rightarrow> topic" where
  "known_partitions s t = (case Option.bind (mt_name t) (topic_by_name s) of Some old \<Rightarrow> old | None \<Rightarrow> [])"

lemma new_partitions_known:
  "new_partitions s t = fold keep_newer_leader (known_partitions s t) (sort_key pt_index (map (new_partition s) (mt_partitions t)))"
  by (simp add: new_partitions_def known_partitions_def Let_def split: option.split)

lemma topic_ok_distinct: "topic_ok t \<Longrightarrow> distinct (map pt_index t)"
  by (simp add: topic_ok_def distinct_map)

lemma gapless_distinct:
  assumes "gapless t"
  shows "distinct (map mp_partition_index (mt_partitions t))"
proof -
  have "distinct (map int [0..<length (mt_partitions t)])" by (simp add: distinct_map)
  then show ?thesis using assms mset_eq_imp_distinct_iff unfolding gapless_def by metis
qed

lemma new_partitions_at:
  assumes "gapless t" and "topic_ok (known_partitions s t)" and "p \<in> set (mt_partitions t)"
  shows "get_i32 (new_partitions s t) (mp_partition_index p) =
    Some (merge_old (get_i32 (known_partitions s t) (mp_partition_index p)) (new_partition s p))"
proof -
  let ?ps = "sort_key pt_index (map (new_partition s) (mt_partitions t))"
  let ?q = "merge_old (get_i32 (known_partitions s t) (mp_partition_index p)) (new_partition s p)"
  have idx: "pt_index (new_partition s p) = mp_partition_index p" for p by (simp add: new_partition_def)
  have "distinct (map pt_index ?ps)"
    unfolding distinct_map_sort_key using gapless_distinct[OF assms(1)] by (simp add: idx o_def)
  moreover have "new_partition s p \<in> set ?ps" using assms(3) by simp
  ultimately have "?q \<in> set (new_partitions s t)"
    using fold_keep_newer_leader_at[of ?ps "known_partitions s t" "new_partition s p"] topic_ok_distinct[OF assms(2)]
    by (simp add: new_partitions_known idx topic_ok_lookup[OF assms(2)])
  then obtain i where i: "i < length (new_partitions s t)" "new_partitions s t ! i = ?q" by (metis in_set_conv_nth)
  then have "int i = mp_partition_index p" using topic_ok_nth[OF new_partitions_ok[OF assms(1)] i(1)] by (simp add: idx)
  moreover have "get_i32 (new_partitions s t) (int i) = Some ?q" using i by (simp add: get_i32_def[of "new_partitions s t"] get_def)
  ultimately show ?thesis by simp
qed

subsection \<open>Leaders named by produce responses\<close>

lemma store_leader_effect:
  assumes "topic_by_name s name = Some tm" and "get_i32 tm (ppr_index p) = Some q"
  shows "\<exists>tm' q'. topic_by_name (store_leader name p s) name = Some tm' \<and> get_i32 tm' (ppr_index p) = Some q' \<and>
     pt_leader_epoch q' = max (pt_leader_epoch q) (cl_leader_epoch (ppr_current_leader p)) \<and>
     pt_leader_id q' = (if cl_leader_epoch (ppr_current_leader p) > pt_leader_epoch q
                        then cl_leader_id (ppr_current_leader p) else pt_leader_id q)"
  using assms by (auto simp: store_leader_def get_i32_def get_def split: if_splits)

subsection \<open>What processing a response leaves alone\<close>

text \<open>The queue of pending requests, the connections and the counters are never touched.\<close>

definition same_core :: "sink \<Rightarrow> sink \<Rightarrow> bool" where
  "same_core s s' \<longleftrightarrow> pending_requests s' = pending_requests s \<and> sink_connections s' = sink_connections s \<and>
     id_counter s' = id_counter s \<and> rng s' = rng s \<and> shotover_nodes s' = shotover_nodes s \<and> rack s' = rack s \<and>
     first_contact_points s' = first_contact_points s \<and> auth_complete s' = auth_complete s \<and>
     auth_requests s' = auth_requests s \<and> sasl_mechanism s' = sasl_mechanism s \<and> refetch_backoff s' = refetch_backoff s \<and>
     broker_id s' = broker_id s \<and>
     map_option scram_timeout (authorize_scram_over_mtls s') = map_option scram_timeout (authorize_scram_over_mtls s)"

lemma same_core_refl [simp, intro]: "same_core s s"
  by (simp add: same_core_def)

lemma same_core_trans: "same_core s s' \<Longrightarrow> same_core s' s'' \<Longrightarrow> same_core s s''"
  by (simp add: same_core_def)

lemma same_core_fold: "(\<And>x s. same_core s (f x s)) \<Longrightarrow> same_core s (fold f xs s)"
  by (induction xs arbitrary: s) (auto intro: same_core_trans)

lemma same_core_add_node: "same_core s (sink_add_node n s)"
  by (simp add: same_core_def sink_add_node_def Let_def)

lemma same_core_metadata_topic: "same_core s (process_metadata_topic E t s)"
  by (simp add: same_core_def process_metadata_topic_def Let_def split: option.split)

lemma same_core_controller: "same_core s s' \<Longrightarrow> same_core s (s'\<lparr>controller_broker := c\<rparr>)"
  by (simp add: same_core_def)

lemma same_core_metadata: "same_core s (process_metadata_response E md s)"
  unfolding process_metadata_response_def Let_def
  by (rule same_core_trans[OF same_core_controller[OF same_core_fold[OF same_core_add_node]] same_core_fold[OF same_core_metadata_topic]])

lemma same_core_describe_cluster: "same_core s (process_describe_cluster_response dc s)"
  unfolding process_describe_cluster_response_def Let_def
  by (rule same_core_controller[OF same_core_fold[OF same_core_add_node]])

lemma same_core_find_coordinator: "same_core s (process_find_coordinator_response v k kt fc s)"
  unfolding process_find_coordinator_response_def
  by (auto intro!: same_core_fold) (auto simp: same_core_def)

lemma same_core_group_error: "same_core s (handle_group_coordinator_routing_error E ty code s)"
  by (simp add: same_core_def handle_group_coordinator_routing_error_def split: pending_request_ty.split)

lemma same_core_transaction_error: "same_core s (handle_transaction_coordinator_routing_error E ty code s)"
  by (simp add: same_core_def handle_transaction_coordinator_routing_error_def split: pending_request_ty.split)

lemma same_core_remove_topic: "same_core s (remove_topic n s)"
  by (simp add: same_core_def remove_topic_def)

lemma same_core_store_leader: "same_core s (store_leader n p s)"
  by (simp add: same_core_def store_leader_def split: option.split)

lemma same_core_produce_leaders: "same_core s (produce_leaders E n ps s)"
  by (induction E n ps s rule: produce_leaders.induct)
    (auto intro: same_core_trans same_core_store_leader same_core_remove_topic)

lemma same_core_produce: "same_core s (snd (process_produce E r s))"
  by (auto simp: process_produce_def intro!: same_core_fold same_core_produce_leaders)

lemma same_core_fetch_topics: "same_core s (snd (process_fetch_topics E ts s))"
proof (induction ts arbitrary: s)
  case (Cons t ts)
  have "same_core s (snd (process_fetch_topic E t s))"
    by (simp add: process_fetch_topic_def same_core_def split: prod.split)
  then show ?case using Cons.IH[of "snd (process_fetch_topic E t s)"]
    by (auto split: prod.split intro: same_core_trans)
qed simp

lemma same_core_fetch: "same_core s (snd (process_fetch E r s))"
  using same_core_fetch_topics[of s E "fres_responses r"] by (auto simp: process_fetch_def split: prod.split)

lemma same_core_clear:
  "same_core s (clear_stale_topics E ts s)" "same_core s (clear_groups E gs s)" "same_core s (clear_transactions E xs s)"
  unfolding clear_stale_topics_def clear_groups_def clear_transactions_def
  by (auto intro!: same_core_fold simp: same_core_remove_topic) (auto simp: same_core_def)

lemma same_core_sasl:
  "process_sasl_authenticate a close s = (r, close', s') \<Longrightarrow> same_core s s'"
  by (auto simp: process_sasl_authenticate_def Let_def same_core_def split: option.splits sum.splits if_splits)

lemmas same_core_steps = same_core_metadata same_core_describe_cluster same_core_find_coordinator
  same_core_group_error same_core_transaction_error same_core_produce same_core_fetch same_core_clear
  same_core_fold

lemma bind_result_Ok: "bind_result x f = Ok y \<longleftrightarrow> (\<exists>z. x = Ok z \<and> f z = Ok y)"
  by (cases x) simp_all

lemma keep_Ok: "keep b c s = Ok p \<longleftrightarrow> p = \<lparr>px_body = b, px_invalidate = False, px_close = c, px_sink = s\<rparr>"
  by (auto simp: keep_def)

lemma rewritten_Ok: "rewritten b c s = Ok p \<longleftrightarrow> p = \<lparr>px_body = b, px_invalidate = True, px_close = c, px_sink = s\<rparr>"
  by (auto simp: rewritten_def)

lemma process_body_core:
  assumes "process_body E v b ty close s = Ok p"
  shows "same_core s (px_sink p)"
proof (cases b)
  case (ProduceR r)
  then show ?thesis using assms same_core_produce[of s E r] by (simp add: process_body_def rewritten_Ok split: prod.splits)
next
  case (FetchR r)
  then show ?thesis using assms same_core_fetch[of s E r] by (simp add: process_body_def rewritten_Ok split: prod.splits)
next
  case (SaslAuthenticateR a)
  then show ?thesis using assms same_core_sasl by (fastforce simp: process_body_def keep_Ok split: prod.splits sum.splits)
qed (use assms in \<open>auto simp: process_body_def Let_def keep_Ok rewritten_Ok bind_result_Ok code_response_effect_def
    intro!: same_core_steps same_core_controller split: pending_request_ty.splits if_splits\<close>)

lemma process_response_core:
  assumes "process_response E r ty close s = Ok (r', close', s')"
  shows "same_core s s'"
  using assms process_body_core
  by (auto simp: process_response_def bind_result_Ok split: prod.splits option.splits frame.splits kafka_frame.splits)

lemma invalidate_cache_keeps [simp]:
  "id (invalidate_cache m) = id m" "request_id (invalidate_cache m) = request_id m"
  by (simp_all add: invalidate_cache_def)

lemma set_frame_keeps [simp]: "id (set_frame f m) = id m" "request_id (set_frame f m) = request_id m"
  by (simp_all add: set_frame_def)

lemma process_response_ids:
  assumes "process_response E r ty close s = Ok (r', close', s')"
  shows "id r' = id r \<and> request_id r' = request_id r"
proof -
  obtain f m where fm: "frame (env_dec E) r = (f, m)" by fastforce
  then have "id m = id r" "request_id m = request_id r" using frame_keeps(1,2)[of "env_dec E" r] by simp_all
  moreover have "id r' = id m \<and> request_id r' = request_id m" using assms
    by (auto simp: process_response_def fm bind_result_Ok Let_def split: option.splits frame.splits kafka_frame.splits if_splits)
  ultimately show ?thesis by simp
qed

end
