(* ===== verification/Kafka_Pending.thy ===== *)
theory Kafka_Pending
  imports Kafka_Response
begin

text \<open>
  The queue of pending requests (\<^verbatim>\<open>send_requests\<close> and \<^verbatim>\<open>recv_responses\<close> of
  \<^verbatim>\<open>src/shotover/src/transforms/kafka/sink_cluster/mod.rs\<close>).  Each entry goes from \<open>Routed\<close> over
  \<open>Sent\<close> to \<open>Received\<close>; an entry that is sent knows how many responses of its broker come before
  its own.  Responses leave the queue in the order of the requests, a split request as one
  combined response.
\<close>

subsection \<open>The surroundings of a call\<close>

text \<open>
  The network, the clock, the iteration order of the hash map of connections and the ids of new
  messages, as one call of the transform meets them.  Times are in nanoseconds; the clock of
  the loop over ready responses is read once for each number of entries left.  An attempt of
  the retry loop of the control connection meets its own network (\<open>wd_retry_net\<close>); \<open>wd_await\<close> is
  the batch that ends the wait for the response to a control request, and \<open>wd_prefetch\<close> what the
  task that fetches delegation tokens says of a user.
\<close>

record world =
  wd_net :: "kafka_address \<Rightarrow> sink_connection result"
  wd_retry_net :: "nat \<Rightarrow> kafka_address \<Rightarrow> sink_connection result"
  wd_await :: "nat \<Rightarrow> message \<Rightarrow> message list option"
  wd_prefetch :: "string \<Rightarrow> unit result"
  wd_now :: nat
  wd_clock :: "nat \<Rightarrow> nat"
  wd_order :: "destination list \<Rightarrow> destination list"
  wd_nid :: "message_id \<Rightarrow> message_id"

definition world_ok :: "world \<Rightarrow> bool" where
  "world_ok W \<longleftrightarrow> net_ok (wd_net W) \<and> (\<forall>n. net_ok (wd_retry_net W n)) \<and> (\<forall>ds. mset (wd_order W ds) = mset ds)"

definition config_of :: "world \<Rightarrow> sink \<Rightarrow> conn_config" where
  "config_of W s = \<lparr>cc_net = wd_net W, cc_now = wd_now W, cc_scram = map_option scram_timeout (authorize_scram_over_mtls s),
     cc_mechanism = sasl_mechanism s, cc_contact_points = first_contact_points s, cc_rack = rack s\<rparr>"

definition from_millis :: "nat \<Rightarrow> nat" where
  "from_millis n = 1000000 * n"

definition as_u64 :: "int \<Rightarrow> nat" where
  "as_u64 i = nat (i mod 2 ^ 64)"

text \<open>The state of a node is an atomic shared by its copies in \<^verbatim>\<open>nodes\<close> and \<^verbatim>\<open>nodes_shared\<close>.\<close>

definition set_nodes :: "kafka_node list \<Rightarrow> sink \<Rightarrow> sink" where
  "set_nodes ns s = s\<lparr>nodes := ns, nodes_shared := map (\<lambda>n.
     case find (\<lambda>m. kn_broker_id m = kn_broker_id n) ns of Some m \<Rightarrow> n\<lparr>kn_state := kn_state m\<rparr> | None \<Rightarrow> n) (nodes_shared s)\<rparr>"

definition conn_err :: "connection_error \<Rightarrow> err" where
  "conn_err e = Err (case e of
     OtherSideClosed \<Rightarrow> ''The other side of this connection closed the connection''
   | ShotoverClosed \<Rightarrow> ''Shotover closed the connection due to protocol requirements''
   | MessageDecode m \<Rightarrow> ''Message decode error '' @ m
   | MessageEncode m \<Rightarrow> ''Message encode error '' @ m
   | Io m \<Rightarrow> ''IO error '' @ m
   | ReadTimeout _ \<Rightarrow> ''The other side of this connection did not respond within the timeout'')"

subsection \<open>Sending\<close>

record routed_requests =
  rr_requests :: "message list"
  rr_already_pending :: nat

definition is_fetch :: "pending_request_ty \<Rightarrow> bool" where
  "is_fetch ty = (case ty of PFetch _ _ _ \<Rightarrow> True | _ \<Rightarrow> False)"

definition sent_to :: "destination \<Rightarrow> pending_request \<Rightarrow> bool" where
  "sent_to d p = (case pstate p of Sent _ _ \<Rightarrow> pdestination p = d | _ \<Rightarrow> False)"

definition routed_for :: "destination \<Rightarrow> pending_request list \<Rightarrow> (destination \<times> routed_requests) list \<Rightarrow> routed_requests" where
  "routed_for d queue m = (case map_of m d of
     Some rr \<Rightarrow> rr
   | None \<Rightarrow> \<lparr>rr_requests = [], rr_already_pending = length (filter (sent_to d) queue)\<rparr>)"

text \<open>The loop over the queue: the entries before the index, the entries from it on, the map so far.\<close>

fun mark_sent ::
  "pending_request list \<Rightarrow> pending_request list \<Rightarrow> (destination \<times> routed_requests) list
     \<Rightarrow> pending_request list \<times> (destination \<times> routed_requests) list" where
  "mark_sent before [] m = (before, m)"
| "mark_sent before (p # ps) m = (case pstate p of
     Routed request \<Rightarrow>
       (let d = pdestination p;
            rr = routed_for d (before @ p # ps) m;
            sent = Sent (length (rr_requests rr) + rr_already_pending rr) (if is_fetch (pty p) then Some request else None)
        in mark_sent (before @ [p\<lparr>pstate := sent\<rparr>]) ps (AList.update d (rr\<lparr>rr_requests := rr_requests rr @ [request]\<rparr>) m))
   | _ \<Rightarrow> mark_sent (before @ [p]) ps m)"

text \<open>The names of the requests go into the error message; an unknown api key panics there.\<close>

definition request_types_ok :: "kafka_env \<Rightarrow> message list \<Rightarrow> bool" where
  "request_types_ok E ms = list_all (\<lambda>m. case fst (frame (env_dec E) m) of
     Some (FKafka (Request h _)) \<Rightarrow> api_key_name E (request_api_key h) \<noteq> None | _ \<Rightarrow> True) ms"

text \<open>No connection could be opened: the node is set down and the error is returned.\<close>

definition open_failed :: "kafka_env \<Rightarrow> destination \<Rightarrow> message list \<Rightarrow> err \<Rightarrow> sink \<Rightarrow> unit result \<times> sink" where
  "open_failed E d ms e s = (case e of
     Panic m \<Rightarrow> (Inl (Panic m), s)
   | Err m \<Rightarrow>
      (let control = control_connection_address (sink_connections s) in
       if d = ControlConnection \<and> control = None \<and> nodes s \<noteq> []
       then (Inl (Panic ''called Option::unwrap() on a None value''), s)
       else (let s1 = set_nodes (set_state_first (node_at d control) Down (nodes s)) s in
             if request_types_ok E ms then (Inl (Err m), s1)
             else (Inl (Panic ''called Result::unwrap() on an Err value''), s1))))"

definition send_failed :: "world \<Rightarrow> destination \<Rightarrow> connection_error \<Rightarrow> sink \<Rightarrow> unit result \<times> sink" where
  "send_failed W d e s = (case handle_connection_error (config_of W s) (nodes s) d (conn_err e) (sink_connections s) of
     (r, ns, cs) \<Rightarrow> ((case r of Inl e' \<Rightarrow> Inl e' | Inr _ \<Rightarrow> Inl (conn_err e)), set_nodes ns (s\<lparr>sink_connections := cs\<rparr>)))"

definition put_conn :: "destination \<Rightarrow> kafka_connection \<Rightarrow> sink \<Rightarrow> sink" where
  "put_conn d k s = s\<lparr>sink_connections := (sink_connections s)\<lparr>conns := AList.update d k (conns (sink_connections s))\<rparr>\<rparr>"

definition send_to :: "kafka_env \<Rightarrow> world \<Rightarrow> destination \<Rightarrow> message list \<Rightarrow> sink \<Rightarrow> unit result \<times> sink" where
  "send_to E W d ms s = (case get_or_open_connection E (config_of W s) (nodes s) d (sink_connections s) (rng s) of
     (r, cs, g) \<Rightarrow>
       (let s1 = s\<lparr>sink_connections := cs, rng := g\<rparr> in
        case r of
          Inl e \<Rightarrow> open_failed E d ms e s1
        | Inr _ \<Rightarrow> (case map_of (conns cs) d of
             None \<Rightarrow> (Inl (Panic ''called Option::unwrap() on a None value''), s1)
           | Some k \<Rightarrow> (case kc_send (env_dec E) ms k of
                (COk _, k') \<Rightarrow> (Ok (), put_conn d k' s1)
              | (CErr e, k') \<Rightarrow> send_failed W d e (put_conn d k' s1)
              | (CPanic m, k') \<Rightarrow> (Inl (Panic m), put_conn d k' s1)))))"

fun send_all :: "kafka_env \<Rightarrow> world \<Rightarrow> (destination \<times> message list) list \<Rightarrow> sink \<Rightarrow> unit result \<times> sink" where
  "send_all E W [] s = (Ok (), s)"
| "send_all E W ((d, ms) # rest) s = (case send_to E W d ms s of
     (Inl e, s1) \<Rightarrow> (Inl e, s1)
   | (Inr _, s1) \<Rightarrow> send_all E W rest s1)"

definition send_requests :: "kafka_env \<Rightarrow> world \<Rightarrow> sink \<Rightarrow> unit result \<times> sink" where
  "send_requests E W s = (case mark_sent [] (pending_requests s) [] of
     (queue, m) \<Rightarrow> send_all E W (map (\<lambda>(d, rr). (d, rr_requests rr)) (hash_iter (wd_order W) m)) (s\<lparr>pending_requests := queue\<rparr>))"

subsection \<open>Receiving\<close>

text \<open>One response of a broker: the entry at index 0 receives it, the others of the broker move up.\<close>

fun deliver :: "destination \<Rightarrow> message option \<Rightarrow> pending_request list \<Rightarrow> pending_request list result" where
  "deliver d response [] = Ok []"
| "deliver d response (p # ps) = (case pstate p of
     Sent index request \<Rightarrow>
       (if pdestination p = d
        then (if index = 0
              then (case response of
                  None \<Rightarrow> Inl (Panic ''called Option::unwrap() on a None value'')
                | Some r \<Rightarrow> bind_result (deliver d None ps) (\<lambda>ps'. Ok (p\<lparr>pstate := Received r request\<rparr> # ps')))
              else bind_result (deliver d response ps) (\<lambda>ps'. Ok (p\<lparr>pstate := Sent (index - 1) request\<rparr> # ps')))
        else bind_result (deliver d response ps) (\<lambda>ps'. Ok (p # ps')))
   | _ \<Rightarrow> bind_result (deliver d response ps) (\<lambda>ps'. Ok (p # ps')))"

definition recv_from :: "world \<Rightarrow> destination \<Rightarrow> sink \<times> (destination \<times> err) list \<Rightarrow> (sink \<times> (destination \<times> err) list) result" where
  "recv_from W d = (\<lambda>(s, errors). case map_of (conns (sink_connections s)) d of
     None \<Rightarrow> Ok (s, errors)
   | Some k \<Rightarrow> (case kc_try_recv_into (wd_nid W) [] k of
        (COk rs, k') \<Rightarrow> bind_result (fold_result (\<lambda>r. deliver d (Some r)) rs (pending_requests s)) (\<lambda>queue.
          Ok ((put_conn d k' s)\<lparr>pending_requests := queue\<rparr>, errors))
      | (CErr e, k') \<Rightarrow> Ok (put_conn d k' s, errors @ [(d, conn_err e)])
      | (CPanic m, _) \<Rightarrow> Inl (Panic m)))"

definition handle_recv_error :: "world \<Rightarrow> destination \<times> err \<Rightarrow> sink \<Rightarrow> sink result" where
  "handle_recv_error W de s = (case map_of (conns (sink_connections s)) (fst de) of
     None \<Rightarrow> Ok s
   | Some k \<Rightarrow>
      (if kc_pending_requests_count k = 0
       then Ok (s\<lparr>sink_connections := (sink_connections s)\<lparr>conns := AList.delete (fst de) (conns (sink_connections s))\<rparr>\<rparr>)
       else (case handle_connection_error (config_of W s) (nodes s) (fst de) (snd de) (sink_connections s) of
          (Inl e, ns, cs) \<Rightarrow> Inl e
        | (Inr _, ns, cs) \<Rightarrow> Ok (set_nodes ns (s\<lparr>sink_connections := cs\<rparr>)))))"

definition recv_all :: "world \<Rightarrow> sink \<Rightarrow> sink result" where
  "recv_all W s =
    bind_result (fold_result (recv_from W) (wd_order W (map fst (conns (sink_connections s)))) (s, [])) (\<lambda>(s1, errors).
    fold_result (handle_recv_error W) errors s1)"

subsection \<open>Returning what is ready\<close>

definition is_received :: "pending_request \<Rightarrow> bool" where
  "is_received p = (case pstate p of Received _ _ \<Rightarrow> True | _ \<Rightarrow> False)"

definition all_combined_received :: "nat \<Rightarrow> pending_request list \<Rightarrow> bool" where
  "all_combined_received n queue = list_all (\<lambda>i. case get queue i of Some p \<Rightarrow> is_received p | None \<Rightarrow> False) [0..<n]"

text \<open>Whether the fetch at the front has to be sent again.\<close>

definition must_refetch :: "kafka_env \<Rightarrow> nat \<Rightarrow> pending_request_ty \<Rightarrow> nat \<Rightarrow> pending_request list \<Rightarrow> bool result" where
  "must_refetch E now ty n queue = (case ty of
     PFetch sent_at max_wait min_b \<Rightarrow>
       (if now - sent_at < from_millis (as_u64 max_wait)
        then bind_result (total_fetch_record_bytes (env_dec E) (take n queue)) (\<lambda>total. Ok (total < min_b))
        else Ok False)
   | _ \<Rightarrow> Ok False)"

definition route_again :: "pending_request \<Rightarrow> pending_request result" where
  "route_again p = (case pstate p of
     Received _ (Some request) \<Rightarrow> Ok (p\<lparr>pstate := Routed request\<rparr>)
   | Received _ None \<Rightarrow> Inl (Panic ''called Option::unwrap() on a None value'')
   | _ \<Rightarrow> Inl (Panic ''internal error: entered unreachable code''))"

definition refetch :: "nat \<Rightarrow> sink \<Rightarrow> sink result" where
  "refetch n s = bind_result (map_result route_again (take n (pending_requests s))) (\<lambda>front.
     Ok (s\<lparr>pending_requests := front @ drop n (pending_requests s), refetch_backoff := 2 * refetch_backoff s\<rparr>))"

definition received_response :: "pending_request \<Rightarrow> response_to_be_combined result" where
  "received_response p = (case pstate p of
     Received response _ \<Rightarrow> Ok \<lparr>rc_response = response, rc_destination = pdestination p\<rparr>
   | _ \<Rightarrow> Inl (Panic ''internal error: entered unreachable code: Guaranteed by all_combined_received''))"

definition take_response :: "kafka_env \<Rightarrow> nat \<Rightarrow> pending_request list \<Rightarrow> message result" where
  "take_response E n queue =
    bind_result (map_result received_response (take n queue)) (\<lambda>rs.
    if n = 1 then Ok (rc_response (hd rs)) else combine_responses E rs)"

lemma process_response_queue:
  "process_response E r ty close s = Inr (r', close', s') \<Longrightarrow> pending_requests s' = pending_requests s"
  using process_response_core by (simp add: same_core_def)

lemma take_response_nonempty: "take_response E n queue = Inr r \<Longrightarrow> n \<noteq> 0"
  by (cases n) (simp_all add: take_response_def combine_responses_def)

definition reset_backoff :: "pending_request_ty \<Rightarrow> sink \<Rightarrow> sink" where
  "reset_backoff ty s = (if is_fetch ty then s\<lparr>refetch_backoff := from_millis 1\<rparr> else s)"

function drain_ready :: "kafka_env \<Rightarrow> world \<Rightarrow> bool \<Rightarrow> sink \<Rightarrow> (message list \<times> bool \<times> sink) result" where
  "drain_ready E W close s = (case pending_requests s of
     [] \<Rightarrow> Ok ([], close, s)
   | p # _ \<Rightarrow>
      (if all_combined_received (pcombine p) (pending_requests s)
       then (case must_refetch E (wd_clock W (length (pending_requests s))) (pty p) (pcombine p) (pending_requests s) of
          Inl e \<Rightarrow> Inl e
        | Inr True \<Rightarrow> bind_result (refetch (pcombine p) s) (\<lambda>s1. Ok ([], close, s1))
        | Inr False \<Rightarrow> (case take_response E (pcombine p) (pending_requests s) of
             Inl e \<Rightarrow> Inl e
           | Inr response \<Rightarrow>
              (case process_response E response (pty p) close
                 (reset_backoff (pty p) (s\<lparr>pending_requests := drop (pcombine p) (pending_requests s)\<rparr>)) of
                 Inl e \<Rightarrow> Inl e
               | Inr (response', close', s1) \<Rightarrow> (case drain_ready E W close' s1 of
                    Inl e \<Rightarrow> Inl e
                  | Inr (rs, close'', s2) \<Rightarrow> Ok (response' # rs, close'', s2)))))
       else Ok ([], close, s)))"
  by pat_completeness auto
termination
  by (relation "measure (\<lambda>(E, W, close, s). length (pending_requests s))")
    (auto dest!: process_response_queue take_response_nonempty simp: reset_backoff_def split: if_splits)

declare drain_ready.simps [simp del]

definition recv_responses :: "kafka_env \<Rightarrow> world \<Rightarrow> bool \<Rightarrow> sink \<Rightarrow> (message list \<times> bool \<times> sink) result" where
  "recv_responses E W close s =
    bind_result (recv_all W s) (\<lambda>s1.
    bind_result (drain_ready E W close s1) (\<lambda>(rs, close', s2). case send_requests E W s2 of
      (Inl e, _) \<Rightarrow> Inl e
    | (Inr _, s3) \<Rightarrow> Ok (rs, close', s3)))"

subsection \<open>The queues of the brokers\<close>

text \<open>
  What the indices stand for.  Beside the queue stand the ids of the requests (\<open>ids\<close>, one for
  each entry) and for each destination the ids of the requests sent to it whose responses have
  not been delivered (\<open>w\<close>, in the order of sending).
\<close>

definition entry_ok :: "(destination \<Rightarrow> message_id list) \<Rightarrow> message_id \<Rightarrow> pending_request \<Rightarrow> bool" where
  "entry_ok w i p = (case pstate p of
     Routed m \<Rightarrow> id m = i
   | Sent n req \<Rightarrow> n < length (w (pdestination p)) \<and> w (pdestination p) ! n = i \<and> (\<forall>m. req = Some m \<longrightarrow> id m = i)
   | Received r req \<Rightarrow> request_id r = Some i \<and> (\<forall>m. req = Some m \<longrightarrow> id m = i))"

definition sent_indices :: "destination \<Rightarrow> pending_request list \<Rightarrow> nat list" where
  "sent_indices d ps = List.map_filter (\<lambda>p. case pstate p of
     Sent n _ \<Rightarrow> (if pdestination p = d then Some n else None) | _ \<Rightarrow> None) ps"

definition tracks :: "message_id list \<Rightarrow> (destination \<Rightarrow> message_id list) \<Rightarrow> pending_request list \<Rightarrow> bool" where
  "tracks ids w ps \<longleftrightarrow> list_all2 (entry_ok w) ids ps \<and> (\<forall>d. mset (sent_indices d ps) = mset [0..<length (w d)])"

lemma sent_indices_Nil [simp]: "sent_indices d [] = []"
  by (simp add: sent_indices_def)

lemma sent_indices_Cons: "sent_indices d (p # ps) = (case pstate p of
     Sent n _ \<Rightarrow> (if pdestination p = d then [n] else []) | _ \<Rightarrow> []) @ sent_indices d ps"
  by (simp add: sent_indices_def List.map_filter_simps split: pending_request_state.split)

lemma sent_indices_append [simp]: "sent_indices d (ps @ qs) = sent_indices d ps @ sent_indices d qs"
  by (simp add: sent_indices_def List.map_filter_def)

lemma length_sent: "length (filter (sent_to d) ps) = length (sent_indices d ps)"
  by (induction ps) (auto simp: sent_indices_Cons sent_to_def split: pending_request_state.split)

lemma tracks_sent_length: "tracks ids w ps \<Longrightarrow> length (sent_indices d ps) = length (w d)"
  unfolding tracks_def by (metis diff_zero length_upt size_mset)

subsubsection \<open>A delivered response\<close>

definition deliver_one :: "destination \<Rightarrow> message \<Rightarrow> pending_request \<Rightarrow> pending_request" where
  "deliver_one d r p = (case pstate p of
     Sent n req \<Rightarrow> (if pdestination p = d
       then (if n = 0 then p\<lparr>pstate := Received r req\<rparr> else p\<lparr>pstate := Sent (n - 1) req\<rparr>) else p)
   | _ \<Rightarrow> p)"

lemma deliver_map_None:
  "0 \<notin> set (sent_indices d ps) \<Longrightarrow> deliver d None ps = Ok (map (deliver_one d r) ps)"
  by (induction ps) (auto simp: sent_indices_Cons deliver_one_def split: pending_request_state.splits)

lemma deliver_map:
  "count (mset (sent_indices d ps)) 0 \<le> 1 \<Longrightarrow> deliver d (Some r) ps = Ok (map (deliver_one d r) ps)"
proof (induction ps)
  case (Cons p ps)
  show ?case
  proof (cases "\<exists>req. pstate p = Sent 0 req \<and> pdestination p = d")
    case True
    then obtain req where p: "pstate p = Sent 0 req" "pdestination p = d" by blast
    then have "0 \<notin> set (sent_indices d ps)" using Cons.prems by (auto simp: sent_indices_Cons count_eq_zero_iff)
    then show ?thesis using p deliver_map_None[of d ps r] by (simp add: deliver_one_def)
  next
    case False
    then have "count (mset (sent_indices d ps)) 0 \<le> 1" using Cons.prems
      by (auto simp: sent_indices_Cons split: pending_request_state.splits if_splits)
    then show ?thesis using False Cons.IH by (auto simp: deliver_one_def split: pending_request_state.splits)
  qed
qed simp

lemma sent_indices_deliver:
  "sent_indices e (map (deliver_one d r) ps) =
    (if e = d then map (\<lambda>n. n - 1) (filter (\<lambda>n. n \<noteq> 0) (sent_indices d ps)) else sent_indices e ps)"
  by (induction ps) (auto simp: sent_indices_Cons deliver_one_def split: pending_request_state.split)

lemma entry_ok_deliver:
  assumes "entry_ok w i p" and "w d = x # xs" and "request_id r = Some x"
  shows "entry_ok (w(d := xs)) i (deliver_one d r p)"
  using assms by (auto simp: entry_ok_def deliver_one_def nth_Cons split: pending_request_state.splits nat.splits if_splits)

lemma deliver_tracks:
  assumes "tracks ids w ps" and "w d = x # xs" and "request_id r = Some x"
  shows "deliver d (Some r) ps = Ok (map (deliver_one d r) ps) \<and> tracks ids (w(d := xs)) (map (deliver_one d r) ps)"
proof
  have m: "mset (sent_indices e ps) = mset [0..<length (w e)]" for e using assms(1) by (simp add: tracks_def)
  have "count (mset (sent_indices d ps)) 0 \<le> 1"
    unfolding m assms(2) by (simp add: upt_conv_Cons del: upt_Suc)
  then show "deliver d (Some r) ps = Ok (map (deliver_one d r) ps)" by (rule deliver_map)
  have "mset (map (\<lambda>n. n - 1) (filter (\<lambda>n. n \<noteq> 0) (sent_indices d ps))) =
      image_mset (\<lambda>n. n - 1) (filter_mset (\<lambda>n. n \<noteq> 0) (mset [0..<length (w d)]))"
    by (simp only: mset_map mset_filter m)
  also have "\<dots> = mset (map (\<lambda>n. n - 1) (filter (\<lambda>n. n \<noteq> 0) [0..<length (w d)]))" by (simp only: mset_map mset_filter)
  also have "map (\<lambda>n. n - 1) (filter (\<lambda>n. n \<noteq> 0) [0..<length (w d)]) = [0..<length xs]"
  proof -
    have "filter (\<lambda>n. n \<noteq> 0) [0..<Suc (length xs)] = map Suc [0..<length xs]"
      by (simp add: upt_conv_Cons map_Suc_upt filter_id_conv del: upt_Suc)
    then show ?thesis by (simp add: assms(2) o_def del: upt_Suc)
  qed
  finally have "mset (sent_indices e (map (deliver_one d r) ps)) = mset [0..<length ((w(d := xs)) e)]" for e
    using m[of e] by (simp add: sent_indices_deliver)
  moreover have "list_all2 (entry_ok (w(d := xs))) ids (map (deliver_one d r) ps)"
    using assms(1) entry_ok_deliver[where w = w and d = d, OF _ assms(2,3)] unfolding tracks_def list_all2_map2
    by (auto elim: list_all2_mono)
  ultimately show "tracks ids (w(d := xs)) (map (deliver_one d r) ps)" by (simp add: tracks_def)
qed

text \<open>The parts of the entries that receiving does not touch.\<close>

definition shape :: "pending_request list \<Rightarrow> (destination \<times> pending_request_ty \<times> nat) list" where
  "shape ps = map (\<lambda>p. (pdestination p, pty p, pcombine p)) ps"

lemma shape_deliver [simp]: "shape (map (deliver_one d r) ps) = shape ps"
  by (auto simp: shape_def deliver_one_def split: pending_request_state.split)

lemma deliver_all_tracks:
  assumes "tracks ids w ps" and "length rs \<le> length (w d)" and "map request_id rs = map Some (take (length rs) (w d))"
  shows "\<exists>ps'. fold_result (\<lambda>r. deliver d (Some r)) rs ps = Ok ps' \<and> shape ps' = shape ps \<and>
    tracks ids (w(d := drop (length rs) (w d))) ps'"
  using assms
proof (induction rs arbitrary: ps w)
  case (Cons r rs)
  then obtain x xs where w: "w d = x # xs" and r: "request_id r = Some x" by (cases "w d") auto
  have t: "deliver d (Some r) ps = Ok (map (deliver_one d r) ps)" "tracks ids (w(d := xs)) (map (deliver_one d r) ps)"
    using deliver_tracks[OF Cons.prems(1) w r] by blast+
  have "\<exists>ps'. fold_result (\<lambda>r. deliver d (Some r)) rs (map (deliver_one d r) ps) = Ok ps' \<and> shape ps' = shape (map (deliver_one d r) ps) \<and>
    tracks ids ((w(d := xs))(d := drop (length rs) ((w(d := xs)) d))) ps'"
    by (rule Cons.IH[OF t(2)]) (use Cons.prems w in simp_all)
  moreover have "(w(d := xs))(d := drop (length rs) ((w(d := xs)) d)) = w(d := drop (length (r # rs)) (w d))" using w by auto
  ultimately have "\<exists>ps'. fold_result (\<lambda>r. deliver d (Some r)) rs (map (deliver_one d r) ps) = Ok ps' \<and> shape ps' = shape ps \<and>
    tracks ids (w(d := drop (length (r # rs)) (w d))) ps'" by (simp only: shape_deliver)
  then show ?case unfolding fold_result.simps t(1) by (simp add: fun_upd_def)
qed simp

subsubsection \<open>Marking what is sent\<close>

text \<open>The requests collected for a destination.\<close>

definition collected :: "(destination \<times> routed_requests) list \<Rightarrow> destination \<Rightarrow> message list" where
  "collected m d = (case map_of m d of Some rr \<Rightarrow> rr_requests rr | None \<Rightarrow> [])"

definition add_sent :: "(destination \<Rightarrow> message_id list) \<Rightarrow> (destination \<Rightarrow> message list) \<Rightarrow> destination \<Rightarrow> message_id list" where
  "add_sent w f = (\<lambda>d. w d @ map id (f d))"

definition marking :: "(destination \<Rightarrow> message_id list) \<Rightarrow> (destination \<times> routed_requests) list \<Rightarrow> bool" where
  "marking w m \<longleftrightarrow> distinct (map fst m) \<and> (\<forall>d rr. map_of m d = Some rr \<longrightarrow> rr_already_pending rr = length (w d))"

lemma entry_ok_extend:
  "entry_ok w i p \<Longrightarrow> entry_ok (w(d := w d @ xs)) i p"
  by (auto simp: entry_ok_def nth_append split: pending_request_state.splits)

lemma tracks_send_one:
  assumes "tracks ids w (qs @ p # ps)" and "pstate p = Routed m"
    and "p' = p\<lparr>pstate := Sent (length (w (pdestination p))) req\<rparr>" and "\<And>m'. req = Some m' \<Longrightarrow> m' = m"
  shows "tracks ids (w(pdestination p := w (pdestination p) @ [id m])) (qs @ p' # ps)"
proof -
  let ?w = "w(pdestination p := w (pdestination p) @ [id m])"
  have l: "list_all2 (entry_ok w) ids (qs @ p # ps)" using assms(1) by (simp add: tracks_def)
  then obtain us x vs where ids: "ids = us @ x # vs" and "length us = length qs"
    and e: "list_all2 (entry_ok w) us qs" "entry_ok w x p" "list_all2 (entry_ok w) vs ps"
    by (auto simp: list_all2_append2 list_all2_Cons2)
  have "entry_ok ?w x p'" using e(2) assms(2-4) by (auto simp: entry_ok_def)
  moreover have "list_all2 (entry_ok ?w) us qs" "list_all2 (entry_ok ?w) vs ps"
    using e entry_ok_extend by (auto elim!: list_all2_mono)
  ultimately have "list_all2 (entry_ok ?w) ids (qs @ p' # ps)" unfolding ids by (simp add: list_all2_appendI)
  moreover have "mset (sent_indices d (qs @ p' # ps)) = mset [0..<length (?w d)]" for d
  proof -
    have "mset (sent_indices d (qs @ p # ps)) = mset [0..<length (w d)]" using assms(1) by (simp add: tracks_def)
    then show ?thesis using assms(2,3) by (auto simp: sent_indices_Cons simp del: mset_upt)
  qed
  ultimately show ?thesis by (simp add: tracks_def)
qed

lemma routed_for_eq:
  assumes "tracks ids (add_sent w (collected m)) queue" and "marking w m"
  shows "rr_requests (routed_for d queue m) = collected m d \<and> rr_already_pending (routed_for d queue m) = length (w d)"
  using assms tracks_sent_length[OF assms(1), of d]
  by (auto simp: routed_for_def marking_def collected_def add_sent_def length_sent split: option.split)

lemma mark_sent_tracks:
  assumes "tracks ids (add_sent w (collected m)) (qs @ ps)" and "marking w m" and "mark_sent qs ps m = (ps', m')"
    and "\<forall>q \<in> set qs. \<forall>x. pstate q \<noteq> Routed x"
  shows "tracks ids (add_sent w (collected m')) ps' \<and> marking w m' \<and> shape ps' = shape (qs @ ps) \<and>
    (\<forall>q \<in> set ps'. \<forall>x. pstate q \<noteq> Routed x)"
  using assms
proof (induction qs ps m arbitrary: ps' m' rule: mark_sent.induct)
  case (2 before p ps m)
  show ?case
  proof (cases "pstate p")
    case (Routed request)
    let ?d = "pdestination p"
    let ?rr = "routed_for ?d (before @ p # ps) m"
    let ?p = "p\<lparr>pstate := Sent (length (rr_requests ?rr) + rr_already_pending ?rr) (if is_fetch (pty p) then Some request else None)\<rparr>"
    let ?m = "AList.update ?d (?rr\<lparr>rr_requests := rr_requests ?rr @ [request]\<rparr>) m"
    have rr: "rr_requests ?rr = collected m ?d" "rr_already_pending ?rr = length (w ?d)"
      using routed_for_eq[OF "2.prems"(1,2)] by blast+
    have m: "marking w ?m" using "2.prems"(2) rr(2) by (auto simp: marking_def update_conv' distinct_update)
    have w: "add_sent w (collected ?m) = (add_sent w (collected m))(?d := add_sent w (collected m) ?d @ [id request])"
      using rr(1) by (auto simp: add_sent_def collected_def update_conv' fun_eq_iff)
    have "tracks ids (add_sent w (collected ?m)) (before @ ?p # ps)"
      unfolding w by (rule tracks_send_one[where req = "if is_fetch (pty p) then Some request else None", OF "2.prems"(1) Routed])
        (auto simp: rr add_sent_def add.commute split: if_splits)
    then have t: "tracks ids (add_sent w (collected ?m)) ((before @ [?p]) @ ps)" by simp
    have step: "mark_sent (before @ [?p]) ps ?m = (ps', m')" using "2.prems"(3) Routed by (simp add: Let_def)
    have "\<forall>q \<in> set (before @ [?p]). \<forall>x. pstate q \<noteq> Routed x" using "2.prems"(4) by simp
    from "2.IH"(1)[OF Routed refl refl refl t m step this] show ?thesis by (simp add: shape_def)
  next
    case (Sent n req)
    then show ?thesis using "2.IH"(2)[OF Sent, of ps' m'] "2.prems" by simp
  next
    case (Received r req)
    then show ?thesis using "2.IH"(3)[OF Received, of ps' m'] "2.prems" by simp
  qed
qed simp

subsubsection \<open>Connections and the queues of the brokers\<close>

lemma kafka_connection_new_scram:
  "kafka_connection_new now scram m c old = Inr (ScramOverMtls x) \<Longrightarrow>
     scram \<noteq> None \<and> (case m of Some m' \<Rightarrow> m' \<in> set sasl_scram_mechanisms | None \<Rightarrow> False)"
  by (auto simp: kafka_connection_new_def split: option.splits if_splits)

lemma scram_conns_ok_new:
  assumes "scram_conns_ok C cs" and "kafka_connection_new now (cc_scram C) (cc_mechanism C) c old = Inr k"
  shows "scram_conns_ok C (cs\<lparr>conns := AList.update d k (conns cs)\<rparr>)"
  using assms kafka_connection_new_scram[of now "cc_scram C" "cc_mechanism C" c old]
  by (auto simp: scram_conns_ok_def uses_scram_def update_conv')

lemma create_and_insert_scram:
  assumes "scram_conns_ok C cs" and "create_and_insert_connection E C ns node old d cs g0 = (r, cs', g)"
  shows "scram_conns_ok C cs'"
proof -
  obtain a cs1 g1 where c: "choose_address E C ns node cs g0 = (a, cs1, g1)" by (metis prod_cases3)
  have ok: "scram_conns_ok C cs1" using assms(1) choose_address_conns[OF c] by (simp add: scram_conns_ok_def)
  show ?thesis using assms(2) ok scram_conns_ok_new[OF ok]
    by (auto simp: create_and_insert_connection_def c split: option.splits sum.splits)
qed

lemma scram_conns_ok_delete: "scram_conns_ok C cs \<Longrightarrow> scram_conns_ok C (cs\<lparr>conns := AList.delete d (conns cs)\<rparr>)"
  by (auto simp: scram_conns_ok_def delete_conv' split: if_splits)

definition same_kind :: "kafka_connection \<Rightarrow> kafka_connection \<Rightarrow> bool" where
  "same_kind k k' \<longleftrightarrow> ((\<exists>x. k = ScramOverMtls x) \<longleftrightarrow> (\<exists>x. k' = ScramOverMtls x))"

lemma same_kind_ops:
  "kc_get_error k = (e, k') \<Longrightarrow> same_kind k k'"
  "kc_send D ms k = (r, k') \<Longrightarrow> same_kind k k'"
  "kc_try_recv_into nid pre k = (rr, k') \<Longrightarrow> same_kind k k'"
  by (auto simp: kc_get_error_def kc_send_def kc_try_recv_into_def same_kind_def split: kafka_connection.splits prod.splits)

lemma scram_conns_ok_update:
  assumes "scram_conns_ok C cs" and "map_of (conns cs) d = Some k" and "same_kind k k'"
  shows "scram_conns_ok C (cs\<lparr>conns := AList.update d k' (conns cs)\<rparr>)"
  using assms by (fastforce simp: scram_conns_ok_def same_kind_def update_conv' split: if_splits)

lemma get_or_open_connection_scram:
  assumes "scram_conns_ok C cs" and "get_or_open_connection E C ns d cs g0 = (r, cs', g)"
  shows "scram_conns_ok C cs'"
proof (cases "find_node d ns")
  case (Inr node)
  define cs1 where "cs1 = count_out_of_rack C node cs"
  have conns1: "conns cs1 = conns cs" by (simp add: cs1_def count_out_of_rack_def split: option.split)
  then have ok1: "scram_conns_ok C cs1" using assms(1) by (simp add: scram_conns_ok_def)
  have update: "scram_conns_ok C (cs1\<lparr>conns := AList.update d k' (conns cs1)\<rparr>)"
    if "map_of (conns cs1) d = Some k" "kc_get_error k = (e, k')" for k k' e
    using scram_conns_ok_update[OF ok1 that(1) same_kind_ops(1)[OF that(2)]] .
  show ?thesis
    using assms(2) Inr ok1 update scram_conns_ok_delete[OF ok1] create_and_insert_scram
    by (fastforce simp: get_or_open_connection_def Let_def simp flip: cs1_def
        split: connection_state.splits option.splits prod.splits if_splits)
qed (use assms in \<open>simp add: get_or_open_connection_def\<close>)

lemma handle_connection_error_scram:
  assumes "scram_conns_ok C cs" and "handle_connection_error C ns d e cs = (r, ns', cs')"
  shows "scram_conns_ok C cs'"
proof -
  have "cs' = cs\<lparr>conns := AList.delete d (conns cs)\<rparr> \<or>
      (\<exists>c k. kafka_connection_new (cc_now C) (cc_scram C) (cc_mechanism C) c None = Inr k \<and>
        cs' = cs\<lparr>conns := AList.update d k (AList.delete d (conns cs))\<rparr>)"
    using assms(2) by (auto simp: handle_connection_error_def Let_def split: option.splits sum.splits if_splits)
  then show ?thesis
    using scram_conns_ok_delete[OF assms(1), of d] scram_conns_ok_new[OF scram_conns_ok_delete[OF assms(1), of d]] by auto
qed

definition conns_ok :: "world \<Rightarrow> (destination \<Rightarrow> message_id list) \<Rightarrow> sink \<Rightarrow> bool" where
  "conns_ok W w s \<longleftrightarrow> chans (sink_connections s) w \<and> scram_conns_ok (config_of W s) (sink_connections s)"

lemma send_failed_fails: "send_failed W d e s \<noteq> (Inr u, s')"
  by (auto simp: send_failed_def split: prod.splits sum.splits)

lemma open_failed_fails: "open_failed E d ms e s \<noteq> (Inr u, s')"
  by (auto simp: open_failed_def Let_def split: err.splits if_splits)

lemma chans_put:
  assumes "chans cs w" and "kc_chan k x"
  shows "chans (cs\<lparr>conns := AList.update d k (conns cs)\<rparr>) (w(d := x))"
  using assms by (auto simp: chans_def update_conv' split: option.splits) (metis option.distinct(1))

lemma send_to_ok:
  assumes "world_ok W" and "conns_ok W w s" and "send_to E W d ms s = (Ok (), s')"
  shows "conns_ok W (w(d := w d @ map id ms)) s' \<and> pending_requests s' = pending_requests s"
proof -
  obtain r cs g where o: "get_or_open_connection E (config_of W s) (nodes s) d (sink_connections s) (rng s) = (r, cs, g)"
    by (metis prod_cases3)
  have r: "r = Ok ()" using assms(3) o open_failed_fails by (cases r) (auto simp: send_to_def Let_def)
  have net: "net_ok (cc_net (config_of W s))" using assms(1) by (simp add: world_ok_def config_of_def)
  have c: "chans cs w" "map_of (conns cs) d \<noteq> None" and sc: "scram_conns_ok (config_of W s) cs"
    using get_or_open_connection_chans[OF net _ _ o[unfolded r]] get_or_open_connection_scram[OF _ o] assms(2)
    by (auto simp: conns_ok_def)
  then obtain k where k: "map_of (conns cs) d = Some k" by blast
  obtain res k' where send: "kc_send (env_dec E) ms k = (res, k')" by fastforce
  have res: "res = COk ()" and s': "s' = put_conn d k' (s\<lparr>sink_connections := cs, rng := g\<rparr>)"
    using assms(3) o r k send send_failed_fails by (auto simp: send_to_def Let_def split: conn_result.splits)
  have "kc_chan k (w d)" using c(1) k by (auto simp: chans_def dest: spec[of _ d])
  then have "kc_chan k' (w d @ map id ms)" using kc_chan_send send res by blast
  then show ?thesis
    using chans_put[OF c(1)] scram_conns_ok_update[OF sc k same_kind_ops(2)[OF send]] s'
    by (simp add: conns_ok_def put_conn_def config_of_def)
qed

definition sent_fold :: "(destination \<times> message list) list \<Rightarrow> (destination \<Rightarrow> message_id list) \<Rightarrow> destination \<Rightarrow> message_id list" where
  "sent_fold l w = fold (\<lambda>(d, ms) w. w(d := w d @ map id ms)) l w"

lemma send_all_ok:
  assumes "world_ok W" and "conns_ok W w s" and "send_all E W l s = (Ok (), s')"
  shows "conns_ok W (sent_fold l w) s' \<and> pending_requests s' = pending_requests s"
  using assms(2,3)
proof (induction l arbitrary: s w)
  case (Cons x l)
  obtain d ms where x: "x = (d, ms)" by fastforce
  obtain s1 where s1: "send_to E W d ms s = (Ok (), s1)" "send_all E W l s1 = (Ok (), s')"
    using Cons.prems(2) x by (auto split: prod.splits sum.splits)
  have "conns_ok W (w(d := w d @ map id ms)) s1" and p: "pending_requests s1 = pending_requests s"
    using send_to_ok[OF assms(1) Cons.prems(1) s1(1)] by blast+
  from Cons.IH[OF this(1) s1(2)] p x show ?case by (simp add: sent_fold_def fun_upd_def)
qed (simp add: sent_fold_def)

lemma sent_fold_eq:
  assumes "distinct (map fst l)"
  shows "sent_fold l w = (\<lambda>d. w d @ (case map_of l d of Some ms \<Rightarrow> map id ms | None \<Rightarrow> []))"
  using assms
proof (induction l arbitrary: w)
  case (Cons x l)
  obtain d ms where x: "x = (d, ms)" by fastforce
  have "map_of l d = None" using Cons.prems x by (simp add: map_of_eq_None_iff)
  then show ?case using Cons x by (auto simp: sent_fold_def fun_eq_iff)
qed (simp add: sent_fold_def)

lemma map_of_hash_iter:
  assumes "mset (ord (map fst m)) = mset (map fst m)"
  shows "map_of (hash_iter ord m) = map_of m" and "map fst (hash_iter ord m) = ord (map fst m)"
proof -
  have "set (ord (map fst m)) = dom (map_of m)" using mset_eq_setD[OF assms] by (simp add: dom_map_of_conv_image_fst)
  then show "map_of (hash_iter ord m) = map_of m" unfolding hash_iter_def by (rule map_of_map_keys)
  show "map fst (hash_iter ord m) = ord (map fst m)" by (simp add: hash_iter_def o_def)
qed

definition queue_ok :: "world \<Rightarrow> message_id list \<Rightarrow> (destination \<Rightarrow> message_id list) \<Rightarrow> sink \<Rightarrow> bool" where
  "queue_ok W ids w s \<longleftrightarrow> tracks ids w (pending_requests s) \<and> conns_ok W w s"

definition none_routed :: "pending_request list \<Rightarrow> bool" where
  "none_routed ps \<longleftrightarrow> (\<forall>p \<in> set ps. \<forall>m. pstate p \<noteq> Routed m)"

lemma send_requests_ok:
  assumes "world_ok W" and "queue_ok W ids w s" and "send_requests E W s = (Ok (), s')"
  shows "\<exists>w'. queue_ok W ids w' s' \<and> shape (pending_requests s') = shape (pending_requests s) \<and> none_routed (pending_requests s')"
proof -
  obtain queue m where q: "mark_sent [] (pending_requests s) [] = (queue, m)" by fastforce
  let ?l = "map (\<lambda>(d, rr). (d, rr_requests rr)) (hash_iter (wd_order W) m)"
  have t: "tracks ids (add_sent w (collected m)) queue" "marking w m" "shape queue = shape (pending_requests s)" "none_routed queue"
    using mark_sent_tracks[OF _ _ q, of ids w] assms(2)
    by (auto simp: queue_ok_def marking_def collected_def add_sent_def none_routed_def)
  have ord: "mset (wd_order W (map fst m)) = mset (map fst m)" using assms(1) by (simp add: world_ok_def)
  have "distinct (map fst ?l)"
    using t(2) map_of_hash_iter(2)[where ord = "wd_order W" and m = m, OF ord] mset_eq_imp_distinct_iff[OF ord] by (simp add: marking_def o_def case_prod_beta)
  moreover have "map_of ?l d = map_option rr_requests (map_of m d)" for d
    using map_of_map[of rr_requests "hash_iter (wd_order W) m"] map_of_hash_iter(1)[where ord = "wd_order W" and m = m, OF ord] by simp
  ultimately have "sent_fold ?l w = add_sent w (collected m)"
    by (auto simp: sent_fold_eq add_sent_def collected_def fun_eq_iff split: option.split)
  moreover have "conns_ok W (sent_fold ?l w) s' \<and> pending_requests s' = queue"
    using send_all_ok[OF assms(1), of w "s\<lparr>pending_requests := queue\<rparr>" E ?l s'] assms(2,3) q
    by (simp add: send_requests_def queue_ok_def conns_ok_def config_of_def)
  ultimately show ?thesis using t by (auto simp: queue_ok_def)
qed

subsubsection \<open>Receiving from the connections\<close>

lemma sink_chan_recv_err:
  assumes "sink_chan c ids" and r: "try_recv_into nid pre c = (CErr e, c')"
  shows "sink_chan c' ids"
proof (cases "conn_error c")
  case None
  obtain q where q: "map fst q = ids" "inserter c = inserter_abs q" "arrived_ok q (concat (in_rx c))"
    using assms(1) by (auto simp: sink_chan_def)
  obtain res q' where a: "answer nid q (concat (in_rx c)) = (res, q')" by fastforce
  have p: "process_responses nid (pre @ concat (in_rx c)) (length pre) (inserter c) = Ok (pre @ res, inserter_abs q')"
    unfolding q(2)
    by (rule process_responses_answer[OF arrived_ok_requested[OF q(3)] _ a])
      (use q(3) in \<open>simp add: arrived_ok_def expects_real\<close>)
  have "res = [] \<and> inserter c' = inserter_abs q' \<and> in_rx c' = [] \<and> out_tx c' = out_tx c"
    using r p None by (auto simp: try_recv_into_def handle_disconnect_on_recv_def get_error_for_close_def Let_def
        split: option.splits if_splits)
  then show ?thesis using answer_ids[OF q(3) a] q(1) assms(1) by (auto simp: sink_chan_def arrived_ok_def)
qed (use assms in \<open>simp add: try_recv_into_def\<close>)

text \<open>
  While a SCRAM connection is being replaced, its new half must be healthy: a failure there
  makes \<^verbatim>\<open>ScramOverMtlsConnection::try_recv_into\<close> drop what it has just received from the old half.
\<close>

definition settled :: "kafka_connection \<Rightarrow> bool" where
  "settled k \<longleftrightarrow> (case k of
     Regular _ \<Rightarrow> True
   | ScramOverMtls s \<Rightarrow> sc_old_connection s = None \<or> (conn_error (sc_connection s) = None \<and> \<not> in_disconnected (sc_connection s)))"

definition all_settled :: "sink \<Rightarrow> bool" where
  "all_settled s \<longleftrightarrow> (\<forall>d k. map_of (conns (sink_connections s)) d = Some k \<longrightarrow> settled k)"

lemma healthy_recv: "conn_error c = None \<Longrightarrow> \<not> in_disconnected c \<Longrightarrow> try_recv_into nid pre c \<noteq> (CErr e, c')"
  by (auto simp: try_recv_into_def Let_def split: sum.splits err.splits)

lemma scram_recv_err:
  assumes "scram_chan s ids" and "settled (ScramOverMtls s)" and "scram_try_recv_into nid pre s = (CErr e, s')"
  shows "scram_chan s' ids \<and> settled (ScramOverMtls s')"
proof (cases "sc_old_connection s")
  case None
  then show ?thesis using assms sink_chan_recv_err[of "sc_connection s" ids]
    by (auto simp: scram_try_recv_into_def scram_chan_def settled_def split: prod.splits)
next
  case (Some old)
  then have h: "conn_error (sc_connection s) = None" "\<not> in_disconnected (sc_connection s)" using assms(2) by (auto simp: settled_def)
  obtain r old' where r: "try_recv_into nid pre old = (r, old')" by fastforce
  have s': "r = CErr e" "s' = s\<lparr>sc_old_connection := Some old'\<rparr>"
    using assms(3) Some r healthy_recv[OF h] by (auto simp: scram_try_recv_into_def split: conn_result.splits prod.splits if_splits)
  obtain a b where "ids = a @ b" "a \<noteq> []" "sink_chan old a" "sink_chan (sc_connection s) b"
    using assms(1) Some by (auto simp: scram_chan_def)
  then have "\<exists>a b. ids = a @ b \<and> a \<noteq> [] \<and> sink_chan old' a \<and> sink_chan (sc_connection s) b"
    using r[unfolded s'(1)] sink_chan_recv_err by blast
  then show ?thesis using h by (simp add: s'(2) scram_chan_def settled_def)
qed

lemma scram_recv_settled:
  assumes "settled (ScramOverMtls s)" and "scram_try_recv_into nid pre s = (COk rs, s')"
  shows "settled (ScramOverMtls s')"
  using assms by (auto simp: scram_try_recv_into_def settled_def split: conn_result.splits prod.splits if_splits option.splits)

lemma kc_recv_err:
  assumes "kc_chan k ids" and "settled k" and "kc_try_recv_into nid pre k = (CErr e, k')"
  shows "kc_chan k' ids \<and> settled k'"
proof (cases k)
  case (Regular c)
  then show ?thesis using assms sink_chan_recv_err[of c ids]
    by (auto simp: kc_try_recv_into_def kc_chan_def settled_def split: prod.splits)
next
  case (ScramOverMtls s)
  then show ?thesis using assms scram_recv_err[of s ids]
    by (auto simp: kc_try_recv_into_def kc_chan_def split: prod.splits)
qed

lemma kc_recv_settled:
  assumes "settled k" and "kc_try_recv_into nid pre k = (COk rs, k')"
  shows "settled k'"
proof (cases k)
  case (Regular c)
  then show ?thesis using assms by (auto simp: kc_try_recv_into_def settled_def split: prod.splits)
next
  case (ScramOverMtls s)
  then show ?thesis using assms scram_recv_settled by (auto simp: kc_try_recv_into_def split: prod.splits)
qed

definition recv_ok :: "world \<Rightarrow> message_id list \<Rightarrow> (destination \<times> pending_request_ty \<times> nat) list \<Rightarrow> sink \<Rightarrow> bool" where
  "recv_ok W ids sh s \<longleftrightarrow> (\<exists>w. queue_ok W ids w s) \<and> all_settled s \<and> shape (pending_requests s) = sh"

lemma recv_from_ok:
  assumes "recv_ok W ids sh s" and "recv_from W d (s, errs) = Ok (s', errs')"
  shows "recv_ok W ids sh s'"
proof (cases "map_of (conns (sink_connections s)) d")
  case None
  then show ?thesis using assms by (simp add: recv_from_def)
next
  case (Some k)
  obtain w where w: "tracks ids w (pending_requests s)" "chans (sink_connections s) w"
    "scram_conns_ok (config_of W s) (sink_connections s)"
    using assms(1) by (auto simp: recv_ok_def queue_ok_def conns_ok_def)
  have k: "kc_chan k (w d)" "settled k"
    using w(2) assms(1) Some by (auto simp: chans_def recv_ok_def all_settled_def dest: spec[of _ d])
  obtain r k' where r: "kc_try_recv_into (wd_nid W) [] k = (r, k')" by fastforce
  have sc: "scram_conns_ok (config_of W s) ((sink_connections s)\<lparr>conns := AList.update d k' (conns (sink_connections s))\<rparr>)"
    by (rule scram_conns_ok_update[OF w(3) Some same_kind_ops(3)[OF r]])
  have st: "all_settled (put_conn d k' s)" if "settled k'"
    using that assms(1) by (auto simp: recv_ok_def all_settled_def put_conn_def update_conv')
  show ?thesis
  proof (cases r)
    case (COk rs)
    obtain new where n: "rs = new" "length new \<le> length (w d)" "map request_id new = map Some (take (length new) (w d))"
      "kc_chan k' (drop (length new) (w d))" using kc_chan_recv[OF k(1) r[unfolded COk]] by auto
    obtain ps' where ps': "fold_result (\<lambda>r. deliver d (Some r)) rs (pending_requests s) = Ok ps'" "shape ps' = shape (pending_requests s)"
      "tracks ids (w(d := drop (length rs) (w d))) ps'" using deliver_all_tracks[OF w(1)] n by blast
    have s': "s' = (put_conn d k' s)\<lparr>pending_requests := ps'\<rparr>"
      using assms(2) Some r COk ps'(1) by (simp add: recv_from_def)
    have "queue_ok W ids (w(d := drop (length rs) (w d))) s'"
      using ps'(3) chans_put[OF w(2) n(4)] sc n(1) by (simp add: s' queue_ok_def conns_ok_def put_conn_def config_of_def)
    then show ?thesis using st[OF kc_recv_settled[OF k(2) r[unfolded COk]]] ps'(2) assms(1)
      by (auto simp: recv_ok_def s' all_settled_def)
  next
    case (CErr e)
    have k': "kc_chan k' (w d)" "settled k'" using kc_recv_err[OF k r[unfolded CErr]] by blast+
    have "s' = put_conn d k' s" using assms(2) Some r CErr by (simp add: recv_from_def)
    then show ?thesis using chans_update[OF w(2) k'(1)] sc w(1) st[OF k'(2)] assms(1)
      by (auto simp: recv_ok_def queue_ok_def conns_ok_def put_conn_def config_of_def)
  qed (use assms(2) Some r in \<open>simp add: recv_from_def\<close>)
qed

lemma chans_delete:
  assumes "chans cs w" and "w d = []"
  shows "chans (cs\<lparr>conns := AList.delete d (conns cs)\<rparr>) w"
  unfolding chans_def
proof
  fix e
  show "case map_of (conns (cs\<lparr>conns := AList.delete d (conns cs)\<rparr>)) e of Some k \<Rightarrow> kc_chan k (w e) | None \<Rightarrow> w e = []"
    using assms by (cases "e = d") (simp_all add: chans_def delete_conv')
qed

lemma handle_recv_error_ok:
  assumes "world_ok W" and "queue_ok W ids w s" and "handle_recv_error W de s = Ok s'"
  shows "queue_ok W ids w s' \<and> pending_requests s' = pending_requests s"
proof (cases "map_of (conns (sink_connections s)) (fst de)")
  case None
  then show ?thesis using assms by (simp add: handle_recv_error_def)
next
  case (Some k)
  have c: "chans (sink_connections s) w" and sc: "scram_conns_ok (config_of W s) (sink_connections s)"
    using assms(2) by (auto simp: queue_ok_def conns_ok_def)
  have net: "net_ok (cc_net (config_of W s))" using assms(1) by (simp add: world_ok_def config_of_def)
  show ?thesis
  proof (cases "kc_pending_requests_count k = 0")
    case True
    have "kc_chan k (w (fst de))" using c Some by (auto simp: chans_def dest: spec[of _ "fst de"])
    then have "w (fst de) = []" using kc_chan_pending True by fastforce
    then show ?thesis using assms(2,3) Some True scram_conns_ok_delete[OF sc] chans_delete[OF c]
      by (auto simp: handle_recv_error_def queue_ok_def conns_ok_def config_of_def)
  next
    case False
    obtain ns cs where h: "handle_connection_error (config_of W s) (nodes s) (fst de) (snd de) (sink_connections s) = (Ok (), ns, cs)"
      and s': "s' = set_nodes ns (s\<lparr>sink_connections := cs\<rparr>)"
      using assms(3) Some False by (auto simp: handle_recv_error_def split: prod.splits sum.splits)
    show ?thesis
      using handle_connection_error_chans[OF net c h] handle_connection_error_scram[OF sc h] assms(2)
      by (simp add: s' queue_ok_def conns_ok_def set_nodes_def config_of_def)
  qed
qed

lemma recv_all_ok:
  assumes "world_ok W" and "queue_ok W ids w s" and "all_settled s" and "recv_all W s = Ok s'"
  shows "\<exists>w'. queue_ok W ids w' s' \<and> shape (pending_requests s') = shape (pending_requests s)"
proof -
  have start: "recv_ok W ids (shape (pending_requests s)) s" using assms(2,3) by (auto simp: recv_ok_def)
  obtain s1 errs where f: "fold_result (recv_from W) (wd_order W (map fst (conns (sink_connections s)))) (s, []) = Ok (s1, errs)"
    and h: "fold_result (handle_recv_error W) errs s1 = Ok s'"
    using assms(4) by (auto simp: recv_all_def bind_result_Ok)
  have "recv_ok W ids (shape (pending_requests s)) (fst x')"
    if "fold_result (recv_from W) ds x = Ok x'" "recv_ok W ids (shape (pending_requests s)) (fst x)" for ds x x'
    using that
  proof (induction ds arbitrary: x)
    case (Cons d ds)
    then obtain y where "recv_from W d x = Ok y" "fold_result (recv_from W) ds y = Ok x'" by (auto simp: bind_result_Ok)
    then show ?case using Cons recv_from_ok[of W ids _ "fst x" d "snd x" "fst y" "snd y"] by auto
  qed simp
  from this[OF f] start obtain w1 where w1: "queue_ok W ids w1 s1" "shape (pending_requests s1) = shape (pending_requests s)"
    by (auto simp: recv_ok_def)
  have "queue_ok W ids w1 y \<and> pending_requests y = pending_requests x"
    if "fold_result (handle_recv_error W) es x = Ok y" "queue_ok W ids w1 x" for es x y
    using that
  proof (induction es arbitrary: x)
    case (Cons e es)
    then obtain z where "handle_recv_error W e x = Ok z" "fold_result (handle_recv_error W) es z = Ok y" by (auto simp: bind_result_Ok)
    then show ?case using Cons handle_recv_error_ok[OF assms(1), of ids w1 x e z] by auto
  qed simp
  from this[OF h w1(1)] w1(2) show ?thesis by auto
qed

subsubsection \<open>Responses leave in the order of the requests\<close>

text \<open>The ids of the client's requests that are in the queue: of each group the first.\<close>

function group_heads :: "message_id list \<Rightarrow> pending_request list \<Rightarrow> message_id list" where
  "group_heads (i # is) (p # ps) = i # group_heads (drop (pcombine p - 1) is) (drop (pcombine p - 1) ps)"
| "group_heads [] ps = []"
| "group_heads is [] = []"
  by pat_completeness auto
termination
  by (relation "measure (length o snd)") auto

lemma tracks_length: "tracks ids w ps \<Longrightarrow> length ids = length ps"
  by (auto simp: tracks_def dest: list_all2_lengthD)

lemma group_heads_shape:
  "shape ps = shape qs \<Longrightarrow> group_heads ids ps = group_heads ids qs"
proof (induction ids ps arbitrary: qs rule: group_heads.induct)
  case (1 i "is" p ps)
  then obtain q qs' where q: "qs = q # qs'" "pcombine q = pcombine p" "shape ps = shape qs'" by (auto simp: shape_def)
  then have "shape (drop (pcombine p - 1) ps) = shape (drop (pcombine p - 1) qs')" by (simp add: shape_def flip: drop_map)
  from 1(1)[OF this] q show ?case by simp
qed (auto simp: shape_def)

lemma group_heads_drop:
  "0 < n \<Longrightarrow> pcombine p = n \<Longrightarrow> length ids = Suc (length ps) \<Longrightarrow>
     group_heads ids (p # ps) = hd ids # group_heads (drop n ids) (drop n (p # ps))"
  by (cases n; cases ids) auto

lemma tracks_drop:
  assumes "tracks ids w ps" and "\<forall>p \<in> set (take n ps). is_received p"
  shows "tracks (drop n ids) w (drop n ps)"
proof -
  have "sent_indices d (take n ps) = []" for d
  proof -
    have "sent_indices d qs = []" if "\<forall>p \<in> set qs. is_received p" for qs
      using that by (induction qs) (auto simp: sent_indices_Cons is_received_def split: pending_request_state.splits)
    then show ?thesis using assms(2) by blast
  qed
  then have "sent_indices d ps = sent_indices d (drop n ps)" for d
    using sent_indices_append[of d "take n ps" "drop n ps"] by simp
  then show ?thesis using assms(1) by (simp add: tracks_def list_all2_dropI)
qed

lemma all_combined_received_iff:
  "all_combined_received n ps \<longleftrightarrow> n \<le> length ps \<and> (\<forall>p \<in> set (take n ps). is_received p)"
proof
  assume "all_combined_received n ps"
  then have a: "i < length ps \<and> is_received (ps ! i)" if "i < n" for i
    using that by (auto simp: all_combined_received_def list_all_iff get_def split: if_splits)
  have "n \<le> length ps" using a[of "length ps"] by (cases "length ps < n") auto
  then show "n \<le> length ps \<and> (\<forall>p \<in> set (take n ps). is_received p)" using a by (auto simp: in_set_conv_nth)
next
  assume "n \<le> length ps \<and> (\<forall>p \<in> set (take n ps). is_received p)"
  then have "i < length ps \<and> is_received (ps ! i)" if "i < n" for i
    using that nth_mem[of i "take n ps"] by auto
  then show "all_combined_received n ps" by (auto simp: all_combined_received_def list_all_iff get_def)
qed

lemma map_result_Ok: "map_result f xs = Ok ys \<longleftrightarrow> list_all2 (\<lambda>x y. f x = Ok y) xs ys"
  by (induction xs arbitrary: ys) (auto simp: bind_result_Ok list_all2_Cons1)

lemma take_response_request:
  assumes "take_response E n ps = Ok r" and "tracks ids w ps" and "n \<le> length ps"
  shows "request_id r = Some (hd ids)"
proof -
  obtain rs where rs: "list_all2 (\<lambda>p x. received_response p = Ok x) (take n ps) rs"
    and r: "(if n = 1 then Ok (rc_response (hd rs)) else combine_responses E rs) = Ok r"
    using assms(1) by (auto simp: take_response_def bind_result_Ok map_result_Ok)
  have n: "n \<noteq> 0" using take_response_nonempty assms(1) by blast
  then obtain p ps' i ids' where p: "ps = p # ps'" "ids = i # ids'" and e: "entry_ok w i p"
    using assms(2,3) by (cases ps; cases ids) (auto simp: tracks_def)
  obtain x rs' where x: "rs = x # rs'" and "received_response p = Ok x"
    using rs n p(1) by (cases n) (auto simp: list_all2_Cons1)
  then have "request_id (rc_response x) = Some i"
    using e by (auto simp: received_response_def entry_ok_def split: pending_request_state.splits)
  moreover have "request_id r = request_id (rc_response x)"
    using r x combine_responses_keeps(1)[of E x rs' r] by (auto split: if_splits)
  ultimately show ?thesis using p(2) by simp
qed

lemma route_again_keeps:
  assumes "route_again p = Ok q"
  shows "entry_ok w i p \<Longrightarrow> entry_ok w i q" and "shape [q] = shape [p]"
    and "sent_indices d [q] = []" and "sent_indices d [p] = []"
  using assms
  by (auto simp: route_again_def entry_ok_def shape_def sent_indices_Cons split: pending_request_state.splits option.splits)

lemma route_all_again_keeps:
  assumes "list_all2 (\<lambda>p q. route_again p = Ok q) ps qs"
  shows "list_all2 (entry_ok w) ids ps \<Longrightarrow> list_all2 (entry_ok w) ids qs"
    and "shape qs = shape ps" and "sent_indices d qs = sent_indices d ps"
proof -
  show "shape qs = shape ps" using assms
    by (induction rule: list_all2_induct) (auto dest: route_again_keeps(2) simp: shape_def)
  show "sent_indices d qs = sent_indices d ps" using assms
  proof (induction rule: list_all2_induct)
    case (Cons p ps q qs)
    then show ?case
      using route_again_keeps(3,4)[OF Cons(1), of d] sent_indices_append[of d "[p]" ps] sent_indices_append[of d "[q]" qs] by simp
  qed simp
  show "list_all2 (entry_ok w) ids qs" if "list_all2 (entry_ok w) ids ps" using assms that
  proof (induction arbitrary: ids rule: list_all2_induct)
    case (Cons p ps q qs)
    then show ?case using route_again_keeps(1)[OF Cons(1)] by (auto simp: list_all2_Cons2)
  qed simp
qed

lemma refetch_tracks:
  assumes "refetch n s = Ok s'" and "tracks ids w (pending_requests s)"
  shows "tracks ids w (pending_requests s') \<and> shape (pending_requests s') = shape (pending_requests s)"
proof -
  let ?ps = "pending_requests s"
  obtain front where f: "list_all2 (\<lambda>p q. route_again p = Ok q) (take n ?ps) front"
    and s': "pending_requests s' = front @ drop n ?ps"
    using assms(1) by (auto simp: refetch_def bind_result_Ok map_result_Ok)
  have ids: "list_all2 (entry_ok w) (take n ids) (take n ?ps)" "list_all2 (entry_ok w) (drop n ids) (drop n ?ps)"
    using assms(2) by (auto simp: tracks_def list_all2_takeI list_all2_dropI)
  have "list_all2 (entry_ok w) (take n ids @ drop n ids) (pending_requests s')"
    unfolding s' using ids route_all_again_keeps(1)[OF f] by (intro list_all2_appendI) blast+
  moreover have "sent_indices d (pending_requests s') = sent_indices d ?ps" for d
    using sent_indices_append[of d "take n ?ps" "drop n ?ps"] by (simp add: s' route_all_again_keeps(3)[OF f])
  moreover have "shape (pending_requests s') = shape (take n ?ps @ drop n ?ps)"
    using route_all_again_keeps(2)[OF f] unfolding s' by (simp only: shape_def map_append)
  ultimately show ?thesis using assms(2) by (simp add: tracks_def)
qed

text \<open>One round of the loop: it ends, or sends the fetch at the front again, or returns a response.\<close>

lemma drain_ready_cases:
  assumes d: "drain_ready E W close s = Ok (rs, close', s')"
  obtains (stop) "rs = []" "s' = s" "pending_requests s = [] \<or> \<not> all_combined_received (pcombine (hd (pending_requests s))) (pending_requests s)"
  | (again) n where "rs = []" "refetch n s = Ok s'" "pending_requests s \<noteq> [] \<and> n = pcombine (hd (pending_requests s))"
  | (pop) p ps r r' close1 s1 rs1 where "pending_requests s = p # ps"
      "all_combined_received (pcombine p) (p # ps)" "take_response E (pcombine p) (p # ps) = Ok r"
      "process_response E r (pty p) close (reset_backoff (pty p) (s\<lparr>pending_requests := drop (pcombine p) (p # ps)\<rparr>)) = Ok (r', close1, s1)"
      "drain_ready E W close1 s1 = Ok (rs1, close', s')" "rs = r' # rs1"
proof (cases "pending_requests s")
  case Nil
  then show ?thesis using d stop by (simp add: drain_ready.simps[of E W close s])
next
  case (Cons p ps)
  note unfolded = d[unfolded drain_ready.simps[of E W close s] Cons list.case]
  show ?thesis
  proof (cases "all_combined_received (pcombine p) (p # ps)")
    case False
    then show ?thesis using unfolded stop Cons by simp
  next
    case True
    note True' = this
    note u1 = unfolded[unfolded if_P[OF True]]
    show ?thesis
    proof (cases "must_refetch E (wd_clock W (length (p # ps))) (pty p) (pcombine p) (p # ps)")
      case (Inl e)
      then show ?thesis using u1 by simp
    next
      case (Inr b)
      show ?thesis
      proof (cases b)
        case True
        then show ?thesis using u1 Inr again Cons by (auto simp: bind_result_Ok)
      next
        case False
        then have b: "b = False" by simp
        note u2 = u1[unfolded Inr sum.case b bool.case]
        obtain r where r: "take_response E (pcombine p) (p # ps) = Ok r"
          using u2 by (cases "take_response E (pcombine p) (p # ps)") simp_all
        note u3 = u2[unfolded r sum.case]
        obtain x where x: "process_response E r (pty p) close (reset_backoff (pty p) (s\<lparr>pending_requests := drop (pcombine p) (p # ps)\<rparr>)) = Ok x"
          using u3 by (cases "process_response E r (pty p) close (reset_backoff (pty p) (s\<lparr>pending_requests := drop (pcombine p) (p # ps)\<rparr>))") simp_all
        obtain r' close1 s1 where x': "x = (r', close1, s1)" by (cases x)
        note u4 = u3[unfolded x sum.case x' prod.case]
        obtain y where y: "drain_ready E W close1 s1 = Ok y" using u4 by (cases "drain_ready E W close1 s1") simp_all
        obtain rs1 c2 s2 where y': "y = (rs1, c2, s2)" by (cases y)
        note u5 = u4[unfolded y sum.case y' prod.case]
        show ?thesis by (rule pop[OF Cons True' r x[unfolded x']]) (use u5 y y' in auto)
      qed
    qed
  qed
qed

text \<open>
  The responses that leave, followed by the requests that stay, are the requests that were
  queued: none is lost, none is answered twice, and the order is kept.
\<close>

lemma drain_ready_in_order:
  assumes "drain_ready E W close s = Ok (rs, close', s')" and "tracks ids w (pending_requests s)"
  shows "\<exists>ids'. tracks ids' w (pending_requests s') \<and>
    map Some (group_heads ids (pending_requests s)) = map request_id rs @ map Some (group_heads ids' (pending_requests s'))"
  using assms
proof (induction "length (pending_requests s)" arbitrary: s close rs close' s' ids rule: less_induct)
  case less
  show ?case using less.prems(1)
  proof (cases rule: drain_ready_cases)
    case stop
    then show ?thesis using less.prems(2) by auto
  next
    case (again n)
    then show ?thesis using refetch_tracks[of n s s' ids w] less.prems(2) group_heads_shape[of "pending_requests s'" "pending_requests s"]
      by auto
  next
    case (pop p ps r r' close1 s1 rs1)
    let ?n = "pcombine p"
    have n: "0 < ?n" "?n \<le> length (p # ps)"
      using take_response_nonempty[OF pop(3)] pop(2) by (auto simp: all_combined_received_iff)
    have q1: "pending_requests s1 = drop ?n (p # ps)" using process_response_queue[OF pop(4)] by (simp add: reset_backoff_def)
    have t: "tracks ids w (p # ps)" using less.prems(2) pop(1) by simp
    have "tracks (drop ?n ids) w (pending_requests s1)"
      using tracks_drop[OF t] pop(2) by (auto simp: q1 all_combined_received_iff)
    moreover have "length (pending_requests s1) < length (pending_requests s)" using n pop(1) by (simp add: q1)
    ultimately obtain ids' where ids': "tracks ids' w (pending_requests s')"
      "map Some (group_heads (drop ?n ids) (pending_requests s1)) = map request_id rs1 @ map Some (group_heads ids' (pending_requests s'))"
      using less.hyps[OF _ pop(5)] by blast
    have "request_id r' = Some (hd ids)"
      using take_response_request[OF pop(3) t n(2)] process_response_ids[OF pop(4)] by simp
    moreover have "group_heads ids (p # ps) = hd ids # group_heads (drop ?n ids) (pending_requests s1)"
      using group_heads_drop[OF n(1) refl, of ids ps] tracks_length[OF t] by (simp add: q1)
    ultimately show ?thesis using ids' pop(1,6) by auto
  qed
qed

text \<open>
  Processing responses leaves the connections alone.  It may change the SCRAM state of the
  client, but not whether SCRAM is configured nor its timeout.
\<close>

lemma conns_ok_same_core: "same_core s s' \<Longrightarrow> conns_ok W w s' \<longleftrightarrow> conns_ok W w s"
  by (simp add: conns_ok_def same_core_def config_of_def)

lemma conns_ok_queue [simp]:
  "conns_ok W w (s\<lparr>pending_requests := q\<rparr>) = conns_ok W w s"
  "conns_ok W w (s\<lparr>refetch_backoff := b\<rparr>) = conns_ok W w s"
  by (simp_all add: conns_ok_def config_of_def)

lemma drain_ready_conns:
  assumes "drain_ready E W close s = Ok (rs, close', s')"
  shows "conns_ok W w s' \<longleftrightarrow> conns_ok W w s"
  using assms
proof (induction "length (pending_requests s)" arbitrary: s close rs close' s' rule: less_induct)
  case less
  show ?case using less.prems
  proof (cases rule: drain_ready_cases)
    case (again n)
    then show ?thesis by (auto simp: refetch_def bind_result_Ok conns_ok_def config_of_def)
  next
    case (pop p ps r r' close1 s1 rs1)
    have "0 < pcombine p" using take_response_nonempty[OF pop(3)] by blast
    then have "length (pending_requests s1) < length (pending_requests s)"
      using process_response_queue[OF pop(4)] pop(1) by (simp add: reset_backoff_def)
    then show ?thesis
      using less.hyps[OF _ pop(5)] conns_ok_same_core[OF process_response_core[OF pop(4)], of W w] by (simp add: reset_backoff_def split: if_splits)
  qed simp
qed

lemma recv_responses_cases:
  assumes "recv_responses E W close s = Ok (rs, close', s')"
  obtains s1 s2 where "recv_all W s = Ok s1" "drain_ready E W close s1 = Ok (rs, close', s2)" "send_requests E W s2 = (Ok (), s')"
proof -
  obtain s1 y where r: "recv_all W s = Ok s1" and y: "drain_ready E W close s1 = Ok y"
    and z: "(case y of (rs, close', s2) \<Rightarrow> case send_requests E W s2 of (Inl e, _) \<Rightarrow> Inl e | (Inr _, s3) \<Rightarrow> Ok (rs, close', s3)) = Ok (rs, close', s')"
    using assms unfolding recv_responses_def bind_result_Ok by blast
  obtain rs2 c2 s2 where y': "y = (rs2, c2, s2)" by (cases y)
  obtain res s3 where sr: "send_requests E W s2 = (res, s3)" by fastforce
  show ?thesis using r y z that by (cases res) (auto simp: y' sr)
qed

lemma recv_responses_in_order:
  assumes "world_ok W" and "queue_ok W ids w s" and "all_settled s"
    and "recv_responses E W close s = Ok (rs, close', s')"
  shows "\<exists>ids' w'. queue_ok W ids' w' s' \<and> none_routed (pending_requests s') \<and>
    map Some (group_heads ids (pending_requests s)) = map request_id rs @ map Some (group_heads ids' (pending_requests s'))"
proof -
  obtain s1 s2 where r: "recv_all W s = Ok s1" and d: "drain_ready E W close s1 = Ok (rs, close', s2)"
    and sr: "send_requests E W s2 = (Ok (), s')"
    by (rule recv_responses_cases[OF assms(4)])
  obtain w1 where w1: "queue_ok W ids w1 s1" "shape (pending_requests s1) = shape (pending_requests s)"
    using recv_all_ok[OF assms(1-3) r] by blast
  obtain ids' where ids': "tracks ids' w1 (pending_requests s2)"
    "map Some (group_heads ids (pending_requests s1)) = map request_id rs @ map Some (group_heads ids' (pending_requests s2))"
    using drain_ready_in_order[OF d] w1(1) by (auto simp: queue_ok_def)
  have "conns_ok W w1 s2" using drain_ready_conns[OF d] w1(1) by (simp add: queue_ok_def)
  then obtain w2 where "queue_ok W ids' w2 s'" "shape (pending_requests s') = shape (pending_requests s2)" "none_routed (pending_requests s')"
    using send_requests_ok[OF assms(1) _ sr] ids'(1) by (auto simp: queue_ok_def)
  then show ?thesis using ids'(2) group_heads_shape[OF w1(2)] group_heads_shape by metis
qed

end
