(* ===== verification/Kafka_Control.thy ===== *)
theory Kafka_Control
  imports Kafka_Pending
begin

text \<open>
  Requests the sink makes on its own over the control connection, and the caches that decide
  when it has to (\<^verbatim>\<open>control_send_receive\<close>, \<^verbatim>\<open>find_coordinator\<close>, \<^verbatim>\<open>get_metadata_of_topics\<close> and the
  \<^verbatim>\<open>store_*\<close> methods of \<^verbatim>\<open>src/shotover/src/transforms/kafka/sink_cluster/mod.rs\<close>).
\<close>

subsection \<open>Waiting for a response\<close>

definition conn_recv :: "(message_id \<Rightarrow> message_id) \<Rightarrow> message list option \<Rightarrow> sink_connection \<Rightarrow> message list conn_result \<times> sink_connection" where
  "conn_recv nid next c = recv_into nid next [] c"

definition scram_recv ::
  "(message_id \<Rightarrow> message_id) \<Rightarrow> message list option \<Rightarrow> scram_connection \<Rightarrow> message list conn_result \<times> scram_connection" where
  "scram_recv nid next s = (case sc_old_connection s of
     Some old \<Rightarrow> (case conn_recv nid next old of
         (COk received, old') \<Rightarrow>
           (if conn_pending_requests_count old' = 0
            then (case try_recv_into nid received (sc_connection s) of (r, c) \<Rightarrow> (r, s\<lparr>sc_old_connection := None, sc_connection := c\<rparr>))
            else (COk received, s\<lparr>sc_old_connection := Some old'\<rparr>))
       | (r, old') \<Rightarrow> (r, s\<lparr>sc_old_connection := Some old'\<rparr>))
   | None \<Rightarrow> (case conn_recv nid next (sc_connection s) of (r, c) \<Rightarrow> (r, s\<lparr>sc_connection := c\<rparr>)))"

definition kc_recv ::
  "(message_id \<Rightarrow> message_id) \<Rightarrow> message list option \<Rightarrow> kafka_connection \<Rightarrow> message list conn_result \<times> kafka_connection" where
  "kc_recv nid next k = (case k of
     Regular c \<Rightarrow> (case conn_recv nid next c of (r, c') \<Rightarrow> (r, Regular c'))
   | ScramOverMtls s \<Rightarrow> (case scram_recv nid next s of (r, s') \<Rightarrow> (r, ScramOverMtls s')))"

subsection \<open>The control connection\<close>

definition control_send_receive_inner :: "kafka_env \<Rightarrow> world \<Rightarrow> nat \<Rightarrow> message \<Rightarrow> sink \<Rightarrow> message result \<times> sink" where
  "control_send_receive_inner E W attempt request s =
    (if \<not> auth_complete s
     then (Inl (Panic ''control_send_receive cannot be called until auth is complete''), s)
     else (case get_or_open_connection E (config_of W s) (nodes s) ControlConnection (sink_connections s) (rng s) of
        (r, cs, g) \<Rightarrow>
          (let s1 = s\<lparr>sink_connections := cs, rng := g\<rparr> in
           case r of
             Inl e \<Rightarrow> (Inl e, s1)
           | Inr _ \<Rightarrow> (case map_of (conns cs) ControlConnection of
                None \<Rightarrow> (Inl (Panic ''called Option::unwrap() on a None value''), s1)
              | Some k \<Rightarrow> (case kc_send (env_dec E) [request] k of
                   (COk _, k1) \<Rightarrow> (case kc_recv (wd_nid W) (wd_await W attempt request) k1 of
                       (COk (response # _), k2) \<Rightarrow> (Ok response, put_conn ControlConnection k2 s1)
                     | (COk [], k2) \<Rightarrow> (Inl (Panic ''removal index (is 0) should be < len (is 0)''), put_conn ControlConnection k2 s1)
                     | (CErr e, k2) \<Rightarrow> (Inl (conn_err e), put_conn ControlConnection k2 s1)
                     | (CPanic m, k2) \<Rightarrow> (Inl (Panic m), put_conn ControlConnection k2 s1))
                 | (CErr e, k1) \<Rightarrow> (Inl (conn_err e), put_conn ControlConnection k1 s1)
                 | (CPanic m, k1) \<Rightarrow> (Inl (Panic m), put_conn ControlConnection k1 s1))))))"

definition drop_control :: "sink \<Rightarrow> sink" where
  "drop_control s = s\<lparr>sink_connections := (sink_connections s)\<lparr>conns := AList.delete ControlConnection (conns (sink_connections s))\<rparr>\<rparr>"

text \<open>The loop over the remaining brokers; \<open>None\<close> when the fuel is used up before it ends.\<close>

fun control_retry :: "nat \<Rightarrow> kafka_env \<Rightarrow> world \<Rightarrow> nat \<Rightarrow> message \<Rightarrow> sink \<Rightarrow> (message result \<times> sink) option" where
  "control_retry 0 E W n request s = None"
| "control_retry (Suc fuel) E W n request s =
    (case control_send_receive_inner E (W\<lparr>wd_net := wd_retry_net W n\<rparr>) n request (drop_control s) of
       (Inr response, s1) \<Rightarrow> Some (Ok response, s1)
     | (Inl (Panic m), s1) \<Rightarrow> Some (Inl (Panic m), s1)
     | (Inl (Err m), s1) \<Rightarrow>
         (if list_all (\<lambda>x. \<not> kn_is_up x) (nodes s1) then Some (Inl (Err m), s1)
          else control_retry fuel E W (Suc n) request s1))"

definition control_send_receive :: "nat \<Rightarrow> kafka_env \<Rightarrow> world \<Rightarrow> message \<Rightarrow> sink \<Rightarrow> (message result \<times> sink) option" where
  "control_send_receive fuel E W request s = (case control_send_receive_inner E W 0 request s of
     (Inr response, s1) \<Rightarrow> Some (Ok response, s1)
   | (Inl (Panic m), s1) \<Rightarrow> Some (Inl (Panic m), s1)
   | (Inl (Err m), s1) \<Rightarrow>
      (case handle_connection_error (config_of W s1) (nodes s1) ControlConnection (Err m) (sink_connections s1) of
         (r, ns, cs) \<Rightarrow>
           (let s2 = set_nodes ns (s1\<lparr>sink_connections := cs\<rparr>) in
            case r of
              Inr _ \<Rightarrow> Some (control_send_receive_inner E W 1 request s2)
            | Inl (Panic m') \<Rightarrow> Some (Inl (Panic m'), s2)
            | Inl (Err _) \<Rightarrow> control_retry fuel E W 2 request s2)))"

subsection \<open>Control requests\<close>

text \<open>A control request gets a fresh message id; the fields not set keep their default value.\<close>

definition control_request :: "kafka_env \<Rightarrow> string \<Rightarrow> int \<Rightarrow> request_body \<Rightarrow> sink \<Rightarrow> message \<times> sink" where
  "control_request E key version body s = (case next_id E s of (i, s1) \<Rightarrow>
     (from_frame i (FKafka (Request \<lparr>request_api_key = api_key_code E key, request_api_version = version,
        correlation_id = 0, rh_rest = 0\<rparr> body)), s1))"

datatype coordinator_key = GroupKey string | TransactionKey string

definition find_coordinator_body :: "coordinator_key \<Rightarrow> request_body" where
  "find_coordinator_body key = FindCoordinator (case key of
     GroupKey i \<Rightarrow> \<lparr>fc_key = i, fc_key_type = 0, fc_rest = 0\<rparr>
   | TransactionKey i \<Rightarrow> \<lparr>fc_key = i, fc_key_type = 1, fc_rest = 0\<rparr>)"

text \<open>\<open>Ok None\<close> is \<^verbatim>\<open>FindCoordinatorError::CoordinatorNotAvailable\<close>, an error \<^verbatim>\<open>Unrecoverable\<close>.\<close>

definition coordinator_of_response :: "kafka_env \<Rightarrow> message \<Rightarrow> kafka_node option result" where
  "coordinator_of_response E response = (case fst (frame (env_dec E) response) of
     Some (FKafka (Response _ _ (FindCoordinatorR c))) \<Rightarrow> (case try_from_code E (fcr_error_code c) of
         None \<Rightarrow> Ok (Some (kafka_node_new (fcr_node_id c) \<lparr>host = fcr_host c, port = fcr_port c\<rparr> None))
       | Some CoordinatorNotAvailable \<Rightarrow> Ok None
       | Some _ \<Rightarrow> Inl (Err ''Unexpected server error from FindCoordinator''))
   | Some (FKafka _) \<Rightarrow> Inl (Err ''Unexpected response returned to findcoordinator request'')
   | None \<Rightarrow> Inl (Err ''Response to FindCoordinator could not be parsed'')
   | Some _ \<Rightarrow> Inl (Panic ''internal error: entered unreachable code: response to FindCoordinator was not a kafka response''))"

definition find_coordinator :: "nat \<Rightarrow> kafka_env \<Rightarrow> world \<Rightarrow> coordinator_key \<Rightarrow> sink \<Rightarrow> (kafka_node option result \<times> sink) option" where
  "find_coordinator fuel E W key s =
    (case control_request E ''FindCoordinator'' 2 (find_coordinator_body key) s of (request, s1) \<Rightarrow>
     (case control_send_receive fuel E W request s1 of
        None \<Rightarrow> None
      | Some (Inl e, s2) \<Rightarrow> Some (Inl e, s2)
      | Some (Inr response, s2) \<Rightarrow> Some (coordinator_of_response E response, s2)))"

definition metadata_body :: "string list \<Rightarrow> uuid list \<Rightarrow> request_body" where
  "metadata_body topic_names topic_ids = Metadata (Some (map (\<lambda>n. \<lparr>mrt_name = Some n, mrt_topic_id = 0\<rparr>) topic_names @
     map (\<lambda>i. \<lparr>mrt_name = None, mrt_topic_id = i\<rparr>) topic_ids)) 0"

definition get_metadata_of_topics ::
  "nat \<Rightarrow> kafka_env \<Rightarrow> world \<Rightarrow> string list \<Rightarrow> uuid list \<Rightarrow> sink \<Rightarrow> (message result \<times> sink) option" where
  "get_metadata_of_topics fuel E W topic_names topic_ids s =
    (case control_request E ''Metadata'' (if topic_ids = [] then 4 else 12) (metadata_body topic_names topic_ids) s of
       (request, s1) \<Rightarrow> control_send_receive fuel E W request s1)"

fun get_metadata_loop ::
  "nat \<Rightarrow> nat \<Rightarrow> kafka_env \<Rightarrow> world \<Rightarrow> string list \<Rightarrow> uuid list \<Rightarrow> sink \<Rightarrow> (message result \<times> sink) option" where
  "get_metadata_loop 0 fuel E W names ids s = Some (Inl (Err ''Broker returned empty list of brokers''), s)"
| "get_metadata_loop (Suc n) fuel E W names ids s = (case get_metadata_of_topics fuel E W names ids s of
     None \<Rightarrow> None
   | Some (Inl e, s1) \<Rightarrow> Some (Inl e, s1)
   | Some (Inr response, s1) \<Rightarrow> (case frame (env_dec E) response of
        (Some (FKafka (Response _ _ (MetadataR md))), m) \<Rightarrow>
          (if md_brokers md = [] then get_metadata_loop n fuel E W names ids s1 else Some (Ok m, s1))
      | _ \<Rightarrow> Some (Inl (Err ''Expected metadata response''), s1)))"

definition get_metadata_of_topics_with_retry ::
  "nat \<Rightarrow> kafka_env \<Rightarrow> world \<Rightarrow> string list \<Rightarrow> uuid list \<Rightarrow> sink \<Rightarrow> (message result \<times> sink) option" where
  "get_metadata_of_topics_with_retry fuel E W names ids s = get_metadata_loop 3 fuel E W names ids s"

subsection \<open>What has to be looked up\<close>

text \<open>A cached topic is outdated when the leader of one of its partitions is known to be down.\<close>

definition topic_outdated :: "sink \<Rightarrow> topic option \<Rightarrow> bool" where
  "topic_outdated s t = (case t of
     Some ps \<Rightarrow> list_ex (\<lambda>p. case find_broker s (pt_leader_id p) of Some n \<Rightarrow> \<not> kn_is_up n | None \<Rightarrow> False) ps
   | None \<Rightarrow> True)"

definition store_topic_names :: "sink \<Rightarrow> string \<Rightarrow> string list \<Rightarrow> string list" where
  "store_topic_names s topic topics =
    (if topic_outdated s (topic_by_name s topic) \<and> topic \<notin> set topics \<and> topic \<noteq> [] then topics @ [topic] else topics)"

definition store_topic_ids :: "sink \<Rightarrow> uuid \<Rightarrow> uuid list \<Rightarrow> uuid list" where
  "store_topic_ids s topic topics =
    (if topic_outdated s (topic_by_id s topic) \<and> topic \<notin> set topics \<and> topic \<noteq> 0 then topics @ [topic] else topics)"

text \<open>A cached coordinator is outdated when its broker is unknown or down.\<close>

definition coordinator_outdated :: "sink \<Rightarrow> int option \<Rightarrow> bool" where
  "coordinator_outdated s c = (case c of
     Some b \<Rightarrow> (case find_broker s b of Some n \<Rightarrow> \<not> kn_is_up n | None \<Rightarrow> True)
   | None \<Rightarrow> True)"

definition store_group :: "sink \<Rightarrow> string \<Rightarrow> string list \<Rightarrow> string list" where
  "store_group s g groups =
    (if coordinator_outdated s (group_to_coordinator_broker s g) \<and> g \<notin> set groups then groups @ [g] else groups)"

definition store_transaction :: "sink \<Rightarrow> string \<Rightarrow> string list \<Rightarrow> string list" where
  "store_transaction s t txns =
    (if coordinator_outdated s (transaction_to_coordinator_broker s t) \<and> t \<notin> set txns then txns @ [t] else txns)"

subsection \<open>A control request keeps the queues of the brokers\<close>

text \<open>The outstanding requests of every destination but one.\<close>

definition chans_but :: "destination \<Rightarrow> connections \<Rightarrow> (destination \<Rightarrow> message_id list) \<Rightarrow> bool" where
  "chans_but d cs w \<longleftrightarrow> (\<forall>e. e \<noteq> d \<longrightarrow> (case map_of (conns cs) e of Some k \<Rightarrow> kc_chan k (w e) | None \<Rightarrow> w e = []))"

lemma chans_imp_but: "chans cs w \<Longrightarrow> chans_but d cs w"
  by (simp add: chans_def chans_but_def)

lemma chans_but_update [simp]: "chans_but d (cs\<lparr>conns := AList.update d k c\<rparr>) w = chans_but d (cs\<lparr>conns := c\<rparr>) w"
  by (simp add: chans_but_def update_conv')

lemma chans_but_delete [simp]: "chans_but d (cs\<lparr>conns := AList.delete d c\<rparr>) w = chans_but d (cs\<lparr>conns := c\<rparr>) w"
  by (simp add: chans_but_def delete_conv')

lemma chans_but_conns: "conns cs' = conns cs \<Longrightarrow> chans_but d cs' w = chans_but d cs w"
  by (simp add: chans_but_def)

lemma chans_but_put: "chans_but d cs w \<Longrightarrow> kc_chan k (w d) \<Longrightarrow> chans (cs\<lparr>conns := AList.update d k (conns cs)\<rparr>) w"
  by (auto simp: chans_but_def chans_def update_conv')

lemma chans_but_drop: "chans_but d cs w \<Longrightarrow> w d = [] \<Longrightarrow> chans (cs\<lparr>conns := AList.delete d (conns cs)\<rparr>) w"
  by (auto simp: chans_but_def chans_def delete_conv')

lemma create_and_insert_but:
  assumes "chans_but d cs w" and "create_and_insert_connection E C ns node old d cs g = (r, cs', g')"
  shows "chans_but d cs' w"
proof -
  obtain a cs1 g1 where c: "choose_address E C ns node cs g = (a, cs1, g1)" by (metis prod_cases3)
  have ok: "chans_but d cs1 w" using assms(1) chans_but_conns[OF choose_address_conns[OF c]] by simp
  show ?thesis using assms(2) ok
    by (auto simp: create_and_insert_connection_def c split: option.splits sum.splits)
qed

lemma get_or_open_but:
  assumes "chans_but d cs w" and "get_or_open_connection E C ns d cs g = (r, cs', g')"
  shows "chans_but d cs' w"
proof (cases "find_node d ns")
  case (Inr node)
  define cs1 where "cs1 = count_out_of_rack C node cs"
  have ok1: "chans_but d cs1 w"
    using assms(1) chans_but_conns[of cs1 cs] by (simp add: cs1_def count_out_of_rack_def split: option.splits)
  have update: "chans_but d (cs1\<lparr>conns := AList.update d k' (conns cs1)\<rparr>) w" for k' using ok1 by simp
  have delete: "chans_but d (cs1\<lparr>conns := AList.delete d (conns cs1)\<rparr>) w" using ok1 by simp
  show ?thesis
  proof (cases "get_connection_state (cc_now C) d cs1")
    case Unopened
    then show ?thesis using assms(2) Inr create_and_insert_but[OF ok1] by (simp add: get_or_open_connection_def Let_def flip: cs1_def)
  next
    case AtRiskOfAuthTokenExpiry
    then show ?thesis using assms(2) Inr create_and_insert_but[OF delete] by (simp add: get_or_open_connection_def Let_def flip: cs1_def)
  next
    case Open
    show ?thesis
    proof (cases "map_of (conns cs1) d")
      case None
      then show ?thesis using assms(2) Inr Open ok1 by (simp add: get_or_open_connection_def Let_def flip: cs1_def)
    next
      case (Some k)
      obtain e k' where e: "kc_get_error k = (e, k')" by fastforce
      show ?thesis using assms(2) Inr Open Some e update[of k'] create_and_insert_but[OF update[of k']]
        by (auto simp: get_or_open_connection_def Let_def simp flip: cs1_def split: option.splits if_splits)
    qed
  qed
qed (use assms in \<open>simp add: get_or_open_connection_def\<close>)

lemma handle_connection_error_but:
  assumes "chans_but d cs w" and "handle_connection_error C ns d e cs = (r, ns', cs')"
  shows "chans_but d cs' w"
proof -
  have "conns cs' = AList.delete d (conns cs) \<or> (\<exists>k. conns cs' = AList.update d k (AList.delete d (conns cs)))"
    using assms(2) by (auto simp: handle_connection_error_def Let_def split: option.splits sum.splits if_splits)
  then show ?thesis using assms(1) by (auto simp: chans_but_def delete_conv' update_conv')
qed

lemma handle_connection_error_fresh:
  assumes "net_ok (cc_net C)" and "chans_but d cs w" and "w d = []"
    and "handle_connection_error C ns d e cs = (Ok (), ns', cs')"
  shows "chans cs' w"
proof -
  obtain a c k where n: "cc_net C a = Inr c" "kafka_connection_new (cc_now C) (cc_scram C) (cc_mechanism C) c None = Inr k"
    "cs' = cs\<lparr>conns := AList.update d k (AList.delete d (conns cs))\<rparr>"
    using assms(4) by (auto simp: handle_connection_error_def Let_def split: option.splits if_splits sum.splits)
  have "sink_chan c []" using assms(1) n(1) sink_chan_fresh by (auto simp: net_ok_def)
  then have "kc_chan k []" using kafka_connection_new_chan[OF _ n(2), of "[]"] by simp
  then show ?thesis using assms(2,3) n(3) by (auto simp: chans_def chans_but_def update_conv' delete_conv')
qed

lemma same_kind_recv: "kc_recv nid next k = (r, k') \<Longrightarrow> same_kind k k'"
  by (auto simp: kc_recv_def same_kind_def split: kafka_connection.splits prod.splits)

lemma same_kind_trans: "same_kind a b \<Longrightarrow> same_kind b c \<Longrightarrow> same_kind a c"
  by (simp add: same_kind_def)

text \<open>What is relied on of the broker: the batch that ends the wait is the response to the request.\<close>

definition await_ok :: "world \<Rightarrow> bool" where
  "await_ok W \<longleftrightarrow> (\<forall>n m new. wd_await W n m = Some new \<longrightarrow> map request_id new = [Some (id m)])"

lemma conn_exchange:
  assumes "sink_chan c []" and send: "conn_send D [m] c = (COk (), c1)" and "\<not> fst (response_is_dummy D m)"
    and "\<And>new. next = Some new \<Longrightarrow> map request_id new = [Some (id m)]"
    and r: "conn_recv nid next c1 = (COk (r # rs), c2)"
  shows "rs = [] \<and> request_id r = Some (id m) \<and> sink_chan c2 []"
proof -
  have c: "inserter c = inserter_abs []" "concat (in_rx c) = []"
    using assms(1) by (auto simp: sink_chan_def arrived_ok_def real_ids_def)
  let ?q = "[(id m, False)]"
  have c1: "inserter c1 = inserter_abs ?q" "in_rx c1 = in_rx c"
    using send c(1) assms(3) process_requests_refines[of D "[m]" "[]"]
    by (auto simp: conn_send_def fail_closed_def get_error_for_close_def Let_def
        split: option.splits if_splits prod.splits)
  have "process_responses nid [] 0 (inserter_abs ?q) = Ok ([], inserter_abs ?q)"
    using process_responses_answer[of "[]" ?q nid "[]" ?q "[]"] by (simp add: expects_real real_ids_def)
  then have p: "process_responses nid (concat (in_rx c1)) 0 (inserter c1) = Ok ([], inserter_abs ?q)"
    by (simp only: c(2) c1)
  have p1: "process_responses nid [x] 0 (inserter_abs ?q) = Ok ([x], inserter_abs [])" if "request_id x = Some (id m)" for x
    using process_responses_answer[of "[x]" ?q nid "[x]" "[]" "[]"] that by (simp add: expects_real real_ids_def)
  obtain r0 c3 where t: "try_recv_into nid [] c1 = (r0, c3)" by fastforce
  then have "(\<exists>y. r0 = COk y) \<longrightarrow> r0 = COk [] \<and> inserter c3 = inserter_abs ?q \<and> in_rx c3 = []"
    using p by (auto simp: try_recv_into_def handle_disconnect_on_recv_def get_error_for_close_def Let_def
        split: option.splits if_splits)
  then have r0: "r0 = COk [] \<and> inserter c3 = inserter_abs ?q \<and> in_rx c3 = []"
    using r t by (auto simp: conn_recv_def recv_into_def split: conn_result.splits)
  obtain new where new: "next = Some new"
    using r t r0 by (auto simp: conn_recv_def recv_into_def fail_closed_def get_error_for_close_def
        split: option.splits conn_result.splits prod.splits)
  obtain x where x: "new = [x]" "request_id x = Some (id m)" using assms(4)[OF new] by auto
  have "r = x \<and> rs = [] \<and> c2 = c3\<lparr>inserter := inserter_abs []\<rparr>"
    using r t r0 new x p1[OF x(2)] by (auto simp: conn_recv_def recv_into_def)
  then show ?thesis using x r0 by (simp add: sink_chan_def arrived_ok_def)
qed

lemma kc_exchange:
  assumes "kc_chan k []" and "kc_send D [m] k = (COk (), k1)" and "\<not> fst (response_is_dummy D m)"
    and "\<And>new. next = Some new \<Longrightarrow> map request_id new = [Some (id m)]"
    and "kc_recv nid next k1 = (COk (r # rs), k2)"
  shows "rs = [] \<and> request_id r = Some (id m) \<and> kc_chan k2 []"
proof (cases k)
  case (Regular c)
  obtain c1 c2 where "conn_send D [m] c = (COk (), c1)" "k1 = Regular c1" "conn_recv nid next c1 = (COk (r # rs), c2)" "k2 = Regular c2"
    using assms(2,5) Regular by (auto simp: kc_send_def kc_recv_def split: prod.splits)
  then show ?thesis using conn_exchange[of c D m c1 "next" nid r rs c2] assms(1,3,4) Regular by (simp add: kc_chan_def)
next
  case (ScramOverMtls s)
  then have old: "sc_old_connection s = None" "sink_chan (sc_connection s) []" using assms(1)
    by (auto simp: kc_chan_def scram_chan_def split: option.splits)
  obtain c1 c2 where "conn_send D [m] (sc_connection s) = (COk (), c1)" "k1 = ScramOverMtls (s\<lparr>sc_connection := c1\<rparr>)"
    "conn_recv nid next c1 = (COk (r # rs), c2)" "k2 = ScramOverMtls (s\<lparr>sc_connection := c2\<rparr>)"
    using assms(2,5) ScramOverMtls old by (auto simp: kc_send_def kc_recv_def scram_send_def scram_recv_def split: prod.splits)
  then show ?thesis using conn_exchange[of "sc_connection s" D m c1 "next" nid r rs c2] assms(3,4) old
    by (simp add: kc_chan_def scram_chan_def)
qed

text \<open>What a control request leaves alone.\<close>

definition same_queue :: "sink \<Rightarrow> sink \<Rightarrow> bool" where
  "same_queue s s' \<longleftrightarrow> pending_requests s' = pending_requests s \<and> auth_complete s' = auth_complete s
     \<and> sasl_mechanism s' = sasl_mechanism s \<and> authorize_scram_over_mtls s' = authorize_scram_over_mtls s
     \<and> id_counter s \<le> id_counter s'"

lemma same_queue_refl [simp]: "same_queue s s" by (simp add: same_queue_def)

lemma same_queue_trans: "same_queue a b \<Longrightarrow> same_queue b c \<Longrightarrow> same_queue a c" by (simp add: same_queue_def)

lemma same_queue_updates [simp]:
  "same_queue s (s'\<lparr>sink_connections := cs\<rparr>) = same_queue s s'"
  "same_queue s (s'\<lparr>rng := g\<rparr>) = same_queue s s'"
  "same_queue s (set_nodes ns s') = same_queue s s'"
  "same_queue s (put_conn d k s') = same_queue s s'"
  "same_queue s (drop_control s') = same_queue s s'"
  by (simp_all add: same_queue_def set_nodes_def put_conn_def drop_control_def)

text \<open>Every connection but the control connection is what the queues say.\<close>

definition others_ok :: "world \<Rightarrow> (destination \<Rightarrow> message_id list) \<Rightarrow> sink \<Rightarrow> bool" where
  "others_ok W w s \<longleftrightarrow> chans_but ControlConnection (sink_connections s) w \<and> scram_conns_ok (config_of W s) (sink_connections s)"

lemma conns_ok_others: "conns_ok W w s \<Longrightarrow> others_ok W w s"
  by (simp add: conns_ok_def others_ok_def chans_imp_but)

lemma scram_conns_ok_config: "cc_scram C' = cc_scram C \<Longrightarrow> cc_mechanism C' = cc_mechanism C \<Longrightarrow> scram_conns_ok C' cs = scram_conns_ok C cs"
  by (simp add: scram_conns_ok_def uses_scram_def)

lemma drop_control_ok:
  assumes "others_ok W w s" and "w ControlConnection = []"
  shows "conns_ok W w (drop_control s)"
  using assms chans_but_drop[of ControlConnection "sink_connections s" w] scram_conns_ok_delete
  by (simp add: others_ok_def conns_ok_def drop_control_def config_of_def)

lemma put_conn_others:
  assumes "chans_but ControlConnection cs w" and "scram_conns_ok (config_of W s) cs" and "map_of (conns cs) ControlConnection = Some k" "same_kind k k'"
  shows "others_ok W w (put_conn ControlConnection k' (s\<lparr>sink_connections := cs, rng := g\<rparr>))"
  using assms scram_conns_ok_update[OF assms(2-4)] by (simp add: others_ok_def put_conn_def config_of_def)

lemma control_inner_ok:
  assumes W: "world_ok W" "await_ok W" and "conns_ok W w s" and w: "w ControlConnection = []"
    and dummy: "\<not> fst (response_is_dummy (env_dec E) request)"
    and inner: "control_send_receive_inner E W n request s = (r, s')"
  shows "others_ok W w s' \<and> same_queue s s' \<and> (\<forall>response. r = Ok response \<longrightarrow> conns_ok W w s' \<and> request_id response = Some (id request))"
proof (cases "auth_complete s")
  case False
  then show ?thesis using inner conns_ok_others[OF assms(3)] by (auto simp: control_send_receive_inner_def)
next
  case True
  obtain r1 cs g where o: "get_or_open_connection E (config_of W s) (nodes s) ControlConnection (sink_connections s) (rng s) = (r1, cs, g)"
    by (metis prod_cases3)
  let ?s = "s\<lparr>sink_connections := cs, rng := g\<rparr>"
  have but: "chans_but ControlConnection cs w" and sc: "scram_conns_ok (config_of W s) cs"
    using get_or_open_but[OF _ o] get_or_open_connection_scram[OF _ o] assms(3) by (auto simp: conns_ok_def chans_imp_but)
  have s1: "others_ok W w ?s" using but sc by (simp add: others_ok_def config_of_def)
  show ?thesis
  proof (cases "r1 = Ok () \<and> map_of (conns cs) ControlConnection \<noteq> None")
    case False
    then show ?thesis using inner True o s1 by (auto simp: control_send_receive_inner_def Let_def split: sum.splits)
  next
    case r1: True
    then obtain k where k: "map_of (conns cs) ControlConnection = Some k" by blast
    have "net_ok (cc_net (config_of W s))" using W(1) by (simp add: world_ok_def config_of_def)
    then have "chans cs w" using get_or_open_connection_chans[OF _ _ _ o[unfolded r1[THEN conjunct1]]] assms(3) by (auto simp: conns_ok_def)
    then have kc: "kc_chan k []" using k w by (auto simp: chans_def dest: spec[of _ ControlConnection])
    obtain a k1 where send: "kc_send (env_dec E) [request] k = (a, k1)" by fastforce
    obtain b k2 where recv: "kc_recv (wd_nid W) (wd_await W n request) k1 = (b, k2)" by fastforce
    have kinds: "same_kind k k1" "same_kind k k2"
      using same_kind_ops(2)[OF send] same_kind_recv[OF recv] by (auto intro: same_kind_trans)
    note puts = put_conn_others[OF but sc k kinds(1)] put_conn_others[OF but sc k kinds(2)]
    show ?thesis
    proof (cases "\<exists>x xs. a = COk () \<and> b = COk (x # xs)")
      case True
      then obtain x xs where x: "a = COk ()" "b = COk (x # xs)" by blast
      have ex: "request_id x = Some (id request) \<and> kc_chan k2 []"
        using kc_exchange[OF kc send[unfolded x] dummy _ recv[unfolded x]] W(2) by (auto simp: await_ok_def)
      have "r = Ok x" and s': "s' = put_conn ControlConnection k2 ?s"
        using inner \<open>auth_complete s\<close> o r1 k send recv x by (auto simp: control_send_receive_inner_def Let_def)
      moreover have "conns_ok W w (put_conn ControlConnection k2 ?s)"
        using chans_but_put[OF but, of k2] ex w puts(2) by (simp add: conns_ok_def others_ok_def put_conn_def)
      ultimately show ?thesis using ex puts(2) by simp
    next
      case False
      then show ?thesis using inner True o r1 k send recv puts
        by (auto simp: control_send_receive_inner_def Let_def split: conn_result.splits list.splits)
    qed
  qed
qed

lemma conns_ok_world: "conns_ok (W\<lparr>wd_net := f\<rparr>) w s = conns_ok W w s" "others_ok (W\<lparr>wd_net := f\<rparr>) w s = others_ok W w s"
  using scram_conns_ok_config[of "config_of (W\<lparr>wd_net := f\<rparr>) s" "config_of W s"]
  by (simp_all add: conns_ok_def others_ok_def) (simp_all add: config_of_def)

lemma control_retry_ok:
  assumes W: "world_ok W" "await_ok W" and "others_ok W w s" and w: "w ControlConnection = []"
    and dummy: "\<not> fst (response_is_dummy (env_dec E) request)"
    and "control_retry fuel E W n request s = Some (Ok response, s')"
  shows "conns_ok W w s' \<and> same_queue s s' \<and> request_id response = Some (id request)"
  using assms(3,6)
proof (induction fuel arbitrary: n s)
  case (Suc fuel)
  let ?W = "W\<lparr>wd_net := wd_retry_net W n\<rparr>"
  obtain r s1 where i: "control_send_receive_inner E ?W n request (drop_control s) = (r, s1)" by fastforce
  have W': "world_ok ?W" "await_ok ?W" using W by (simp_all add: world_ok_def await_ok_def)
  have "conns_ok ?W w (drop_control s)" using drop_control_ok[OF Suc.prems(1) w] by (simp add: conns_ok_world)
  from control_inner_ok[OF W' this w dummy i]
  have ok: "others_ok W w s1" "same_queue s s1" "\<forall>response. r = Ok response \<longrightarrow> conns_ok W w s1 \<and> request_id response = Some (id request)"
    by (simp_all add: conns_ok_world same_queue_def drop_control_def)
  show ?case
  proof (cases r)
    case (Inl e)
    then have "control_retry fuel E W (Suc n) request s1 = Some (Ok response, s')"
      using Suc.prems(2) i by (auto split: err.splits if_splits)
    from Suc.IH[OF ok(1) this] ok(2) show ?thesis using same_queue_trans by blast
  qed (use Suc.prems(2) i ok in auto)
qed simp

lemma control_send_receive_ok:
  assumes W: "world_ok W" "await_ok W" and "conns_ok W w s" and w: "w ControlConnection = []"
    and dummy: "\<not> fst (response_is_dummy (env_dec E) request)"
    and c: "control_send_receive fuel E W request s = Some (Ok response, s')"
  shows "conns_ok W w s' \<and> same_queue s s' \<and> request_id response = Some (id request)"
proof -
  obtain r s1 where i: "control_send_receive_inner E W 0 request s = (r, s1)" by fastforce
  note ok = control_inner_ok[OF W assms(3) w dummy i]
  show ?thesis
  proof (cases r)
    case (Inr x)
    then show ?thesis using c i ok by (auto simp: control_send_receive_def)
  next
    case (Inl e)
    then obtain m where e: "e = Err m" using c i by (cases e) (auto simp: control_send_receive_def)
    obtain r2 ns cs where h: "handle_connection_error (config_of W s1) (nodes s1) ControlConnection (Err m) (sink_connections s1) = (r2, ns, cs)"
      by (metis prod_cases3)
    let ?s = "set_nodes ns (s1\<lparr>sink_connections := cs\<rparr>)"
    have cfg: "config_of W ?s = config_of W s1" by (simp add: config_of_def set_nodes_def)
    have sc: "scram_conns_ok (config_of W s1) cs" using handle_connection_error_scram[OF _ h] ok by (auto simp: others_ok_def)
    have but: "others_ok W w ?s"
      using handle_connection_error_but[OF _ h] sc ok by (auto simp: others_ok_def cfg) (auto simp: set_nodes_def)
    have sq: "same_queue s ?s" using ok by simp
    show ?thesis
    proof (cases "r2 = Ok ()")
      case True
      have "net_ok (cc_net (config_of W s1))" using W(1) by (simp add: world_ok_def config_of_def)
      then have "conns_ok W w ?s"
        using handle_connection_error_fresh[of _ ControlConnection _ w, OF _ _ w h[unfolded True]] ok sc by (auto simp: conns_ok_def others_ok_def cfg) (auto simp: set_nodes_def)
      moreover have "control_send_receive_inner E W 1 request ?s = (Ok response, s')"
        using c i Inl e h True by (simp add: control_send_receive_def Let_def)
      ultimately show ?thesis using control_inner_ok[of W w ?s, OF W _ w dummy] same_queue_trans[OF sq] by blast
    next
      case False
      then have "control_retry fuel E W 2 request ?s = Some (Ok response, s')"
        using c i Inl e h by (auto simp: control_send_receive_def Let_def split: sum.splits err.splits)
      from control_retry_ok[OF W but w dummy this] show ?thesis using same_queue_trans[OF sq] by blast
    qed
  qed
qed

lemma control_request_ok:
  assumes "control_request E key version body s = (request, s1)" and "\<And>p. body \<noteq> Produce p"
  shows "\<not> fst (response_is_dummy (env_dec E) request) \<and> same_queue s s1 \<and> sink_connections s1 = sink_connections s"
proof -
  have "request = from_frame (fresh_id E (id_counter s)) (FKafka (Request \<lparr>request_api_key = api_key_code E key,
      request_api_version = version, correlation_id = 0, rh_rest = 0\<rparr> body))" "s1 = s\<lparr>id_counter := Suc (id_counter s)\<rparr>"
    using assms(1) by (auto simp: control_request_def next_id_def)
  then show ?thesis using assms(2)
    by (auto simp: response_is_dummy_def from_frame_def from_frame_at_instant_def frame_def ensure_parsed_def message_type_def same_queue_def
        split: message_type.splits request_body.splits)
qed

lemma conns_ok_same_queue: "conns_ok W w s \<Longrightarrow> same_queue s s1 \<Longrightarrow> sink_connections s1 = sink_connections s \<Longrightarrow> conns_ok W w s1"
  using scram_conns_ok_config[of "config_of W s1" "config_of W s"] by (simp add: conns_ok_def same_queue_def config_of_def)

lemma control_exchange_ok:
  assumes "world_ok W" "await_ok W" and "conns_ok W w s" and "w ControlConnection = []" and "\<And>p. body \<noteq> Produce p"
    and "control_request E key version body s = (request, s1)" and "control_send_receive fuel E W request s1 = Some (Ok response, s2)"
  shows "conns_ok W w s2 \<and> same_queue s s2 \<and> request_id response = Some (id request)"
  using control_send_receive_ok[of W w s1, OF assms(1,2) _ assms(4) _ assms(7)] control_request_ok[OF assms(6,5)]
    conns_ok_same_queue[OF assms(3)] same_queue_trans by blast

lemma find_coordinator_ok:
  assumes "world_ok W" "await_ok W" and "conns_ok W w s" and "w ControlConnection = []"
    and "find_coordinator fuel E W key s = Some (Ok c, s')"
  shows "conns_ok W w s' \<and> same_queue s s'"
proof -
  obtain request s1 where r: "control_request E ''FindCoordinator'' 2 (find_coordinator_body key) s = (request, s1)" by fastforce
  obtain response where "control_send_receive fuel E W request s1 = Some (Ok response, s')"
    using assms(5) r by (auto simp: find_coordinator_def split: option.splits sum.splits)
  then show ?thesis using control_exchange_ok[OF assms(1-4) _ r] by (simp add: find_coordinator_body_def)
qed

lemma get_metadata_of_topics_ok:
  assumes "world_ok W" "await_ok W" and "conns_ok W w s" and "w ControlConnection = []"
    and "get_metadata_of_topics fuel E W names ids s = Some (Ok response, s')"
  shows "conns_ok W w s' \<and> same_queue s s'"
proof -
  obtain request s1 where r: "control_request E ''Metadata'' (if ids = [] then 4 else 12) (metadata_body names ids) s = (request, s1)"
    by fastforce
  then show ?thesis using control_exchange_ok[OF assms(1-4) _ r] assms(5) by (simp add: get_metadata_of_topics_def metadata_body_def)
qed

lemma get_metadata_loop_ok:
  assumes W: "world_ok W" "await_ok W" and "conns_ok W w s" and w: "w ControlConnection = []"
    and "get_metadata_loop n fuel E W names ids s = Some (Ok m, s')"
  shows "conns_ok W w s' \<and> same_queue s s'"
  using assms(3,5)
proof (induction n arbitrary: s)
  case (Suc n)
  obtain response s1 where g: "get_metadata_of_topics fuel E W names ids s = Some (Ok response, s1)"
    using Suc.prems(2) by (auto split: option.splits sum.splits)
  note ok = get_metadata_of_topics_ok[OF W Suc.prems(1) w g]
  have "s' = s1 \<or> get_metadata_loop n fuel E W names ids s1 = Some (Ok m, s')"
    using Suc.prems(2) g by (auto split: prod.splits option.splits frame.splits kafka_frame.splits response_body.splits if_splits)
  then show ?case using ok Suc.IH same_queue_trans by blast
qed simp

subsection \<open>The retry loop\<close>

lemma control_inner_unreachable:
  assumes "choose_ok E" and "auth_complete s" and "\<exists>x \<in> set (nodes s). kn_is_up x" and "\<And>a. \<exists>m. wd_net W a = Inl (Err m)"
  shows "\<exists>m s'. control_send_receive_inner E W n request (drop_control s) = (Inl (Err m), s') \<and> auth_complete s' \<and> nodes s' = nodes s"
proof -
  have "filter kn_is_up (nodes s) \<noteq> []" using assms(3) by (auto simp: filter_empty_conv)
  then obtain x g where p: "pick E (rng s) (filter kn_is_up (nodes s)) = (Some x, g)" using pick_Some[OF assms(1)] by blast
  obtain m where m: "wd_net W (kn_address x) = Inl (Err m)" using assms(4) by blast
  show ?thesis using p m assms(2)
    by (simp add: control_send_receive_inner_def drop_control_def get_or_open_connection_def find_node_def count_out_of_rack_def
        get_connection_state_def delete_conv' create_and_insert_connection_def choose_address_def config_of_def Let_def)
qed

lemma control_retry_unreachable:
  assumes "choose_ok E" and "auth_complete s" and "\<exists>x \<in> set (nodes s). kn_is_up x" and "\<And>n a. \<exists>m. wd_retry_net W n a = Inl (Err m)"
  shows "control_retry fuel E W n request s = None"
  using assms(2,3)
proof (induction fuel arbitrary: n s)
  case (Suc fuel)
  obtain m s' where "control_send_receive_inner E (W\<lparr>wd_net := wd_retry_net W n\<rparr>) n request (drop_control s) = (Inl (Err m), s')"
    "auth_complete s'" "nodes s' = nodes s"
    using control_inner_unreachable[OF assms(1) Suc.prems, of "W\<lparr>wd_net := wd_retry_net W n\<rparr>" n request] assms(4) by auto
  moreover have "\<not> list_all (\<lambda>x. \<not> kn_is_up x) (nodes s)" using Suc.prems(2) by (auto simp: list_all_iff)
  ultimately show ?case using Suc.IH[of s' "Suc n"] Suc.prems(2) by simp
qed simp

end
