(* ===== verification/Kafka_Routing.thy ===== *)
theory Kafka_Routing
  imports Kafka_Control
begin

text \<open>
  Routing the requests of a client (\<^verbatim>\<open>KafkaSinkCluster::transform\<close> and \<^verbatim>\<open>route_requests\<close> with the
  \<^verbatim>\<open>route_*\<close> methods it calls, \<^verbatim>\<open>src/shotover/src/transforms/kafka/sink_cluster/mod.rs\<close>): the handshake
  goes to the control connection, then the coordinators and topics a batch needs are looked up,
  then each request is put into the queue, split into one part for each broker where its data is
  spread over several.
\<close>

subsection \<open>The SCRAM user name\<close>

text \<open>\<^verbatim>\<open>splitn(2, '=')\<close>: the part before the first \<^verbatim>\<open>=\<close> and, if there is one, all after it.\<close>

definition split_once :: "string \<Rightarrow> (string \<times> string) option" where
  "split_once s = (case dropWhile (\<lambda>c. c \<noteq> CHR ''='') s of [] \<Rightarrow> None | _ # v \<Rightarrow> Some (takeWhile (\<lambda>c. c \<noteq> CHR ''='') s, v))"

fun find_username :: "string list \<Rightarrow> string option" where
  "find_username [] = None"
| "find_username (p # ps) = (case split_once p of
     Some (k, v) \<Rightarrow> if k = ''n'' then Some v else find_username ps
   | None \<Rightarrow> find_username ps)"

definition get_username_from_scram_request :: "bytes \<Rightarrow> string option" where
  "get_username_from_scram_request auth_request =
    (case from_utf8 auth_request of Some s \<Rightarrow> find_username (split_on (CHR '','') s) | None \<Rightarrow> None)"

definition set_username :: "world \<Rightarrow> string \<Rightarrow> authorize_scram \<Rightarrow> authorize_scram result" where
  "set_username W username a = bind_result (wd_prefetch W username) (\<lambda>_. Ok (a\<lparr>scram_username := username\<rparr>))"

subsection \<open>The handshake\<close>

definition add_auth_request :: "message \<Rightarrow> sink \<Rightarrow> sink" where
  "add_auth_request m s = s\<lparr>auth_requests := auth_requests s @ [m]\<rparr>"

text \<open>
  The scan over the front of a batch: the number of handshake requests, the batch (in which
  the scanned requests are parsed now) and the state.
\<close>

fun auth_scan :: "kafka_env \<Rightarrow> world \<Rightarrow> message list \<Rightarrow> sink \<Rightarrow> (nat \<times> message list \<times> sink) result" where
  "auth_scan E W [] s = Ok (0, [], s)"
| "auth_scan E W (request # requests) s = (case frame (env_dec E) request of (f, request') \<Rightarrow>
    (case f of
       Some (FKafka (Request _ (SaslHandshake mechanism _))) \<Rightarrow>
         bind_result (auth_scan E W requests (add_auth_request request' (s\<lparr>sasl_mechanism := Some mechanism\<rparr>)))
           (\<lambda>(n, rs, s'). Ok (Suc n, request' # rs, s'))
     | Some (FKafka (Request _ (SaslAuthenticate auth_bytes _))) \<Rightarrow>
         bind_result
           (case (authorize_scram_over_mtls s, get_username_from_scram_request auth_bytes) of
              (Some a, Some username) \<Rightarrow> bind_result (set_username W username a) (\<lambda>a'. Ok (s\<lparr>authorize_scram_over_mtls := Some a'\<rparr>))
            | _ \<Rightarrow> Ok s) (\<lambda>s1.
         bind_result (auth_scan E W requests (add_auth_request request' s1)) (\<lambda>(n, rs, s'). Ok (Suc n, request' # rs, s')))
     | Some (FKafka (Request _ (PlainRequest ApiVersions _))) \<Rightarrow>
         bind_result (auth_scan E W requests s) (\<lambda>(n, rs, s'). Ok (Suc n, request' # rs, s'))
     | _ \<Rightarrow>
         (if (case authorize_scram_over_mtls s of Some a \<Rightarrow> original_scram_state a \<noteq> AuthSuccess | None \<Rightarrow> False)
          then Inl (Err ''Client attempted to send requests before a successful auth was completed or after an unsuccessful auth'')
          else Ok (0, request' # requests, s\<lparr>auth_complete := True\<rparr>))))"

definition route_to_control_connection :: "message \<Rightarrow> sink \<Rightarrow> sink result" where
  "route_to_control_connection request s =
    (if auth_complete s then Inl (Panic ''route_to_control_connection cannot be called after auth is complete'')
     else Ok (push_back \<lparr>pstate = Routed request, pdestination = ControlConnection, pty = POther, pcombine = 1\<rparr> s))"

text \<open>The first phase of \<^verbatim>\<open>route_requests\<close>; the requests that are left and the state.\<close>

definition route_handshake :: "kafka_env \<Rightarrow> world \<Rightarrow> message list \<Rightarrow> sink \<Rightarrow> (message list \<times> sink) result" where
  "route_handshake E W requests s = bind_result (auth_scan E W requests s) (\<lambda>(n, rs, s1).
     bind_result (fold_result route_to_control_connection (take n rs) s1) (\<lambda>s2. Ok (drop n rs, s2)))"

subsection \<open>What a batch needs to know\<close>

record needs =
  need_topic_names :: "string list"
  need_topic_ids :: "uuid list"
  need_groups :: "string list"
  need_transactions :: "string list"

definition need_names :: "sink \<Rightarrow> string list \<Rightarrow> needs \<Rightarrow> needs" where
  "need_names s names n = n\<lparr>need_topic_names := fold (store_topic_names s) names (need_topic_names n)\<rparr>"

definition need_ids :: "sink \<Rightarrow> uuid list \<Rightarrow> needs \<Rightarrow> needs" where
  "need_ids s tids n = n\<lparr>need_topic_ids := fold (store_topic_ids s) tids (need_topic_ids n)\<rparr>"

definition need_groups_of :: "sink \<Rightarrow> string list \<Rightarrow> needs \<Rightarrow> needs" where
  "need_groups_of s gs n = n\<lparr>need_groups := fold (store_group s) gs (need_groups n)\<rparr>"

definition need_transactions_of :: "sink \<Rightarrow> string list \<Rightarrow> needs \<Rightarrow> needs" where
  "need_transactions_of s ts n = n\<lparr>need_transactions := fold (store_transaction s) ts (need_transactions n)\<rparr>"

definition collect_body :: "sink \<Rightarrow> int \<Rightarrow> request_body \<Rightarrow> needs \<Rightarrow> needs" where
  "collect_body s version body n = (case body of
     Produce r \<Rightarrow> need_names s (map tname (topic_data r)) n
   | ListOffsets r \<Rightarrow> need_names s (map tname (rtopics r)) n
   | OffsetForLeaderEpoch r \<Rightarrow> need_names s (map tname (rtopics r)) n
   | DescribeProducers r \<Rightarrow> need_names s (map tname (rtopics r)) n
   | DeleteRecords r \<Rightarrow> need_names s (map tname (rtopics r)) n
   | Fetch r \<Rightarrow> need_ids s (map ftopic_id (fetch_topics r)) (need_names s (map ftopic (fetch_topics r)) n)
   | GroupRequest k g _ \<Rightarrow> (if k = OffsetCommit then n else need_groups_of s [g] n)
   | ConsumerGroupDescribe r \<Rightarrow> need_groups_of s (id_list r) n
   | DeleteGroups r \<Rightarrow> need_groups_of s (id_list r) n
   | DescribeGroups r \<Rightarrow> need_groups_of s (id_list r) n
   | InitProducerId (Some t) _ \<Rightarrow> need_transactions_of s [t] n
   | EndTxn t _ \<Rightarrow> need_transactions_of s [t] n
   | AddOffsetsToTxn t _ \<Rightarrow> need_transactions_of s [t] n
   | DescribeTransactions r \<Rightarrow> need_transactions_of s (id_list r) n
   | AddPartitionsToTxn r \<Rightarrow>
       need_transactions_of s (if version \<le> 3 then [v3_and_below_transactional_id r] else map tt_transactional_id (transactions r)) n
   | OffsetFetch r \<Rightarrow> need_groups_of s (if version \<le> 7 then [of_group_id r] else map ofg_group_id (of_groups r)) n
   | _ \<Rightarrow> n)"

definition collect_request :: "kafka_env \<Rightarrow> sink \<Rightarrow> message \<Rightarrow> needs \<Rightarrow> message \<times> needs" where
  "collect_request E s request n = (case frame (env_dec E) request of (f, m) \<Rightarrow>
    (case f of
       Some (FKafka (Request h body)) \<Rightarrow>
         ((case body of
             Fetch r \<Rightarrow> invalidate_cache (set_frame (FKafka (Request h (Fetch (r\<lparr>session_id := 0, session_epoch := -1\<rparr>)))) m)
           | _ \<Rightarrow> m),
          collect_body s (request_api_version h) body n)
     | _ \<Rightarrow> (m, n)))"

fun collect_requests :: "kafka_env \<Rightarrow> sink \<Rightarrow> message list \<Rightarrow> needs \<Rightarrow> message list \<times> needs" where
  "collect_requests E s [] n = ([], n)"
| "collect_requests E s (m # ms) n = (case collect_request E s m n of (m', n1) \<Rightarrow>
     (case collect_requests E s ms n1 of (ms', n2) \<Rightarrow> (m' # ms', n2)))"

subsection \<open>Looking it up\<close>

definition found_group :: "string \<Rightarrow> kafka_node \<Rightarrow> sink \<Rightarrow> sink" where
  "found_group g node s = sink_add_node node
     (s\<lparr>group_to_coordinator_broker := (group_to_coordinator_broker s)(g \<mapsto> kn_broker_id node)\<rparr>)"

definition found_transaction :: "string \<Rightarrow> kafka_node \<Rightarrow> sink \<Rightarrow> sink" where
  "found_transaction t node s = sink_add_node node
     (s\<lparr>transaction_to_coordinator_broker := (transaction_to_coordinator_broker s)(t \<mapsto> kn_broker_id node)\<rparr>)"

text \<open>The two loops over the groups and over the transactions differ in the key and the map.\<close>

fun lookup_coordinators ::
  "nat \<Rightarrow> kafka_env \<Rightarrow> world \<Rightarrow> (string \<Rightarrow> coordinator_key) \<Rightarrow> (string \<Rightarrow> kafka_node \<Rightarrow> sink \<Rightarrow> sink)
     \<Rightarrow> string list \<Rightarrow> sink \<Rightarrow> sink result option" where
  "lookup_coordinators fuel E W key found [] s = Some (Ok s)"
| "lookup_coordinators fuel E W key found (x # xs) s = (case find_coordinator fuel E W (key x) s of
     None \<Rightarrow> None
   | Some (Inl e, _) \<Rightarrow> Some (Inl e)
   | Some (Inr (Some node), s1) \<Rightarrow> lookup_coordinators fuel E W key found xs (found x node s1)
   | Some (Inr None, s1) \<Rightarrow> lookup_coordinators fuel E W key found xs s1)"

definition topic_failed :: "kafka_env \<Rightarrow> metadata_topic \<Rightarrow> bool" where
  "topic_failed E t = (case try_from_code E (mt_error_code t) of
     None \<Rightarrow> False | Some e \<Rightarrow> e \<noteq> UnknownTopicOrPartition)"

definition refresh_metadata :: "nat \<Rightarrow> kafka_env \<Rightarrow> world \<Rightarrow> string list \<Rightarrow> uuid list \<Rightarrow> sink \<Rightarrow> sink result option" where
  "refresh_metadata fuel E W names tids s =
    (if names \<noteq> [] \<or> tids \<noteq> [] \<or> abi_get (controller_broker s) = None \<or> nodes s = []
     then (case get_metadata_of_topics_with_retry fuel E W names tids s of
         None \<Rightarrow> None
       | Some (Inl e, _) \<Rightarrow> Some (Inl e)
       | Some (Inr metadata, s1) \<Rightarrow> (case fst (frame (env_dec E) metadata) of
            Some (FKafka (Response _ _ (MetadataR md))) \<Rightarrow>
              (if list_ex (topic_failed E) (md_topics md)
               then Some (Inl (Err ''Kafka responded to Metadata request with error''))
               else Some (Ok (process_metadata_response E md s1)))
          | _ \<Rightarrow> Some (Inl (Err ''Unexpected response returned to metadata request''))))
     else Some (Ok s))"

subsection \<open>Putting a request into the queue\<close>

definition routed_entry :: "message \<Rightarrow> int \<Rightarrow> pending_request_ty \<Rightarrow> nat \<Rightarrow> pending_request" where
  "routed_entry request destination ty n = \<lparr>pstate = Routed request, pdestination = Id destination, pty = ty, pcombine = n\<rparr>"

text \<open>A destination of \<open>-1\<close> stands for any broker.\<close>

definition real_destination :: "kafka_env \<Rightarrow> int \<Rightarrow> sink \<Rightarrow> int result \<times> sink" where
  "real_destination E d s = (if d = -1 then sink_random_broker E s else (Ok d, s))"

definition push_routed :: "int result \<times> sink \<Rightarrow> message \<Rightarrow> pending_request_ty \<Rightarrow> nat \<Rightarrow> sink result" where
  "push_routed ds request ty n = (case ds of (r, s) \<Rightarrow>
     bind_result r (\<lambda>d. Ok (push_back (routed_entry request d ty n) s)))"

definition route_to_random_broker :: "kafka_env \<Rightarrow> message \<Rightarrow> sink \<Rightarrow> sink result" where
  "route_to_random_broker E request s = push_routed (sink_random_broker E s) request POther 1"

text \<open>The parts of a request that goes to several destinations: the first keeps the id.\<close>

fun route_parts ::
  "kafka_env \<Rightarrow> pending_request_ty \<Rightarrow> nat \<Rightarrow> ('sub \<Rightarrow> message \<Rightarrow> message) \<Rightarrow> message \<Rightarrow> bool \<Rightarrow> (int \<times> 'sub) list \<Rightarrow> sink \<Rightarrow> sink result" where
  "route_parts E ty n assemble request first [] s = Ok s"
| "route_parts E ty n assemble request first ((d, sub) # parts) s = (case real_destination E d s of
     (Inl e, _) \<Rightarrow> Inl e
   | (Inr destination, s1) \<Rightarrow>
      (case (if first then (request, s1) else (case next_id E s1 of (i, s2) \<Rightarrow> (clone_with_new_id i request, s2))) of
         (copy, s3) \<Rightarrow> route_parts E ty n assemble request False parts
           (push_back (routed_entry (assemble sub copy) destination ty n) s3)))"

definition split_and_route_request :: "kafka_env \<Rightarrow> ('r, 'sub) router \<Rightarrow> message \<Rightarrow> sink \<Rightarrow> sink result" where
  "split_and_route_request E R request s = (case frame (env_dec E) request of
     (Some (FKafka (Request h body)), m) \<Rightarrow> (case get_request_frame R body of
        None \<Rightarrow> Inl (Panic ''internal error: entered unreachable code'')
      | Some r \<Rightarrow> bind_result (split_by_destination R s r) (\<lambda>(r', routing).
         let with = (\<lambda>x. set_frame (FKafka (Request h (put_request_frame R x)))); m1 = with r' m in
         case hash_iter (map_order E) routing of
           [] \<Rightarrow> push_routed (sink_random_broker E s) m1 POther 1
         | [(d, sub)] \<Rightarrow> push_routed (real_destination E d s) (with (reassemble R E r' sub) m1) POther 1
         | parts \<Rightarrow> route_parts E POther (length parts) (\<lambda>sub. with (reassemble R E r' sub)) (invalidate_cache m1) True parts s))
   | _ \<Rightarrow> Inl (Panic ''internal error: entered unreachable code''))"

text \<open>
  A fetch that goes to several brokers must not wait at any of them: \<^verbatim>\<open>max_wait_ms\<close> and
  \<^verbatim>\<open>min_bytes\<close> are kept in the queue instead, and upheld when the responses arrive.
\<close>

definition route_fetch_request :: "kafka_env \<Rightarrow> world \<Rightarrow> message \<Rightarrow> sink \<Rightarrow> sink result" where
  "route_fetch_request E W request s = (case frame (env_dec E) request of
     (Some (FKafka (Request h (Fetch fetch))), m) \<Rightarrow>
       (case split_fetch_request_by_destination s fetch of (fetch1, routing) \<Rightarrow>
         let with = (\<lambda>x. set_frame (FKafka (Request h (Fetch x)))); m1 = with fetch1 m in
         case hash_iter (map_order E) routing of
           [] \<Rightarrow> push_routed (sink_random_broker E s) m1 POther 1
         | [(d, topics)] \<Rightarrow> push_routed (real_destination E d s) (with (fetch1\<lparr>fetch_topics := topics\<rparr>) m1) POther 1
         | parts \<Rightarrow>
            (let fetch2 = fetch1\<lparr>max_wait_ms := 1, min_bytes := 1\<rparr> in
             route_parts E (PFetch (wd_now W) (max_wait_ms fetch) (min_bytes fetch)) (length parts)
               (\<lambda>topics. with (fetch2\<lparr>fetch_topics := topics\<rparr>)) (invalidate_cache (with fetch2 m1)) True parts s))
   | _ \<Rightarrow> Ok s)"

definition route_to_controller :: "kafka_env \<Rightarrow> message \<Rightarrow> sink \<Rightarrow> sink result" where
  "route_to_controller E request s = (case abi_get (controller_broker s) of
     None \<Rightarrow> Inl (Panic ''called Option::unwrap() on a None value'')
   | Some b \<Rightarrow> push_routed
       (case find (\<lambda>x. kn_broker_id x = b \<and> kn_is_up x) (nodes s) of
          Some node \<Rightarrow> (Ok (kn_broker_id node), s)
        | None \<Rightarrow> sink_random_broker E s) request POther 1)"

definition coordinator_destination :: "kafka_env \<Rightarrow> int option \<Rightarrow> sink \<Rightarrow> int result \<times> sink" where
  "coordinator_destination E c s = (case c of Some b \<Rightarrow> (Ok b, s) | None \<Rightarrow> sink_random_broker E s)"

definition route_to_group_coordinator :: "kafka_env \<Rightarrow> message \<Rightarrow> string \<Rightarrow> sink \<Rightarrow> sink result" where
  "route_to_group_coordinator E request g s =
    push_routed (coordinator_destination E (group_to_coordinator_broker s g) s) request (RoutedToGroup g) 1"

definition route_to_transaction_coordinator :: "kafka_env \<Rightarrow> message \<Rightarrow> string \<Rightarrow> sink \<Rightarrow> sink result" where
  "route_to_transaction_coordinator E request t s =
    push_routed (coordinator_destination E (transaction_to_coordinator_broker s t) s) request (RoutedToTransaction t) 1"

definition route_find_coordinator :: "kafka_env \<Rightarrow> message \<Rightarrow> find_coordinator_request \<Rightarrow> sink \<Rightarrow> sink result" where
  "route_find_coordinator E request r s =
    push_routed (sink_random_broker E s) request (PFindCoordinator (fc_key r) (fc_key_type r)) 1"

definition route_add_partitions_to_txn :: "kafka_env \<Rightarrow> message \<Rightarrow> int \<Rightarrow> add_partitions_to_txn_request \<Rightarrow> sink \<Rightarrow> sink result" where
  "route_add_partitions_to_txn E request version r s =
    (if version \<le> 3 then route_to_transaction_coordinator E request (v3_and_below_transactional_id r) s
     else split_and_route_request E add_partitions_to_txn_router request s)"

definition route_plain :: "kafka_env \<Rightarrow> message \<Rightarrow> int \<Rightarrow> plain_request \<Rightarrow> sink \<Rightarrow> sink result" where
  "route_plain E request api_key k s =
    (if k \<in> {LeaderAndIsr, StopReplica, UpdateMetadata, AllocateProducerIds, AlterPartition}
     then Inl (Err ''This request is used only for communication between brokers'')
     else if k = ControlledShutdown then Inl (Err ''Client sent ControlledShutdown request.'')
     else if k = AlterReplicaLogDirs then Inl (Err ''Client sent AlterReplicaLogDirs request.'')
     else if k = UnregisterBroker then Inl (Err ''Client sent UnregisterBroker request.'')
     else if k \<in> {CreateTopics, ElectLeaders} then route_to_controller E request s
     else if k = ListGroups then split_and_route_request E list_groups_router request s
     else if k = ListTransactions then split_and_route_request E list_transactions_router request s
     else if k = DescribeLogDirs then split_and_route_request E describe_log_dirs_router request s
     else if k = OtherRequest then (case api_key_name E api_key of
         None \<Rightarrow> Inl (Panic ''called Result::unwrap() on an Err value'')
       | Some _ \<Rightarrow> route_to_random_broker E request s)
     else route_to_random_broker E request s)"

definition route_body :: "kafka_env \<Rightarrow> world \<Rightarrow> message \<Rightarrow> request_header \<Rightarrow> request_body \<Rightarrow> sink \<Rightarrow> sink result" where
  "route_body E W request h body s = (case body of
     Produce _ \<Rightarrow> split_and_route_request E produce_router request s
   | Fetch _ \<Rightarrow> route_fetch_request E W request s
   | ListOffsets _ \<Rightarrow> split_and_route_request E list_offsets_router request s
   | OffsetForLeaderEpoch _ \<Rightarrow> split_and_route_request E offset_for_leader_epoch_router request s
   | DeleteRecords _ \<Rightarrow> split_and_route_request E delete_records_router request s
   | DescribeProducers _ \<Rightarrow> split_and_route_request E describe_producers_router request s
   | GroupRequest _ g _ \<Rightarrow> route_to_group_coordinator E request g s
   | OffsetFetch r \<Rightarrow>
       (if request_api_version h \<le> 7 then route_to_group_coordinator E request (of_group_id r) s
        else split_and_route_request E offset_fetch_router request s)
   | DeleteGroups _ \<Rightarrow> split_and_route_request E delete_groups_router request s
   | DescribeGroups _ \<Rightarrow> split_and_route_request E describe_groups_router request s
   | ConsumerGroupDescribe _ \<Rightarrow> split_and_route_request E consumer_group_describe_router request s
   | EndTxn t _ \<Rightarrow> route_to_transaction_coordinator E request t s
   | InitProducerId t _ \<Rightarrow> (case t of
         Some i \<Rightarrow> route_to_transaction_coordinator E request i s | None \<Rightarrow> route_to_random_broker E request s)
   | AddPartitionsToTxn r \<Rightarrow> route_add_partitions_to_txn E request (request_api_version h) r s
   | AddOffsetsToTxn t _ \<Rightarrow> route_to_transaction_coordinator E request t s
   | FindCoordinator r \<Rightarrow> route_find_coordinator E request r s
   | DescribeTransactions _ \<Rightarrow> split_and_route_request E describe_transactions_router request s
   | Metadata _ _ \<Rightarrow> route_to_random_broker E request s
   | PlainRequest k _ \<Rightarrow> route_plain E request (request_api_key h) k s
   | SaslHandshake _ _ \<Rightarrow> route_plain E request (request_api_key h) OtherRequest s
   | SaslAuthenticate _ _ \<Rightarrow> route_plain E request (request_api_key h) OtherRequest s)"

definition route_request :: "kafka_env \<Rightarrow> world \<Rightarrow> message \<Rightarrow> sink \<Rightarrow> sink result" where
  "route_request E W request s = (case frame (env_dec E) request of (f, m) \<Rightarrow> (case f of
     Some (FKafka (Request h body)) \<Rightarrow> route_body E W m h body s
   | Some _ \<Rightarrow> Inl (Panic ''internal error: entered unreachable code: Must be a kafka request'')
   | None \<Rightarrow> route_to_random_broker E m s))"

subsection \<open>The whole call\<close>

definition route_regular :: "nat \<Rightarrow> kafka_env \<Rightarrow> world \<Rightarrow> message list \<Rightarrow> sink \<Rightarrow> sink result option" where
  "route_regular fuel E W requests s =
    (case collect_requests E s requests \<lparr>need_topic_names = [], need_topic_ids = [], need_groups = [], need_transactions = []\<rparr> of
       (requests', n) \<Rightarrow>
         (case lookup_coordinators fuel E W GroupKey found_group (need_groups n) s of
            Some (Inr s1) \<Rightarrow> (case lookup_coordinators fuel E W TransactionKey found_transaction (need_transactions n) s1 of
                Some (Inr s2) \<Rightarrow> (case refresh_metadata fuel E W (need_topic_names n) (need_topic_ids n) s2 of
                    Some (Inr s3) \<Rightarrow> Some (fold_result (route_request E W) requests' s3)
                  | r \<Rightarrow> r)
              | r \<Rightarrow> r)
          | r \<Rightarrow> r))"

definition route_requests :: "nat \<Rightarrow> kafka_env \<Rightarrow> world \<Rightarrow> message list \<Rightarrow> sink \<Rightarrow> sink result option" where
  "route_requests fuel E W requests s =
    (if auth_complete s then route_regular fuel E W requests s
     else (case route_handshake E W requests s of
        Inl e \<Rightarrow> Some (Inl e)
      | Inr (rest, s1) \<Rightarrow> if rest = [] then Some (Ok s1) else route_regular fuel E W rest s1))"

definition kafka_transform :: "nat \<Rightarrow> kafka_env \<Rightarrow> world \<Rightarrow> message list \<Rightarrow> bool \<Rightarrow> sink \<Rightarrow> (message list \<times> bool \<times> sink) result option" where
  "kafka_transform fuel E W requests close s =
    (if requests = [] then Some (recv_responses E W close s)
     else (case route_requests fuel E W requests (update_local_nodes s) of
        None \<Rightarrow> None
      | Some (Inl e) \<Rightarrow> Some (Inl e)
      | Some (Inr s1) \<Rightarrow> (case send_requests E W s1 of
            (Inl e, _) \<Rightarrow> Some (Inl e)
          | (Inr _, s2) \<Rightarrow> Some (recv_responses E W close s2))))"

subsection \<open>Every request becomes one group of the queue\<close>

text \<open>What routing leaves alone.\<close>

definition keeps_conns :: "sink \<Rightarrow> sink \<Rightarrow> bool" where
  "keeps_conns s s' \<longleftrightarrow> sink_connections s' = sink_connections s \<and> authorize_scram_over_mtls s' = authorize_scram_over_mtls s
     \<and> sasl_mechanism s' = sasl_mechanism s \<and> auth_complete s' = auth_complete s"

lemma keeps_conns_refl [simp]: "keeps_conns s s" by (simp add: keeps_conns_def)

lemma keeps_conns_trans: "keeps_conns a b \<Longrightarrow> keeps_conns b c \<Longrightarrow> keeps_conns a c" by (simp add: keeps_conns_def)

lemma keeps_conns_updates [simp]:
  "keeps_conns s (push_back p s') = keeps_conns s s'"
  "keeps_conns s (s'\<lparr>rng := g\<rparr>) = keeps_conns s s'"
  "keeps_conns s (s'\<lparr>id_counter := i\<rparr>) = keeps_conns s s'"
  by (simp_all add: keeps_conns_def push_back_def)

text \<open>A new entry holds a request for a broker (\<open>b\<close>) or for the control connection.\<close>

definition new_entry :: "bool \<Rightarrow> message_id \<Rightarrow> pending_request \<Rightarrow> bool" where
  "new_entry b i p \<longleftrightarrow> (\<exists>m. pstate p = Routed m \<and> id m = i) \<and> (pdestination p \<noteq> ControlConnection \<longleftrightarrow> b)"

definition adds_groups :: "bool \<Rightarrow> message_id list \<Rightarrow> sink \<Rightarrow> sink \<Rightarrow> bool" where
  "adds_groups b heads s s' \<longleftrightarrow> (\<exists>gs idss. pending_requests s' = pending_requests s @ concat gs \<and> (\<forall>g \<in> set gs. is_group g)
     \<and> list_all2 (list_all2 (new_entry b)) idss gs \<and> map hd idss = heads)"

lemma adds_groups_Nil [simp]: "adds_groups b [] s s" by (auto simp: adds_groups_def intro!: exI[of _ "[]"])

lemma adds_groups_trans:
  assumes "adds_groups b hs s s1" and "adds_groups b hs' s1 s2"
  shows "adds_groups b (hs @ hs') s s2"
proof -
  obtain gs idss where a: "pending_requests s1 = pending_requests s @ concat gs" "\<forall>g \<in> set gs. is_group g"
    "list_all2 (list_all2 (new_entry b)) idss gs" "map hd idss = hs" using assms(1) unfolding adds_groups_def by blast
  obtain gs' idss' where c: "pending_requests s2 = pending_requests s1 @ concat gs'" "\<forall>g \<in> set gs'. is_group g"
    "list_all2 (list_all2 (new_entry b)) idss' gs'" "map hd idss' = hs'" using assms(2) unfolding adds_groups_def by blast
  show ?thesis unfolding adds_groups_def
    by (rule exI[of _ "gs @ gs'"], rule exI[of _ "idss @ idss'"]) (use a c in \<open>auto intro: list_all2_appendI\<close>)
qed

lemma adds_one_group:
  assumes "pending_requests s' = pending_requests s @ g" and "is_group g" and "list_all2 (new_entry b) is g" and "hd is = i"
  shows "adds_groups b [i] s s'"
  unfolding adds_groups_def by (rule exI[of _ "[g]"], rule exI[of _ "[is]"]) (use assms in simp)

lemma sink_random_broker_keeps:
  "sink_random_broker E s = (r, s1) \<Longrightarrow> keeps_conns s s1 \<and> pending_requests s1 = pending_requests s"
  by (auto simp: sink_random_broker_def split: prod.splits)

lemma real_destination_keeps:
  "real_destination E d s = (r, s1) \<Longrightarrow> keeps_conns s s1 \<and> pending_requests s1 = pending_requests s"
  by (auto simp: real_destination_def dest: sink_random_broker_keeps split: if_splits)

lemma coordinator_destination_keeps:
  "coordinator_destination E c s = (r, s1) \<Longrightarrow> keeps_conns s s1 \<and> pending_requests s1 = pending_requests s"
  by (auto simp: coordinator_destination_def dest: sink_random_broker_keeps split: option.splits)

lemma push_routed_adds:
  assumes "push_routed ds request ty 1 = Ok s'" and "\<And>r s1. ds = (r, s1) \<Longrightarrow> keeps_conns s s1 \<and> pending_requests s1 = pending_requests s"
  shows "keeps_conns s s' \<and> adds_groups True [id request] s s'"
proof -
  obtain r s1 where ds: "ds = (r, s1)" by fastforce
  then obtain d where d: "s' = push_back (routed_entry request d ty 1) s1" using assms(1) by (auto simp: push_routed_def bind_result_Ok)
  have "adds_groups True [id request] s s'"
    by (rule adds_one_group[of _ _ "[routed_entry request d ty 1]" _ "[id request]"])
      (use d assms(2)[OF ds] in \<open>simp_all add: push_back_def is_group_def routed_entry_def new_entry_def\<close>)
  then show ?thesis using d assms(2)[OF ds] by simp
qed

lemma route_parts_adds:
  assumes "\<And>sub m. id (assemble sub m) = id m" and "route_parts E ty n assemble request first parts s = Ok s'"
  shows "keeps_conns s s' \<and> (\<exists>g is. pending_requests s' = pending_requests s @ g \<and> length g = length parts \<and> (\<forall>p \<in> set g. pcombine p = n)
    \<and> list_all2 (new_entry True) is g \<and> (first \<longrightarrow> parts \<noteq> [] \<longrightarrow> hd is = id request))"
  using assms(2)
proof (induction parts arbitrary: first s)
  case (Cons x parts)
  obtain d sub where x: "x = (d, sub)" by fastforce
  obtain dest s1 where d: "real_destination E d s = (Ok dest, s1)"
    using Cons.prems x by (auto split: prod.splits sum.splits)
  obtain copy s3 where c: "(if first then (request, s1) else (case next_id E s1 of (i, s2) \<Rightarrow> (clone_with_new_id i request, s2))) = (copy, s3)"
    by fastforce
  let ?e = "routed_entry (assemble sub copy) dest ty n"
  have s3: "keeps_conns s s3" "pending_requests s3 = pending_requests s" "first \<Longrightarrow> copy = request"
    using c real_destination_keeps[OF d] by (auto simp: next_id_def split: if_splits)
  have "route_parts E ty n assemble request False parts (push_back ?e s3) = Ok s'" using Cons.prems x d c by simp
  from Cons.IH[OF this] obtain g "is" where g: "keeps_conns (push_back ?e s3) s'" "pending_requests s' = pending_requests (push_back ?e s3) @ g"
    "length g = length parts" "\<forall>p \<in> set g. pcombine p = n" "list_all2 (new_entry True) is g" by blast
  have "keeps_conns s s'" using keeps_conns_trans[OF _ g(1), of s] s3(1) by simp
  moreover have "list_all2 (new_entry True) (id copy # is) (?e # g)"
    using g(5) assms(1) by (simp add: new_entry_def routed_entry_def)
  ultimately show ?case using g s3
    by (intro conjI exI[of _ "?e # g"] exI[of _ "id copy # is"]) (auto simp: push_back_def routed_entry_def)
qed auto

lemma route_parts_group:
  assumes "\<And>sub m. id (assemble sub m) = id m" and "route_parts E ty (length parts) assemble request True parts s = Ok s'" and "parts \<noteq> []"
  shows "keeps_conns s s' \<and> adds_groups True [id request] s s'"
proof -
  obtain g "is" where g: "keeps_conns s s'" "pending_requests s' = pending_requests s @ g" "length g = length parts"
    "\<forall>p \<in> set g. pcombine p = length parts" "list_all2 (new_entry True) is g" "hd is = id request"
    using route_parts_adds[OF assms(1,2)] assms(3) by blast
  then have "is_group g" using assms(3) by (auto simp: is_group_def)
  then show ?thesis using g adds_one_group by blast
qed

lemma set_frame_id [simp]: "id (set_frame f m) = id m" by (simp add: set_frame_def)

lemma invalidate_cache_id [simp]: "id (invalidate_cache m) = id m" by (simp add: invalidate_cache_def)

lemma frame_id: "frame D m = (f, m') \<Longrightarrow> id m' = id m" by (metis frame_keeps(1) snd_conv)

lemma push_random_adds:
  "push_routed (sink_random_broker E s) m ty 1 = Ok s' \<Longrightarrow> keeps_conns s s' \<and> adds_groups True [id m] s s'"
  using push_routed_adds sink_random_broker_keeps by blast

lemma push_real_adds:
  "push_routed (real_destination E d s) m ty 1 = Ok s' \<Longrightarrow> keeps_conns s s' \<and> adds_groups True [id m] s s'"
  using push_routed_adds real_destination_keeps by blast

lemma push_coordinator_adds:
  "push_routed (coordinator_destination E c s) m ty 1 = Ok s' \<Longrightarrow> keeps_conns s s' \<and> adds_groups True [id m] s s'"
  using push_routed_adds coordinator_destination_keeps by blast

lemma split_and_route_request_adds:
  assumes "split_and_route_request E R request s = Ok s'"
  shows "keeps_conns s s' \<and> adds_groups True [id request] s s'"
proof -
  obtain f m where f: "frame (env_dec E) request = (f, m)" by fastforce
  obtain h body where b: "f = Some (FKafka (Request h body))"
    using assms f by (auto simp: split_and_route_request_def split: option.splits frame.splits kafka_frame.splits)
  obtain r where r: "get_request_frame R body = Some r" using assms f b by (auto simp: split_and_route_request_def split: option.splits)
  obtain r' routing where s: "split_by_destination R s r = Ok (r', routing)"
    using assms f b r by (cases "split_by_destination R s r") (auto simp: split_and_route_request_def bind_result_def)
  note u = assms[unfolded split_and_route_request_def f b prod.case option.case frame.case kafka_frame.case r s bind_result_def sum.case Let_def]
  show ?thesis
  proof (cases "hash_iter (map_order E) routing" rule: remdups_adj.cases)
    case 1
    then show ?thesis using u push_random_adds frame_id[OF f] by fastforce
  next
    case (2 x)
    then show ?thesis using u push_real_adds frame_id[OF f] by (cases x) fastforce
  next
    case (3 x y xs)
    have "route_parts E POther (length (x # y # xs)) (\<lambda>sub. set_frame (FKafka (Request h (put_request_frame R (reassemble R E r' sub)))))
        (invalidate_cache (set_frame (FKafka (Request h (put_request_frame R r'))) m)) True (x # y # xs) s = Ok s'"
      using u 3 by (cases x) (simp del: route_parts.simps)
    from route_parts_group[OF _ this] frame_id[OF f] show ?thesis by simp
  qed
qed

lemma route_fetch_request_adds:
  assumes "route_fetch_request E W request s = Ok s'" and "frame (env_dec E) request = (Some (FKafka (Request h (Fetch fetch))), m)"
  shows "keeps_conns s s' \<and> adds_groups True [id request] s s'"
proof -
  obtain fetch1 routing where s: "split_fetch_request_by_destination s fetch = (fetch1, routing)" by fastforce
  note u = assms(1)[unfolded route_fetch_request_def assms(2) prod.case option.case frame.case kafka_frame.case request_body.case s Let_def]
  show ?thesis
  proof (cases "hash_iter (map_order E) routing" rule: remdups_adj.cases)
    case 1
    then show ?thesis using u push_random_adds frame_id[OF assms(2)] by fastforce
  next
    case (2 x)
    then show ?thesis using u push_real_adds frame_id[OF assms(2)] by (cases x) fastforce
  next
    case (3 x y xs)
    let ?fetch2 = "fetch1\<lparr>max_wait_ms := 1, min_bytes := 1\<rparr>"
    have "route_parts E (PFetch (wd_now W) (max_wait_ms fetch) (min_bytes fetch)) (length (x # y # xs))
        (\<lambda>topics. set_frame (FKafka (Request h (Fetch (?fetch2\<lparr>fetch_topics := topics\<rparr>)))))
        (invalidate_cache (set_frame (FKafka (Request h (Fetch ?fetch2))) (set_frame (FKafka (Request h (Fetch fetch1))) m))) True (x # y # xs) s = Ok s'"
      using u 3 by (cases x) (simp del: route_parts.simps)
    from route_parts_group[OF _ this] frame_id[OF assms(2)] show ?thesis by simp
  qed
qed

lemma route_to_controller_adds:
  assumes "route_to_controller E m s = Ok s'"
  shows "keeps_conns s s' \<and> adds_groups True [id m] s s'"
proof -
  obtain b where b: "abi_get (controller_broker s) = Some b" using assms by (auto simp: route_to_controller_def split: option.splits)
  show ?thesis using assms b push_routed_adds[of _ m POther s' s] sink_random_broker_keeps
    by (cases "find (\<lambda>x. kn_broker_id x = b \<and> kn_is_up x) (nodes s)") (auto simp: route_to_controller_def)
qed

lemma route_to_random_broker_adds:
  "route_to_random_broker E m s = Ok s' \<Longrightarrow> keeps_conns s s' \<and> adds_groups True [id m] s s'"
  unfolding route_to_random_broker_def by (rule push_random_adds)

lemmas route_adds = push_random_adds push_coordinator_adds split_and_route_request_adds route_to_controller_adds
  route_to_random_broker_adds

lemma route_plain_adds: "route_plain E m key k s = Ok s' \<Longrightarrow> keeps_conns s s' \<and> adds_groups True [id m] s s'"
  unfolding route_plain_def by (auto dest: route_adds split: if_splits option.splits)

lemma route_request_adds:
  assumes "route_request E W request s = Ok s'"
  shows "keeps_conns s s' \<and> adds_groups True [id request] s s'"
proof -
  obtain f m where f: "frame (env_dec E) request = (f, m)" by fastforce
  have again: "frame (env_dec E) m = (f, m)"
    using f by (auto simp: frame_cases split: message_inner.splits sum.splits)
  show ?thesis
  proof (cases "\<exists>h body. f = Some (FKafka (Request h body))")
    case False
    then have "route_to_random_broker E m s = Ok s'" using assms f
      by (auto simp: route_request_def split: option.splits frame.splits kafka_frame.splits)
    then show ?thesis using route_adds(5) frame_id[OF f] by fastforce
  next
    case True
    then obtain h body where b: "f = Some (FKafka (Request h body))" by blast
    then have r: "route_body E W m h body s = Ok s'" using assms f by (simp add: route_request_def)
    have "keeps_conns s s' \<and> adds_groups True [id m] s s'"
    proof (cases body)
      case (Fetch x)
      then show ?thesis using r route_fetch_request_adds again b by (fastforce simp: route_body_def)
    qed (use r in \<open>auto simp: route_body_def route_to_group_coordinator_def route_to_transaction_coordinator_def
        route_find_coordinator_def route_add_partitions_to_txn_def simp del: One_nat_def
        dest: route_adds route_plain_adds split: if_splits option.splits\<close>)
    then show ?thesis using frame_id[OF f] by simp
  qed
qed

subsection \<open>The parts of a split request\<close>

text \<open>What an entry of the queue asks for.\<close>

definition entry_frame :: "decoders \<Rightarrow> pending_request \<Rightarrow> frame option" where
  "entry_frame D p = (case pstate p of Routed m \<Rightarrow> fst (frame D m) | _ \<Rightarrow> None)"

definition entry_atoms :: "decoders \<Rightarrow> ('r, 'sub) router \<Rightarrow> ('r \<Rightarrow> 'a list) \<Rightarrow> pending_request \<Rightarrow> 'a list" where
  "entry_atoms D R atoms p = (case entry_frame D p of
     Some (FKafka (Request _ body)) \<Rightarrow> (case get_request_frame R body of Some r \<Rightarrow> atoms r | None \<Rightarrow> [])
   | _ \<Rightarrow> [])"

definition parsed :: "message \<Rightarrow> bool" where
  "parsed m \<longleftrightarrow> (\<forall>bs mt. inner m \<noteq> RawBytes bs mt)"

lemma parsed_ops [simp]:
  "parsed (set_frame f m) = parsed m" "parsed (invalidate_cache m) = parsed m" "parsed (clone_with_new_id i m) = parsed m"
  by (cases "inner m"; simp add: parsed_def set_frame_def invalidate_cache_def clone_with_new_id_def)+

lemma parsed_frame: "frame D m = (Some f, m') \<Longrightarrow> parsed m'"
  by (auto simp: parsed_def frame_cases split: message_inner.splits sum.splits)

lemma frame_set_frame: "parsed m \<Longrightarrow> fst (frame D (set_frame f m)) = Some f"
  by (cases "inner m") (simp_all add: parsed_def set_frame_def frame_cases)

definition part_of :: "decoders \<Rightarrow> nat \<Rightarrow> ('sub \<Rightarrow> frame) \<Rightarrow> int \<times> 'sub \<Rightarrow> pending_request \<Rightarrow> bool" where
  "part_of D n mk part p \<longleftrightarrow> entry_frame D p = Some (mk (snd part)) \<and> pcombine p = n \<and> (fst part \<noteq> -1 \<longrightarrow> pdestination p = Id (fst part))"

lemma real_destination_known: "real_destination E d s = (Ok d', s') \<Longrightarrow> d \<noteq> -1 \<Longrightarrow> d' = d"
  by (simp add: real_destination_def)

lemma route_parts_carry:
  assumes "parsed request" and "route_parts E ty n (\<lambda>sub. set_frame (mk sub)) request first parts s = Ok s'"
  shows "\<exists>g. pending_requests s' = pending_requests s @ g \<and> list_all2 (part_of (env_dec E) n mk) parts g"
  using assms(2)
proof (induction parts arbitrary: first s)
  case (Cons x parts)
  obtain d sub where x: "x = (d, sub)" by fastforce
  obtain dest s1 where d: "real_destination E d s = (Ok dest, s1)"
    using Cons.prems x by (auto split: prod.splits sum.splits)
  obtain copy s3 where c: "(if first then (request, s1) else (case next_id E s1 of (i, s2) \<Rightarrow> (clone_with_new_id i request, s2))) = (copy, s3)"
    by fastforce
  let ?e = "routed_entry (set_frame (mk sub) copy) dest ty n"
  have s3: "pending_requests s3 = pending_requests s" "parsed copy"
    using c real_destination_keeps[OF d] assms(1) by (auto simp: next_id_def split: if_splits)
  have "route_parts E ty n (\<lambda>sub. set_frame (mk sub)) request False parts (push_back ?e s3) = Ok s'" using Cons.prems x d c by simp
  from Cons.IH[OF this] obtain g where g: "pending_requests s' = pending_requests (push_back ?e s3) @ g"
    "list_all2 (part_of (env_dec E) n mk) parts g" by blast
  have "part_of (env_dec E) n mk x ?e"
    using x real_destination_known[OF d] frame_set_frame[OF s3(2)] by (auto simp: part_of_def routed_entry_def entry_frame_def)
  then show ?case using g s3(1) by (intro exI[of _ "?e # g"]) (simp add: push_back_def)
qed simp

lemma push_routed_entry:
  assumes "push_routed ds m ty n = Ok s'"
  shows "\<exists>d s1. ds = (Ok d, s1) \<and> pending_requests s' = pending_requests s1 @ [routed_entry m d ty n]"
  using assms by (cases ds) (auto simp: push_routed_def bind_result_Ok push_back_def)

context splitting_router
begin

lemma entry_atoms_part:
  assumes "part_of D n (\<lambda>sub. FKafka (Request h (put_request_frame R (reassemble R E r' sub)))) part p"
  shows "entry_atoms D R atoms p = atoms (reassemble R E r' (snd part))"
  using assms by (simp add: part_of_def entry_atoms_def)

lemma parts_conserve:
  assumes E: "order_ok E" and "valid r" and s: "split_by_destination R s r = Ok (r', routing)"
    and g: "list_all2 (part_of D (length g) (\<lambda>sub. FKafka (Request h (put_request_frame R (reassemble R E r' sub))))) (hash_iter (map_order E) routing) g"
    and "g \<noteq> []"
  shows "is_group g \<and> mset (concat (map (entry_atoms D R atoms) g)) = mset (atoms r) \<and>
    (\<forall>p \<in> set g. \<forall>a \<in> set (entry_atoms D R atoms p). dest s a = -1 \<or> pdestination p = Id (dest s a))"
proof -
  let ?parts = "hash_iter (map_order E) routing"
  have m: "mset ?parts = mset routing"
    using split_distinct[OF s assms(2)] E by (intro mset_hash_iter) (auto simp: order_ok_def)
  have "map (entry_atoms D R atoms) g = map (\<lambda>(d, sub). atoms (reassemble R E r' sub)) ?parts"
    using g by (induction rule: list_all2_induct) (auto dest: entry_atoms_part)
  moreover have "mset (concat (map (\<lambda>(d, sub). atoms (reassemble R E r' sub)) ?parts)) =
      mset (concat (map (\<lambda>(d, sub). atoms (reassemble R E r' sub)) routing))"
    by (rule mset_concat_map[OF m])
  moreover note split_conserves[OF E assms(2) s, of r']
  moreover have "dest s a = -1 \<or> pdestination p = Id (dest s a)" if p: "p \<in> set g" and a: "a \<in> set (entry_atoms D R atoms p)" for p a
  proof -
    obtain part where part: "part \<in> set ?parts" "part_of D (length g) (\<lambda>sub. FKafka (Request h (put_request_frame R (reassemble R E r' sub)))) part p"
      using list_all2_nthD2[OF g] list_all2_lengthD[OF g] p nth_mem by (metis in_set_conv_nth)
    have "(fst part, snd part) \<in> set routing" using part(1) m mset_eq_setD by (metis prod.collapse)
    from split_to_destination[OF E assms(2) s this, of a r'] show ?thesis
      using a entry_atoms_part[OF part(2)] part(2) by (auto simp: part_of_def)
  qed
  moreover have "is_group g" using g assms(5) by (auto simp: is_group_def list_all2_conv_all_nth in_set_conv_nth part_of_def)
  ultimately show ?thesis by metis
qed

lemma split_and_route_carries:
  assumes E: "order_ok E" and valid: "valid r" and f: "frame (env_dec E) request = (Some (FKafka (Request h body)), m)"
    and r: "get_request_frame R body = Some r" and route: "split_and_route_request E R request s = Ok s'"
  shows "\<exists>g. pending_requests s' = pending_requests s @ g \<and> is_group g \<and>
    mset (concat (map (entry_atoms (env_dec E) R atoms) g)) = mset (atoms r) \<and>
    (\<forall>p \<in> set g. \<forall>a \<in> set (entry_atoms (env_dec E) R atoms p). dest s a = -1 \<or> pdestination p = Id (dest s a))"
proof -
  let ?D = "env_dec E"
  obtain r' routing where s: "split_by_destination R s r = Ok (r', routing)" using split_total by blast
  let ?mk = "\<lambda>sub. FKafka (Request h (put_request_frame R (reassemble R E r' sub)))"
  let ?m = "set_frame (FKafka (Request h (put_request_frame R r'))) m"
  note u = route[unfolded split_and_route_request_def f prod.case option.case frame.case kafka_frame.case r s bind_result_def sum.case Let_def]
  have m: "parsed m" using parsed_frame[OF f] .
  note conserve = parts_conserve[OF E valid s, of ?D _ h]
  show ?thesis
  proof (cases "hash_iter (map_order E) routing" rule: remdups_adj.cases)
    case 1
    then obtain d s1 where p: "sink_random_broker E s = (Ok d, s1)" "pending_requests s' = pending_requests s1 @ [routed_entry ?m d POther 1]"
      using u push_routed_entry[of "sink_random_broker E s" ?m POther 1 s'] by auto
    have "mset (hash_iter (map_order E) routing) = mset routing"
      using split_distinct[OF s valid] E by (intro mset_hash_iter) (auto simp: order_ok_def)
    then have "atoms r = []" using 1 split_conserves[OF E valid s, of r'] by simp
    moreover have "entry_atoms ?D R atoms (routed_entry ?m d POther 1) = []"
      using frame_set_frame[OF m] split_drained[OF s] by (simp add: entry_atoms_def entry_frame_def routed_entry_def)
    ultimately show ?thesis using p sink_random_broker_keeps[OF p(1)]
      by (intro exI[of _ "[routed_entry ?m d POther 1]"]) (simp add: is_group_def routed_entry_def)
  next
    case (2 x)
    obtain d sub where x: "x = (d, sub)" by fastforce
    let ?e = "\<lambda>d'. routed_entry (set_frame (?mk sub) ?m) d' POther 1"
    obtain d' s1 where p: "real_destination E d s = (Ok d', s1)" "pending_requests s' = pending_requests s1 @ [?e d']"
      using u 2 x push_routed_entry[of "real_destination E d s" "set_frame (?mk sub) ?m" POther 1 s'] by auto
    have "part_of ?D (length [?e d']) ?mk x (?e d')"
      using frame_set_frame[of ?m] m real_destination_known[OF p(1)] x by (auto simp: part_of_def entry_frame_def routed_entry_def)
    then show ?thesis using conserve[of "[?e d']"] 2 p real_destination_keeps[OF p(1)] by (intro exI[of _ "[?e d']"]) simp
  next
    case (3 x y xs)
    have "route_parts E POther (length (x # y # xs)) (\<lambda>sub. set_frame (?mk sub)) (invalidate_cache ?m) True (x # y # xs) s = Ok s'"
      using u 3 by (cases x) (simp del: route_parts.simps)
    from route_parts_carry[OF _ this] m obtain g where g: "pending_requests s' = pending_requests s @ g"
      "list_all2 (part_of ?D (length (x # y # xs)) ?mk) (x # y # xs) g" by auto
    have "length g = length (x # y # xs)" using list_all2_lengthD[OF g(2)] by simp
    then show ?thesis using conserve[of g] g 3 by (intro exI[of _ g]) auto
  qed
qed

end

end
