(* ===== verification/Kafka_Session.thy ===== *)
theory Kafka_Session
  imports Kafka_Routing
begin

text \<open>
  What a client of the Kafka sink sees over many calls of \<^verbatim>\<open>transform\<close>: the responses it gets are the
  responses to its requests, in the order in which it sent them.
\<close>

subsection \<open>The queue is a sequence of groups\<close>

function counts_ok :: "nat list \<Rightarrow> bool" where
  "counts_ok [] = True"
| "counts_ok (n # ns) = (0 < n \<and> n - 1 \<le> length ns \<and> (\<forall>x \<in> set (take (n - 1) ns). x = n) \<and> counts_ok (drop (n - 1) ns))"
  by pat_completeness auto
termination
  by (relation "measure length") auto

definition well_grouped :: "pending_request list \<Rightarrow> bool" where
  "well_grouped ps = counts_ok (map pcombine ps)"

lemma counts_ok_append: "counts_ok a \<Longrightarrow> counts_ok b \<Longrightarrow> counts_ok (a @ b)"
proof (induction a rule: counts_ok.induct)
  case (2 n ns)
  then show ?case by auto
qed simp

lemma counts_ok_group: "is_group g \<Longrightarrow> counts_ok (map pcombine g)"
proof -
  assume g: "is_group g"
  have "map pcombine g = replicate (length g) (length g)"
    using g by (intro replicate_eqI) (auto simp: is_group_def)
  moreover have "counts_ok (replicate n n)" for n by (cases n) auto
  ultimately show ?thesis by simp
qed

lemma well_grouped_append: "well_grouped ps \<Longrightarrow> \<forall>g \<in> set gs. is_group g \<Longrightarrow> well_grouped (ps @ concat gs)"
proof (induction gs arbitrary: ps)
  case (Cons g gs)
  then have "well_grouped (ps @ g)" by (simp add: well_grouped_def counts_ok_append counts_ok_group)
  from Cons.IH[OF this] Cons.prems show ?case by simp
qed simp

lemma well_grouped_shape: "shape ps = shape qs \<Longrightarrow> well_grouped ps = well_grouped qs"
proof -
  assume "shape ps = shape qs"
  then have "map (snd \<circ> snd) (shape ps) = map (snd \<circ> snd) (shape qs)" by simp
  then show ?thesis by (simp add: shape_def well_grouped_def comp_def)
qed

lemma well_grouped_drop: "well_grouped (p # ps) \<Longrightarrow> well_grouped (drop (pcombine p) (p # ps))"
  by (cases "pcombine p") (auto simp: well_grouped_def drop_map)

lemma group_heads_append:
  "counts_ok (map pcombine ps) \<Longrightarrow> length ids = length ps \<Longrightarrow> group_heads (ids @ js) (ps @ qs) = group_heads ids ps @ group_heads js qs"
proof (induction ids ps rule: group_heads.induct)
  case (1 i "is" p ps)
  then show ?case by (auto simp: drop_map)
qed auto

lemma group_heads_group: "is_group g \<Longrightarrow> length is = length g \<Longrightarrow> group_heads is g = [hd is]"
  by (cases g; cases "is") (auto simp: is_group_def)

lemma group_heads_groups:
  assumes "\<forall>g \<in> set gs. is_group g" and "list_all2 (list_all2 P) idss gs"
  shows "group_heads (concat idss) (concat gs) = map hd idss"
  using assms(2,1)
proof (induction rule: list_all2_induct)
  case (Cons x xs y ys)
  have "group_heads (x @ concat xs) (y @ concat ys) = group_heads x y @ group_heads (concat xs) (concat ys)"
    using Cons by (intro group_heads_append counts_ok_group) (auto dest: list_all2_lengthD)
  then show ?case using Cons group_heads_group[of y x] by (auto dest: list_all2_lengthD)
qed simp

text \<open>Routed requests join the queue behind the requests that are in it.\<close>

lemma sent_indices_new: "list_all2 (new_entry b) is ps \<Longrightarrow> sent_indices d ps = []"
  by (induction rule: list_all2_induct) (auto simp: sent_indices_Cons new_entry_def)

lemma adds_groups_tracks:
  assumes "adds_groups b heads s s'" and "tracks ids w (pending_requests s)" and "well_grouped (pending_requests s)"
  shows "\<exists>ids'. tracks ids' w (pending_requests s') \<and> well_grouped (pending_requests s')
    \<and> group_heads ids' (pending_requests s') = group_heads ids (pending_requests s) @ heads"
proof -
  obtain gs idss where g: "pending_requests s' = pending_requests s @ concat gs" "\<forall>g \<in> set gs. is_group g"
    "list_all2 (list_all2 (new_entry b)) idss gs" "map hd idss = heads" using assms(1) unfolding adds_groups_def by blast
  have new: "list_all2 (new_entry b) (concat idss) (concat gs)"
    using g(3) by (induction rule: list_all2_induct) (auto intro: list_all2_appendI)
  have "list_all2 (entry_ok w) (concat idss) (concat gs)"
    using new by (rule list_all2_mono) (auto simp: new_entry_def entry_ok_def)
  then have "tracks (ids @ concat idss) w (pending_requests s')"
    using assms(2) sent_indices_new[OF new] by (simp add: tracks_def g(1) list_all2_appendI)
  moreover have "group_heads (ids @ concat idss) (pending_requests s') = group_heads ids (pending_requests s) @ heads"
    using group_heads_append[OF _ tracks_length[OF assms(2)]] group_heads_groups[OF g(2,3)] assms(3) g(1,4) by (simp add: well_grouped_def)
  ultimately show ?thesis using well_grouped_append[OF assms(3) g(2)] g(1) by (metis)
qed

subsection \<open>The phases of routing\<close>

lemma collect_requests_ids: "collect_requests E s ms n = (ms', n') \<Longrightarrow> map id ms' = map id ms"
proof (induction ms arbitrary: n ms' n')
  case (Cons m ms)
  have "id (fst (collect_request E s m n)) = id m"
    by (auto simp: collect_request_def dest: frame_id split: prod.splits option.splits frame.splits kafka_frame.splits request_body.splits)
  then show ?case using Cons by (auto split: prod.splits)
qed simp

lemma route_all_adds:
  "fold_result (route_request E W) ms s = Ok s' \<Longrightarrow> keeps_conns s s' \<and> adds_groups True (map id ms) s s'"
proof (induction ms arbitrary: s)
  case (Cons m ms)
  obtain s1 where s1: "route_request E W m s = Ok s1" "fold_result (route_request E W) ms s1 = Ok s'"
    using Cons.prems by (auto simp: bind_result_Ok)
  then show ?case using Cons.IH[OF s1(2)] route_request_adds[OF s1(1)] keeps_conns_trans
      adds_groups_trans[of True "[id m]" s s1 "map id ms" s'] by simp blast
qed simp

lemma found_keeps:
  "same_queue s (found_group g n s)" "sink_connections (found_group g n s) = sink_connections s"
  "same_queue s (found_transaction g n s)" "sink_connections (found_transaction g n s) = sink_connections s"
  by (simp_all add: found_group_def found_transaction_def sink_add_node_def same_queue_def Let_def)

lemma lookup_coordinators_ok:
  assumes W: "world_ok W" "await_ok W" and "conns_ok W w s" and w: "w ControlConnection = []"
    and found: "\<And>x n s. same_queue s (found x n s) \<and> sink_connections (found x n s) = sink_connections s"
    and "lookup_coordinators fuel E W key found xs s = Some (Ok s')"
  shows "conns_ok W w s' \<and> same_queue s s'"
  using assms(3,6)
proof (induction xs arbitrary: s)
  case (Cons x xs)
  obtain c s1 where c: "find_coordinator fuel E W (key x) s = Some (Ok c, s1)"
    and l: "lookup_coordinators fuel E W key found xs (case c of Some n \<Rightarrow> found x n s1 | None \<Rightarrow> s1) = Some (Ok s')"
    using Cons.prems(2) by (auto split: option.splits sum.splits prod.splits)
  note ok = find_coordinator_ok[OF W Cons.prems(1) w c]
  have "conns_ok W w (case c of Some n \<Rightarrow> found x n s1 | None \<Rightarrow> s1) \<and> same_queue s (case c of Some n \<Rightarrow> found x n s1 | None \<Rightarrow> s1)"
    using ok conns_ok_same_queue[of W w s1] found same_queue_trans[of s s1] by (auto split: option.split)
  then show ?case using Cons.IH[OF _ l] same_queue_trans by blast
qed simp

lemma refresh_metadata_ok:
  assumes W: "world_ok W" "await_ok W" and "conns_ok W w s" and w: "w ControlConnection = []"
    and "authorize_scram_over_mtls s = None" and r: "refresh_metadata fuel E W names tids s = Some (Ok s')"
  shows "conns_ok W w s' \<and> same_queue s s'"
proof (cases "s' = s")
  case False
  then obtain m s1 md where m: "get_metadata_loop 3 fuel E W names tids s = Some (Ok m, s1)" "s' = process_metadata_response E md s1"
    using r by (auto simp: refresh_metadata_def get_metadata_of_topics_with_retry_def
        split: if_splits option.splits prod.splits sum.splits frame.splits kafka_frame.splits response_body.splits)
  have ok: "conns_ok W w s1" "same_queue s s1" using get_metadata_loop_ok[OF W assms(3) w m(1)] by blast+
  have c: "same_core s1 s'" using m(2) same_core_metadata by simp
  then have "same_queue s1 s'" using ok(2) assms(5) by (simp add: same_core_def same_queue_def)
  then show ?thesis using ok conns_ok_same_core[OF c] same_queue_trans by blast
qed (use assms(3) in simp)

lemma conns_ok_keeps: "conns_ok W w s \<Longrightarrow> keeps_conns s s' \<Longrightarrow> conns_ok W w s'"
  using scram_conns_ok_config[of "config_of W s'" "config_of W s"] by (simp add: conns_ok_def keeps_conns_def config_of_def)

lemma adds_groups_from: "adds_groups b hs s s' \<Longrightarrow> pending_requests s = pending_requests s0 \<Longrightarrow> adds_groups b hs s0 s'"
  by (simp add: adds_groups_def)

lemma route_regular_ok:
  assumes W: "world_ok W" "await_ok W" and "conns_ok W w s" and w: "w ControlConnection = []"
    and plain: "authorize_scram_over_mtls s = None" and r: "route_regular fuel E W requests s = Some (Ok s')"
  shows "conns_ok W w s' \<and> authorize_scram_over_mtls s' = None \<and> auth_complete s' = auth_complete s \<and> adds_groups True (map id requests) s s'"
proof -
  let ?n0 = "\<lparr>need_topic_names = [], need_topic_ids = [], need_groups = [], need_transactions = []\<rparr>"
  obtain requests' n where c: "collect_requests E s requests ?n0 = (requests', n)" by fastforce
  obtain s1 where s1: "lookup_coordinators fuel E W GroupKey found_group (need_groups n) s = Some (Ok s1)"
    using r c by (auto simp: route_regular_def split: option.splits sum.splits)
  obtain s2 where s2: "lookup_coordinators fuel E W TransactionKey found_transaction (need_transactions n) s1 = Some (Ok s2)"
    using r c s1 by (auto simp: route_regular_def split: option.splits sum.splits)
  obtain s3 where s3: "refresh_metadata fuel E W (need_topic_names n) (need_topic_ids n) s2 = Some (Ok s3)"
    using r c s1 s2 by (auto simp: route_regular_def split: option.splits sum.splits)
  have f: "fold_result (route_request E W) requests' s3 = Ok s'" using r c s1 s2 s3 by (simp add: route_regular_def)
  have o1: "conns_ok W w s1" "same_queue s s1" using lookup_coordinators_ok[OF W assms(3) w _ s1] found_keeps by blast+
  have o2: "conns_ok W w s2" "same_queue s s2"
    using lookup_coordinators_ok[OF W o1(1) w _ s2] found_keeps same_queue_trans[OF o1(2)] by blast+
  have plain2: "authorize_scram_over_mtls s2 = None" using o2(2) plain by (simp add: same_queue_def)
  have o3: "conns_ok W w s3" "same_queue s s3"
    using refresh_metadata_ok[OF W o2(1) w plain2 s3] same_queue_trans[OF o2(2)] by blast+
  note a = route_all_adds[OF f]
  show ?thesis using a o3 plain conns_ok_keeps[OF o3(1)] adds_groups_from[of True _ s3 s' s] collect_requests_ids[OF c]
    by (simp add: same_queue_def keeps_conns_def)
qed

subsection \<open>The handshake\<close>

definition is_handshake :: "decoders \<Rightarrow> message \<Rightarrow> bool" where
  "is_handshake D m = (case fst (frame D m) of
     Some (FKafka (Request _ body)) \<Rightarrow> (case body of SaslHandshake _ _ \<Rightarrow> True | SaslAuthenticate _ _ \<Rightarrow> True
       | PlainRequest k _ \<Rightarrow> k = ApiVersions | _ \<Rightarrow> False)
   | _ \<Rightarrow> False)"

definition scanned :: "sink \<Rightarrow> sink \<Rightarrow> bool" where
  "scanned s s' \<longleftrightarrow> pending_requests s' = pending_requests s \<and> sink_connections s' = sink_connections s
     \<and> (authorize_scram_over_mtls s = None \<longrightarrow> authorize_scram_over_mtls s' = None)"

lemma scanned_trans: "scanned a b \<Longrightarrow> scanned b c \<Longrightarrow> scanned a c" by (simp add: scanned_def)

lemma auth_scan_step:
  assumes "auth_scan E W (request # requests) s = Ok (n, rs, s')" and "is_handshake (env_dec E) request"
  shows "\<exists>s1 n' rs' request'. scanned s s1 \<and> auth_complete s1 = auth_complete s \<and> auth_scan E W requests s1 = Ok (n', rs', s')
    \<and> n = Suc n' \<and> rs = request' # rs' \<and> id request' = id request"
proof -
  obtain f m where f: "frame (env_dec E) request = (f, m)" by fastforce
  then obtain h body where b: "f = Some (FKafka (Request h body))"
    using assms(2) by (auto simp: is_handshake_def split: option.splits frame.splits kafka_frame.splits)
  have m: "id m = id request" using frame_id[OF f] .
  show ?thesis
  proof (cases body)
    case (SaslAuthenticate bytes x)
    define t where "t = (case (authorize_scram_over_mtls s, get_username_from_scram_request bytes) of
        (Some a, Some username) \<Rightarrow> bind_result (set_username W username a) (\<lambda>a'. Ok (s\<lparr>authorize_scram_over_mtls := Some a'\<rparr>))
      | _ \<Rightarrow> Ok s)"
    have "bind_result t (\<lambda>s1. bind_result (auth_scan E W requests (add_auth_request m s1)) (\<lambda>(n, rs, s'). Ok (Suc n, m # rs, s'))) = Ok (n, rs, s')"
      using assms(1) f b SaslAuthenticate by (simp add: t_def)
    then obtain s1 where t: "t = Ok s1" and
      s1: "bind_result (auth_scan E W requests (add_auth_request m s1)) (\<lambda>(n, rs, s'). Ok (Suc n, m # rs, s')) = Ok (n, rs, s')"
      by (auto simp: bind_result_Ok)
    have sc: "scanned s s1" "auth_complete s1 = auth_complete s"
      using t by (auto simp: t_def bind_result_Ok set_username_def scanned_def split: option.splits)
    have "scanned s (add_auth_request m s1)" "auth_complete (add_auth_request m s1) = auth_complete s"
      using sc by (auto simp: scanned_def add_auth_request_def)
    then show ?thesis using s1 m by (fastforce simp: bind_result_Ok)
  next
    case (SaslHandshake mech x)
    let ?s1 = "add_auth_request m (s\<lparr>sasl_mechanism := Some mech\<rparr>)"
    have "scanned s ?s1" "auth_complete ?s1 = auth_complete s" by (auto simp: scanned_def add_auth_request_def)
    then show ?thesis using assms(1) f b SaslHandshake m by (fastforce simp: bind_result_Ok)
  next
    case (PlainRequest k x)
    then have k: "k = ApiVersions" using assms(2) f b by (simp add: is_handshake_def)
    have "scanned s s" by (simp add: scanned_def)
    then show ?thesis using assms(1) f b PlainRequest k m by (fastforce simp: bind_result_Ok)
  qed (use assms(2) f b in \<open>auto simp: is_handshake_def\<close>)
qed

lemma auth_scan_stop:
  assumes "auth_scan E W (request # requests) s = Ok (n, rs, s')" and "\<not> is_handshake (env_dec E) request"
  shows "n = 0 \<and> map id rs = map id (request # requests) \<and> s' = s\<lparr>auth_complete := True\<rparr>"
proof -
  obtain f m where f: "frame (env_dec E) request = (f, m)" by fastforce
  let ?stop = "if (case authorize_scram_over_mtls s of Some a \<Rightarrow> original_scram_state a \<noteq> AuthSuccess | None \<Rightarrow> False)
     then Inl (Err ''Client attempted to send requests before a successful auth was completed or after an unsuccessful auth'')
     else Ok (0, m # requests, s\<lparr>auth_complete := True\<rparr>)"
  have "auth_scan E W (request # requests) s = ?stop"
  proof (cases "\<exists>h body. f = Some (FKafka (Request h body))")
    case False
    then show ?thesis using f by (simp split: option.split frame.split kafka_frame.split)
  next
    case True
    then obtain h body where b: "f = Some (FKafka (Request h body))" by blast
    show ?thesis
    proof (cases body)
      case (PlainRequest k x)
      then show ?thesis using f b assms(2) by (cases k) (simp_all add: is_handshake_def)
    qed (use f b assms(2) in \<open>simp_all add: is_handshake_def\<close>)
  qed
  then show ?thesis using assms(1) frame_id[OF f] by (auto split: if_splits)
qed

lemma auth_scan_ok:
  assumes "auth_scan E W requests s = Ok (n, rs, s')" and "\<not> auth_complete s"
  shows "map id rs = map id requests \<and> n = length (takeWhile (is_handshake (env_dec E)) requests)
    \<and> (auth_complete s' \<longleftrightarrow> n < length requests) \<and> scanned s s'"
  using assms
proof (induction requests arbitrary: s n rs)
  case (Cons request requests)
  show ?case
  proof (cases "is_handshake (env_dec E) request")
    case True
    from auth_scan_step[OF Cons.prems(1) this] obtain s1 n' rs' request' where s1: "scanned s s1" "auth_complete s1 = auth_complete s"
      "auth_scan E W requests s1 = Ok (n', rs', s')" "n = Suc n'" "rs = request' # rs'" "id request' = id request" by blast
    from Cons.IH[OF s1(3)] s1 Cons.prems(2) True show ?thesis using scanned_trans by auto
  next
    case False
    from auth_scan_stop[OF Cons.prems(1) this] False show ?thesis by (simp add: scanned_def)
  qed
qed (simp add: scanned_def)

lemma auth_scan_total:
  assumes "authorize_scram_over_mtls s = None"
  shows "\<exists>n rs s'. auth_scan E W requests s = Ok (n, rs, s')"
  using assms
proof (induction requests arbitrary: s)
  case (Cons request requests)
  obtain f m where f: "frame (env_dec E) request = (f, m)" by fastforce
  have rec: "\<exists>n rs s'. bind_result (auth_scan E W requests t) (\<lambda>(n, rs, s'). Ok (Suc n, m # rs, s')) = Ok (n, rs, s')"
    if "authorize_scram_over_mtls t = None" for t
    using Cons.IH[OF that] by (auto simp: bind_result_def)
  show ?case
  proof (cases "\<exists>h body. f = Some (FKafka (Request h body))")
    case False
    then show ?thesis using f Cons.prems by (simp split: option.split frame.split kafka_frame.split)
  next
    case True
    then obtain h body where b: "f = Some (FKafka (Request h body))" by blast
    show ?thesis
    proof (cases body)
      case (PlainRequest k x)
      then show ?thesis using f b Cons.prems rec by (cases k) simp_all
    next
      case (SaslAuthenticate bytes x)
      then show ?thesis using f b Cons.prems rec[of "add_auth_request m s"] by (simp add: add_auth_request_def bind_result_def)
    next
      case (SaslHandshake mech x)
      then show ?thesis using f b Cons.prems rec[of "add_auth_request m (s\<lparr>sasl_mechanism := Some mech\<rparr>)"] by (simp add: add_auth_request_def)
    qed (use f b Cons.prems in simp_all)
  qed
qed simp

lemma takeWhile_stops: "\<exists>x \<in> set xs. \<not> P x \<Longrightarrow> length (takeWhile P xs) < length xs"
  by (induction xs) auto

lemma route_control_adds:
  "fold_result route_to_control_connection ms s = Ok s' \<Longrightarrow> keeps_conns s s' \<and> adds_groups False (map id ms) s s' \<and> (ms \<noteq> [] \<longrightarrow> \<not> auth_complete s)"
proof (induction ms arbitrary: s)
  case (Cons m ms)
  let ?e = "\<lparr>pstate = Routed m, pdestination = ControlConnection, pty = POther, pcombine = 1\<rparr>"
  obtain s1 where s1: "route_to_control_connection m s = Ok s1" "fold_result route_to_control_connection ms s1 = Ok s'"
    using Cons.prems by (auto simp: bind_result_Ok)
  then have "\<not> auth_complete s" and f: "fold_result route_to_control_connection ms (push_back ?e s) = Ok s'"
    by (auto simp: route_to_control_connection_def split: if_splits)
  moreover have "adds_groups False [id m] s (push_back ?e s)"
    by (rule adds_one_group[of _ _ "[?e]" _ "[id m]"]) (simp_all add: push_back_def is_group_def new_entry_def)
  ultimately show ?case using Cons.IH[OF f] adds_groups_trans[of False "[id m]" s "push_back ?e s" "map id ms" s']
    by (simp add: keeps_conns_def push_back_def)
qed simp

text \<open>A batch is a handshake as a whole or not at all: after a handshake request no other may follow in it.\<close>

lemma route_handshake_ok:
  assumes "route_handshake E W requests s = Ok (rest, s')" and "\<not> auth_complete s"
  shows "sink_connections s' = sink_connections s \<and> (authorize_scram_over_mtls s = None \<longrightarrow> authorize_scram_over_mtls s' = None) \<and>
    (if list_all (is_handshake (env_dec E)) requests
     then rest = [] \<and> adds_groups False (map id requests) s s'
     else map id rest = map id requests \<and> auth_complete s' \<and> pending_requests s' = pending_requests s)"
proof -
  obtain n rs s1 where a: "auth_scan E W requests s = Ok (n, rs, s1)" and
    f: "fold_result route_to_control_connection (take n rs) s1 = Ok s'" and rest: "rest = drop n rs"
    using assms(1) by (auto simp: route_handshake_def bind_result_Ok)
  note scan = auth_scan_ok[OF a assms(2)]
  note c = route_control_adds[OF f]
  have len: "length rs = length requests" using scan map_eq_imp_length_eq by blast
  show ?thesis
  proof (cases "list_all (is_handshake (env_dec E)) requests")
    case True
    then have "takeWhile (is_handshake (env_dec E)) requests = requests" by (simp add: takeWhile_eq_all_conv list_all_iff)
    then have n: "n = length requests" using scan by metis
    then have "adds_groups False (map id requests) s1 s'" using c scan len by simp
    then show ?thesis using True n c scan len rest adds_groups_from[of False _ s1 s' s] by (auto simp: scanned_def keeps_conns_def)
  next
    case False
    then have "n < length requests"
      using scan nth_length_takeWhile[of "is_handshake (env_dec E)" requests] takeWhile_eq_all_conv[of "is_handshake (env_dec E)" requests]
      by (metis (no_types, lifting) length_takeWhile_le list_all_iff nat_less_le takeWhile_eq_take take_all)
    then have "auth_complete s1" using scan by blast
    then have "take n rs = []" using c by blast
    then have "s' = s1" "n = 0" using f len \<open>n < length requests\<close> by auto
    then show ?thesis using False scan rest \<open>auth_complete s1\<close> by (auto simp: scanned_def)
  qed
qed

subsection \<open>A call\<close>

lemma send_to_plain: "send_to E W d ms s = (Ok (), s') \<Longrightarrow> authorize_scram_over_mtls s' = authorize_scram_over_mtls s \<and> auth_complete s' = auth_complete s"
  by (auto simp: send_to_def put_conn_def Let_def open_failed_fails send_failed_fails
      split: prod.splits sum.splits option.splits conn_result.splits)

lemma send_requests_plain:
  "send_requests E W s = (Ok (), s') \<Longrightarrow> authorize_scram_over_mtls s' = authorize_scram_over_mtls s \<and> auth_complete s' = auth_complete s"
proof -
  have all: "send_all E W l t = (Ok (), t') \<Longrightarrow> authorize_scram_over_mtls t' = authorize_scram_over_mtls t \<and> auth_complete t' = auth_complete t" for l t t'
  proof (induction l arbitrary: t)
    case (Cons x l)
    obtain d ms t1 where "x = (d, ms)" "send_to E W d ms t = (Ok (), t1)" "send_all E W l t1 = (Ok (), t')"
      using Cons.prems by (cases x) (auto split: prod.splits sum.splits)
    then show ?case using send_to_plain[of E W d ms t t1] Cons.IH[of t1] by simp
  qed simp
  assume "send_requests E W s = (Ok (), s')"
  then show ?thesis using all by (fastforce simp: send_requests_def split: prod.splits)
qed

lemma recv_all_plain:
  assumes "recv_all W s = Ok s'"
  shows "authorize_scram_over_mtls s' = authorize_scram_over_mtls s \<and> auth_complete s' = auth_complete s"
proof -
  obtain s1 errors where r: "fold_result (recv_from W) (wd_order W (map fst (conns (sink_connections s)))) (s, []) = Ok (s1, errors)"
    and h: "fold_result (handle_recv_error W) errors s1 = Ok s'"
    using assms by (auto simp: recv_all_def bind_result_Ok)
  let ?P = "\<lambda>t. authorize_scram_over_mtls t = authorize_scram_over_mtls s \<and> auth_complete t = auth_complete s"
  have "?P (fst (s1, errors))"
    by (rule fold_result_invariant[OF r, where P = "\<lambda>x. ?P (fst x)"])
      (auto simp: recv_from_def put_conn_def bind_result_Ok split: option.splits prod.splits conn_result.splits)
  then have "?P s1" by simp
  show ?thesis
    by (rule fold_result_invariant[OF h, where P = ?P])
      (use \<open>?P s1\<close> in \<open>auto simp: handle_recv_error_def set_nodes_def split: option.splits prod.splits sum.splits if_splits\<close>)
qed

lemma drain_ready_plain:
  assumes "drain_ready E W close s = Ok (rs, close', s')" and "well_grouped (pending_requests s)"
  shows "well_grouped (pending_requests s') \<and> auth_complete s' = auth_complete s
    \<and> (authorize_scram_over_mtls s = None \<longrightarrow> authorize_scram_over_mtls s' = None)"
  using assms
proof (induction "length (pending_requests s)" arbitrary: s close rs close' s' rule: less_induct)
  case less
  show ?case using less.prems(1)
  proof (cases rule: drain_ready_cases)
    case stop
    then show ?thesis using less.prems(2) by simp
  next
    case (again n)
    obtain front where f: "list_all2 (\<lambda>p q. route_again p = Ok q) (take n (pending_requests s)) front"
      and s': "s' = s\<lparr>pending_requests := front @ drop n (pending_requests s), refetch_backoff := 2 * refetch_backoff s\<rparr>"
      using again(2) by (auto simp: refetch_def bind_result_Ok map_result_Ok)
    have "shape (pending_requests s') = shape (take n (pending_requests s) @ drop n (pending_requests s))"
      using route_all_again_keeps(2)[OF f] by (simp only: s' shape_def map_append) simp
    then show ?thesis using less.prems(2) well_grouped_shape[of "pending_requests s'" "pending_requests s"] s' by simp
  next
    case (pop p ps r r' close1 s1 rs1)
    let ?t = "reset_backoff (pty p) (s\<lparr>pending_requests := drop (pcombine p) (p # ps)\<rparr>)"
    have c: "same_core ?t s1" by (rule process_response_core[OF pop(4)])
    have q: "pending_requests s1 = drop (pcombine p) (p # ps)" using c by (simp add: same_core_def reset_backoff_def)
    have "0 < pcombine p" using take_response_nonempty[OF pop(3)] by blast
    then have "length (pending_requests s1) < length (pending_requests s)" using pop(1) by (simp add: q)
    moreover have "well_grouped (pending_requests s1)" using well_grouped_drop less.prems(2) pop(1) q by metis
    moreover have "auth_complete s1 = auth_complete s" "authorize_scram_over_mtls s = None \<longrightarrow> authorize_scram_over_mtls s1 = None"
      using c by (auto simp: same_core_def reset_backoff_def split: if_splits)
    ultimately show ?thesis using less.hyps[OF _ pop(5)] by simp
  qed
qed

lemma recv_responses_plain:
  assumes W: "world_ok W" and "queue_ok W ids w s" and "well_grouped (pending_requests s)" and plain: "authorize_scram_over_mtls s = None"
    and "recv_responses E W close s = Ok (rs, close', s')"
  shows "\<exists>ids' w'. queue_ok W ids' w' s' \<and> well_grouped (pending_requests s') \<and> authorize_scram_over_mtls s' = None \<and> auth_complete s' = auth_complete s
    \<and> none_routed (pending_requests s')
    \<and> map Some (group_heads ids (pending_requests s)) = map request_id rs @ map Some (group_heads ids' (pending_requests s'))"
proof -
  have settled: "all_settled s"
    using assms(2) plain by (force simp: all_settled_def settled_def queue_ok_def conns_ok_def scram_conns_ok_def uses_scram_def config_of_def
        split: kafka_connection.splits)
  obtain s1 s2 where r: "recv_all W s = Ok s1" and d: "drain_ready E W close s1 = Ok (rs, close', s2)"
    and sr: "send_requests E W s2 = (Ok (), s')"
    by (rule recv_responses_cases[OF assms(5)])
  obtain w1 where w1: "queue_ok W ids w1 s1" "shape (pending_requests s1) = shape (pending_requests s)"
    using recv_all_ok[OF W assms(2) settled r] by blast
  have g1: "well_grouped (pending_requests s1)" using assms(3) well_grouped_shape[OF w1(2)] by simp
  note d1 = drain_ready_plain[OF d g1]
  obtain ids2 where ids2: "tracks ids2 w1 (pending_requests s2)" using drain_ready_in_order[OF d] w1(1) by (auto simp: queue_ok_def)
  have "queue_ok W ids2 w1 s2" using ids2 drain_ready_conns[OF d] w1(1) by (simp add: queue_ok_def)
  from send_requests_ok[OF W this sr] have "well_grouped (pending_requests s')" using d1 well_grouped_shape by blast
  moreover have "authorize_scram_over_mtls s' = None \<and> auth_complete s' = auth_complete s"
    using recv_all_plain[OF r] d1 send_requests_plain[OF sr] plain by simp
  ultimately show ?thesis using recv_responses_in_order[OF W assms(2) settled assms(5)] by blast
qed

text \<open>The control connection is free when no entry of the queue is for it.\<close>

definition control_idle :: "pending_request list \<Rightarrow> bool" where
  "control_idle ps \<longleftrightarrow> (\<forall>p \<in> set ps. pdestination p \<noteq> ControlConnection)"

lemma control_idle_queue: "tracks ids w ps \<Longrightarrow> control_idle ps \<Longrightarrow> w ControlConnection = []"
proof -
  assume t: "tracks ids w ps" and idle: "control_idle ps"
  have "sent_indices ControlConnection ps = []" using idle
    by (induction ps) (auto simp: control_idle_def sent_indices_Cons split: pending_request_state.splits)
  then show ?thesis using tracks_sent_length[OF t, of ControlConnection] by simp
qed

text \<open>
  When a batch may be sent: a batch of handshake requests before authentication is complete,
  any other once the responses to the handshake have been received.
\<close>

definition may_send :: "kafka_env \<Rightarrow> message list \<Rightarrow> sink \<Rightarrow> bool" where
  "may_send E requests s \<longleftrightarrow> (\<not> auth_complete s \<and> list_all (is_handshake (env_dec E)) requests) \<or> control_idle (pending_requests s)"

lemma route_requests_adds:
  assumes W: "world_ok W" "await_ok W" and q: "queue_ok W ids w s" and plain: "authorize_scram_over_mtls s = None"
    and may: "may_send E requests s" and r: "route_requests fuel E W requests s = Some (Ok s')"
  shows "conns_ok W w s' \<and> authorize_scram_over_mtls s' = None \<and> (\<exists>b. adds_groups b (map id requests) s s')"
proof (cases "auth_complete s")
  case True
  have idle: "w ControlConnection = []" using may True control_idle_queue q by (auto simp: may_send_def queue_ok_def)
  have "conns_ok W w s" "route_regular fuel E W requests s = Some (Ok s')" using r True q by (simp_all add: route_requests_def queue_ok_def)
  from route_regular_ok[OF W this(1) idle plain this(2)] show ?thesis by blast
next
  case False
  obtain rest s1 where h: "route_handshake E W requests s = Ok (rest, s1)"
    using r False by (auto simp: route_requests_def split: sum.splits)
  note ok = route_handshake_ok[OF h False]
  have plain1: "authorize_scram_over_mtls s1 = None" using ok plain by blast
  have conns1: "conns_ok W w s1"
    using q ok plain plain1 by (simp add: queue_ok_def conns_ok_def scram_conns_ok_def uses_scram_def config_of_def)
  show ?thesis
  proof (cases "list_all (is_handshake (env_dec E)) requests")
    case True
    then show ?thesis using ok conns1 plain1 r False h by (auto simp: route_requests_def)
  next
    case regular: False
    then have idle: "w ControlConnection = []" using may control_idle_queue q by (auto simp: may_send_def queue_ok_def)
    have rest: "map id rest = map id requests" "pending_requests s1 = pending_requests s" using ok regular by auto
    then have "rest \<noteq> []" using regular by (cases requests) auto
    then have "route_regular fuel E W rest s1 = Some (Ok s')" using r False h by (simp add: route_requests_def)
    from route_regular_ok[OF W conns1 idle plain1 this] show ?thesis using rest adds_groups_from[of True _ s1 s' s] by auto
  qed
qed

lemma kafka_transform_in_order:
  assumes W: "world_ok W" "await_ok W" and q: "queue_ok W ids w s" and g: "well_grouped (pending_requests s)"
    and plain: "authorize_scram_over_mtls s = None" and may: "may_send E requests s"
    and t: "kafka_transform fuel E W requests close s = Some (Ok (rs, close', s'))"
  shows "\<exists>ids' w'. queue_ok W ids' w' s' \<and> well_grouped (pending_requests s') \<and> authorize_scram_over_mtls s' = None
    \<and> map Some (group_heads ids (pending_requests s) @ map id requests) = map request_id rs @ map Some (group_heads ids' (pending_requests s'))"
proof (cases "requests = []")
  case True
  then have "recv_responses E W close s = Ok (rs, close', s')" using t by (simp add: kafka_transform_def)
  from recv_responses_plain[OF W(1) q g plain this] True show ?thesis by auto
next
  case False
  let ?s = "update_local_nodes s"
  obtain s1 where s1: "route_requests fuel E W requests ?s = Some (Ok s1)"
    using t False by (auto simp: kafka_transform_def split: option.splits sum.splits)
  obtain s2 where s2: "send_requests E W s1 = (Ok (), s2)" "recv_responses E W close s2 = Ok (rs, close', s')"
    using t False s1 by (auto simp: kafka_transform_def split: prod.splits sum.splits)
  have u: "queue_ok W ids w ?s" "authorize_scram_over_mtls ?s = None" "may_send E requests ?s" "pending_requests ?s = pending_requests s"
    using q plain may by (simp_all add: update_local_nodes_def queue_ok_def conns_ok_def config_of_def may_send_def)
  obtain b where a: "conns_ok W w s1" "authorize_scram_over_mtls s1 = None" "adds_groups b (map id requests) ?s s1"
    using route_requests_adds[OF W u(1-3) s1] by blast
  obtain ids1 where ids1: "tracks ids1 w (pending_requests s1)" "well_grouped (pending_requests s1)"
    "group_heads ids1 (pending_requests s1) = group_heads ids (pending_requests s) @ map id requests"
    using adds_groups_tracks[OF a(3)] q g u(4) by (auto simp: queue_ok_def)
  obtain w2 where w2: "queue_ok W ids1 w2 s2" "shape (pending_requests s2) = shape (pending_requests s1)"
    using send_requests_ok[OF W(1) _ s2(1)] a(1) ids1(1) by (auto simp: queue_ok_def)
  have "well_grouped (pending_requests s2)" "authorize_scram_over_mtls s2 = None"
    using ids1(2) well_grouped_shape[OF w2(2)] send_requests_plain[OF s2(1)] a(2) by simp_all
  from recv_responses_plain[OF W(1) w2(1) this s2(2)] show ?thesis using group_heads_shape[OF w2(2), of ids1] ids1(3) by auto
qed

subsection \<open>A session\<close>

text \<open>
  Between two calls responses arrive, or the server closes the connection.  The responses
  answer the outstanding requests of the connection in order; which they are, the queue of sent
  requests and the counter of the connection tell.
\<close>

definition outstanding_ids :: "sink_connection \<Rightarrow> message_id list" where
  "outstanding_ids c = (let sent = map id (out_tx c) in drop (length sent - conn_pending_requests_count c) sent)"

definition answers_in_order :: "sink_connection \<Rightarrow> message list list \<Rightarrow> bool" where
  "answers_in_order c batches \<longleftrightarrow> (\<forall>q. map fst q = outstanding_ids c \<and> inserter c = inserter_abs q \<and> arrived_ok q (concat (in_rx c))
     \<longrightarrow> arrived_ok q (concat (in_rx c @ batches)))"

definition arrive :: "message list list \<Rightarrow> connection_error option \<Rightarrow> sink_connection \<Rightarrow> sink_connection" where
  "arrive batches closed c = c\<lparr>in_rx := in_rx c @ batches, in_disconnected := closed \<noteq> None, out_disconnected := closed \<noteq> None, closed_rx := closed\<rparr>"

lemma outstanding_ids_chan: "sink_chan c ids \<Longrightarrow> outstanding_ids c = ids"
proof -
  assume "sink_chan c ids"
  then have "suffix ids (map id (out_tx c))" "conn_pending_requests_count c = length ids"
    by (auto simp: sink_chan_pending) (simp add: sink_chan_def)
  then obtain zs where z: "map id (out_tx c) = zs @ ids" "conn_pending_requests_count c = length ids" by (auto simp: suffix_def)
  then have "length (out_tx c) = length zs + length ids" by (metis length_append length_map)
  then show ?thesis using z by (simp add: outstanding_ids_def)
qed

lemma arrive_chan: "sink_chan c ids \<Longrightarrow> answers_in_order c batches \<Longrightarrow> sink_chan (arrive batches closed c) ids"
  using outstanding_ids_chan[of c ids] by (auto simp: sink_chan_def answers_in_order_def arrive_def)

text \<open>
  A session of a client with the sink: calls of \<open>transform\<close>, arrivals on the connections to the
  brokers, and changes that the other sinks make to what they share.  The ids of the requests the
  client has sent and the responses it has got are recorded.
\<close>

inductive session :: "kafka_env \<Rightarrow> sink \<Rightarrow> message_id list \<Rightarrow> message list \<Rightarrow> sink \<Rightarrow> bool" for E s0 where
  start: "session E s0 [] [] s0"
| call: "session E s0 reqs resps s \<Longrightarrow> world_ok W \<Longrightarrow> await_ok W \<Longrightarrow> may_send E batch s \<Longrightarrow>
    kafka_transform fuel E W batch close s = Some (Ok (rs, close', s')) \<Longrightarrow> session E s0 (reqs @ map id batch) (resps @ rs) s'"
| arrival: "session E s0 reqs resps s \<Longrightarrow> map_of (conns (sink_connections s)) d = Some (Regular c) \<Longrightarrow> answers_in_order c batches \<Longrightarrow>
    session E s0 reqs resps (put_conn d (Regular (arrive batches closed c)) s)"
| shared: "session E s0 reqs resps s \<Longrightarrow>
    session E s0 reqs resps (s\<lparr>nodes_shared := ns, topic_by_name := tn, topic_by_id := ti, group_to_coordinator_broker := gc,
      transaction_to_coordinator_broker := tc, controller_broker := cb\<rparr>)"

definition session_ok :: "message_id list \<Rightarrow> message list \<Rightarrow> sink \<Rightarrow> bool" where
  "session_ok reqs resps s \<longleftrightarrow> authorize_scram_over_mtls s = None \<and> well_grouped (pending_requests s) \<and>
     (\<exists>ids w. tracks ids w (pending_requests s) \<and> chans (sink_connections s) w \<and> (\<forall>W. scram_conns_ok (config_of W s) (sink_connections s)) \<and>
       map Some reqs = map request_id resps @ map Some (group_heads ids (pending_requests s)))"

lemma scram_conns_ok_world: "scram_conns_ok (config_of W s) cs = scram_conns_ok (config_of W' s) cs"
  by (rule scram_conns_ok_config) (simp_all add: config_of_def)

lemma session_ok_step:
  assumes "session_ok reqs resps s" and "world_ok W" "await_ok W" and "may_send E batch s"
    and "kafka_transform fuel E W batch close s = Some (Ok (rs, close', s'))"
  shows "session_ok (reqs @ map id batch) (resps @ rs) s'"
proof -
  obtain ids w where i: "authorize_scram_over_mtls s = None" "well_grouped (pending_requests s)" "queue_ok W ids w s"
    "map Some reqs = map request_id resps @ map Some (group_heads ids (pending_requests s))"
    using assms(1) by (auto simp: session_ok_def queue_ok_def conns_ok_def)
  from kafka_transform_in_order[OF assms(2,3) i(3,2,1) assms(4,5)] obtain ids' w' where o: "queue_ok W ids' w' s'"
    "well_grouped (pending_requests s')" "authorize_scram_over_mtls s' = None"
    "map Some (group_heads ids (pending_requests s) @ map id batch) = map request_id rs @ map Some (group_heads ids' (pending_requests s'))"
    by blast
  have "map Some (reqs @ map id batch) = map request_id (resps @ rs) @ map Some (group_heads ids' (pending_requests s'))"
    using i(4) o(4) by simp
  then show ?thesis using o scram_conns_ok_world unfolding session_ok_def queue_ok_def conns_ok_def by blast
qed

lemma session_ok_arrival:
  assumes "session_ok reqs resps s" and k: "map_of (conns (sink_connections s)) d = Some (Regular c)" and "answers_in_order c batches"
  shows "session_ok reqs resps (put_conn d (Regular (arrive batches closed c)) s)"
proof -
  obtain ids w where i: "tracks ids w (pending_requests s)" "chans (sink_connections s) w" "\<forall>W. scram_conns_ok (config_of W s) (sink_connections s)"
    "map Some reqs = map request_id resps @ map Some (group_heads ids (pending_requests s))"
    using assms(1) by (auto simp: session_ok_def)
  let ?k = "Regular (arrive batches closed c)"
  have "sink_chan c (w d)" using i(2) k by (auto simp: chans_def kc_chan_def dest: spec[of _ d])
  then have "kc_chan ?k (w d)" using arrive_chan assms(3) by (simp add: kc_chan_def)
  then have "chans (sink_connections (put_conn d ?k s)) w"
    using chans_but_put[OF chans_imp_but[OF i(2)]] by (simp add: put_conn_def)
  moreover have "scram_conns_ok (config_of W (put_conn d ?k s)) (sink_connections (put_conn d ?k s))" for W
    using scram_conns_ok_update[OF i(3)[rule_format] k, of ?k W] by (simp add: put_conn_def config_of_def same_kind_def)
  moreover have "pending_requests (put_conn d ?k s) = pending_requests s" "authorize_scram_over_mtls (put_conn d ?k s) = authorize_scram_over_mtls s"
    by (simp_all add: put_conn_def)
  ultimately show ?thesis using assms(1) i(1,4) unfolding session_ok_def by metis
qed

lemma session_ok_shared:
  "session_ok reqs resps (s\<lparr>nodes_shared := ns, topic_by_name := tn, topic_by_id := ti, group_to_coordinator_broker := gc,
      transaction_to_coordinator_broker := tc, controller_broker := cb\<rparr>) = session_ok reqs resps s"
  by (simp add: session_ok_def config_of_def)

lemma session_invariant: "session E s0 reqs resps s \<Longrightarrow> session_ok [] [] s0 \<Longrightarrow> session_ok reqs resps s"
proof (induction rule: session.induct)
  case (shared reqs resps s ns tn ti gc tc cb)
  from shared(2)[OF shared(3)] show ?case by (simp only: session_ok_shared)
qed (auto intro: session_ok_step session_ok_arrival)

lemma session_ok_start:
  "authorize_scram_over_mtls s = None \<Longrightarrow> pending_requests s = [] \<Longrightarrow> conns (sink_connections s) = [] \<Longrightarrow> session_ok [] [] s"
  by (auto simp: session_ok_def tracks_def chans_def scram_conns_ok_def well_grouped_def intro!: exI[of _ "[]"] exI[of _ "\<lambda>_. []"])

lemma session_prefix:
  assumes "session_ok reqs resps s"
  shows "\<exists>open. map Some reqs = map request_id resps @ map Some open \<and> (pending_requests s = [] \<longrightarrow> open = [])"
proof -
  obtain ids w where i: "tracks ids w (pending_requests s)"
    "map Some reqs = map request_id resps @ map Some (group_heads ids (pending_requests s))"
    using assms by (auto simp: session_ok_def)
  have "pending_requests s = [] \<longrightarrow> group_heads ids (pending_requests s) = []" using tracks_length[OF i(1)] by auto
  then show ?thesis using i(2) by blast
qed

subsection \<open>No response is held back\<close>

text \<open>The first group of the queue waits for a response.\<close>

definition front_waits :: "pending_request list \<Rightarrow> bool" where
  "front_waits ps \<longleftrightarrow> ps = [] \<or> (\<exists>p \<in> set (take (pcombine (hd ps)) ps). \<not> is_received p)"

lemma well_grouped_front: "well_grouped (p # ps) \<Longrightarrow> 0 < pcombine p \<and> pcombine p \<le> length (p # ps)"
  by (auto simp: well_grouped_def)

lemma refetch_waits:
  assumes "refetch n s = Ok s'" and "pending_requests s = p # ps" and "n = pcombine p" and "0 < n"
  shows "front_waits (pending_requests s')"
proof -
  obtain front where f: "list_all2 (\<lambda>p q. route_again p = Ok q) (take n (p # ps)) front" and s': "pending_requests s' = front @ drop n (p # ps)"
    using assms(1,2) by (auto simp: refetch_def bind_result_Ok map_result_Ok)
  then obtain q front' where q: "front = q # front'" "route_again p = Ok q" using assms(4) by (cases n) (auto simp: list_all2_Cons1)
  have "pcombine q = n" using route_again_keeps(2)[OF q(2)] assms(3) by (simp add: shape_def)
  moreover have "\<not> is_received q" using q(2) by (auto simp: route_again_def is_received_def split: pending_request_state.splits option.splits)
  ultimately show ?thesis using q(1) s' assms(4) by (auto simp: front_waits_def take_Cons')
qed

lemma drain_ready_stops:
  assumes "drain_ready E W close s = Ok (rs, close', s')" and "well_grouped (pending_requests s)"
  shows "front_waits (pending_requests s')"
  using assms
proof (induction "length (pending_requests s)" arbitrary: s close rs close' s' rule: less_induct)
  case less
  show ?case using less.prems(1)
  proof (cases rule: drain_ready_cases)
    case stop
    show ?thesis
    proof (cases "pending_requests s")
      case (Cons p ps)
      then show ?thesis using stop less.prems(2) well_grouped_front[of p ps]
        by (auto simp: front_waits_def all_combined_received_iff)
    qed (use stop in \<open>simp add: front_waits_def\<close>)
  next
    case (again n)
    then obtain p ps where p: "pending_requests s = p # ps" by (cases "pending_requests s") auto
    then show ?thesis using refetch_waits[OF again(2) p] again(3) well_grouped_front[of p ps] less.prems(2) by simp
  next
    case (pop p ps r r' close1 s1 rs1)
    have q: "pending_requests s1 = drop (pcombine p) (p # ps)"
      using process_response_core[OF pop(4)] by (simp add: same_core_def reset_backoff_def)
    have "0 < pcombine p" using take_response_nonempty[OF pop(3)] by blast
    then have "length (pending_requests s1) < length (pending_requests s)" using pop(1) by (simp add: q)
    moreover have "well_grouped (pending_requests s1)" using well_grouped_drop less.prems(2) pop(1) q by metis
    ultimately show ?thesis using less.hyps[OF _ pop(5)] by blast
  qed
qed

lemma mark_sent_received:
  "mark_sent before ps m = (queue, m') \<Longrightarrow> map is_received queue = map is_received (before @ ps) \<and> shape queue = shape (before @ ps)"
  by (induction before ps m rule: mark_sent.induct)
    (auto simp: is_received_def shape_def Let_def split: pending_request_state.splits)

lemma send_requests_received:
  assumes "send_requests E W s = (Ok (), s')"
  shows "map is_received (pending_requests s') = map is_received (pending_requests s) \<and> shape (pending_requests s') = shape (pending_requests s)"
proof -
  have to: "send_to E W d ms t = (Ok (), t') \<Longrightarrow> pending_requests t' = pending_requests t" for d ms t t'
    by (auto simp: send_to_def put_conn_def Let_def open_failed_fails send_failed_fails
        split: prod.splits sum.splits option.splits conn_result.splits)
  have all: "send_all E W l t = (Ok (), t') \<Longrightarrow> pending_requests t' = pending_requests t" for l t t'
    by (induction l arbitrary: t) (auto dest: to split: prod.splits sum.splits)
  obtain queue m where m: "mark_sent [] (pending_requests s) [] = (queue, m)" by fastforce
  show ?thesis using assms m mark_sent_received[OF m] all by (fastforce simp: send_requests_def)
qed

lemma front_waits_cong:
  assumes "map is_received ps = map is_received qs" and "shape ps = shape qs" and "front_waits ps"
  shows "front_waits qs"
proof (cases "ps = []")
  case False
  have "map (snd \<circ> snd) (shape ps) = map (snd \<circ> snd) (shape qs)" using assms(2) by simp
  then have c: "map pcombine ps = map pcombine qs" by (simp add: shape_def comp_def)
  then have h: "pcombine (hd ps) = pcombine (hd qs)" using False by (cases ps; cases qs) auto
  let ?n = "pcombine (hd qs)"
  have "False \<in> set (map is_received (take ?n ps))" using assms(3) False h by (auto simp: front_waits_def)
  then have "False \<in> set (map is_received (take ?n qs))" by (metis assms(1) take_map)
  then show ?thesis by (auto simp: front_waits_def)
qed (use assms in \<open>auto simp: front_waits_def\<close>)

lemma recv_responses_waits:
  assumes "recv_responses E W close s = Ok (rs, close', s')" and "world_ok W" and "queue_ok W ids w s" and "all_settled s"
    and "well_grouped (pending_requests s)"
  shows "front_waits (pending_requests s')"
proof -
  obtain s1 s2 where r: "recv_all W s = Ok s1" and d: "drain_ready E W close s1 = Ok (rs, close', s2)"
    and sr: "send_requests E W s2 = (Ok (), s')"
    by (rule recv_responses_cases[OF assms(1)])
  have "well_grouped (pending_requests s1)" using recv_all_ok[OF assms(2-4) r] well_grouped_shape assms(5) by blast
  from drain_ready_stops[OF d this] show ?thesis
    using front_waits_cong[of "pending_requests s2" "pending_requests s'"] send_requests_received[OF sr] by simp
qed

lemma front_waits_sent:
  "front_waits ps \<Longrightarrow> none_routed ps \<Longrightarrow> ps \<noteq> [] \<Longrightarrow> \<exists>p \<in> set (take (pcombine (hd ps)) ps). \<exists>n req. pstate p = Sent n req"
proof -
  assume "front_waits ps" and n: "none_routed ps" and "ps \<noteq> []"
  then obtain p where p: "p \<in> set (take (pcombine (hd ps)) ps)" "\<not> is_received p" by (auto simp: front_waits_def)
  then have "\<forall>m. pstate p \<noteq> Routed m" using n in_set_takeD unfolding none_routed_def by fast
  then show ?thesis using p by (cases "pstate p") (auto simp: is_received_def)
qed

end
