(* ===== verification/Kafka_Instances.thy ===== *)
theory Kafka_Instances
  imports Kafka_Session
begin

text \<open>
  A small concrete cluster: three brokers in two racks, two shotover nodes, one topic.  It shows
  that what the theorems ask of the surroundings of the sink can be had, and gives the
  theorems a state to be applied to.
\<close>

definition ex_dec :: decoders where
  "ex_dec = \<lparr>dec_cassandra = (\<lambda>_ _. Inl (Err ''no codec'')), dec_valkey = (\<lambda>_. Inl (Err ''no codec'')),
     dec_kafka = (\<lambda>_ _. Inl (Err ''no codec'')), dec_opensearch = (\<lambda>_. Inl (Err ''no codec'')),
     dec_version = (\<lambda>_. Inl (Err ''no codec'')), dec_opcode = (\<lambda>_. Inl (Err ''no codec'')),
     dec_raw_body = (\<lambda>_. Inl (Err ''no codec''))\<rparr>"

definition ex_code :: "int \<Rightarrow> response_error option" where
  "ex_code c = map_of [(3, UnknownTopicOrPartition), (6, NotLeaderOrFollower), (15, CoordinatorNotAvailable),
     (16, NotCoordinator), (33, UnsupportedSaslMechanism), (41, NotController)] c"

definition ex_code_of :: "response_error \<Rightarrow> int" where
  "ex_code_of e = (case e of UnknownTopicOrPartition \<Rightarrow> 3 | NotLeaderOrFollower \<Rightarrow> 6 | CoordinatorNotAvailable \<Rightarrow> 15
     | NotCoordinator \<Rightarrow> 16 | UnsupportedSaslMechanism \<Rightarrow> 33 | NotController \<Rightarrow> 41 | OtherError n \<Rightarrow> n)"

definition ex_env :: kafka_env where
  "ex_env = \<lparr>rng_choose = (\<lambda>r n. (r mod n, Suc r)), map_order = rev, name_order = (\<lambda>ks. ks), try_from_code = ex_code,
     error_code_of = ex_code_of, xxh3 = length, debug_broker_id = show_int,
     api_key_name = (\<lambda>k. map_of [(0, ''Produce''), (1, ''Fetch''), (3, ''Metadata''), (60, ''DescribeCluster'')] k),
     api_key_code = (\<lambda>n. if n = ''Metadata'' then 3 else if n = ''FindCoordinator'' then 10 else - 1),
     default_leader = \<lparr>cl_leader_id = - 1, cl_leader_epoch = - 1\<rparr>, fresh_id = (\<lambda>n. 1000 + n), env_dec = ex_dec\<rparr>"

lemma ex_env_ok [simp]: "choose_ok ex_env" "order_ok ex_env" "ids_ok ex_env"
  by (simp_all add: choose_ok_def order_ok_def ids_ok_def ex_env_def inj_def)

lemma ex_env_sel [simp]:
  "env_dec ex_env = ex_dec" "try_from_code ex_env = ex_code" "map_order ex_env = rev" "name_order ex_env = (\<lambda>ks. ks)"
  "default_leader ex_env = \<lparr>cl_leader_id = - 1, cl_leader_epoch = - 1\<rparr>" "xxh3 ex_env = length"
  "rng_choose ex_env = (\<lambda>r n. (r mod n, Suc r))" "fresh_id ex_env = (\<lambda>n. 1000 + n)"
  by (simp_all add: ex_env_def)

definition ex_addr :: "string \<Rightarrow> kafka_address" where
  "ex_addr h = \<lparr>host = h, port = 9092\<rparr>"

definition ex_node :: "int \<Rightarrow> string \<Rightarrow> kafka_node" where
  "ex_node b r = kafka_node_new b (ex_addr ''kafka'') (Some r)"

definition ex_shotover :: "int \<Rightarrow> string \<Rightarrow> shotover_node" where
  "ex_shotover b r = \<lparr>sn_address_for_clients = ex_addr ''shotover'', sn_address_for_peers = ex_addr ''peer'',
     sn_rack = r, sn_broker_id = b, sn_state = Up\<rparr>"

definition ex_partition :: "int \<Rightarrow> int \<Rightarrow> int \<Rightarrow> partition" where
  "ex_partition i leader epoch = \<lparr>pt_index = i, pt_leader_epoch = epoch, pt_leader_id = leader,
     pt_shotover_rack_replica_nodes = [leader], pt_external_rack_replica_nodes = []\<rparr>"

definition ex_sink :: sink where
  "ex_sink = \<lparr>first_contact_points = [ex_addr ''kafka''], shotover_nodes = [ex_shotover 0 ''a'', ex_shotover 1 ''b''],
     rack = ''a'', broker_id = 0, nodes = [ex_node 0 ''a'', ex_node 1 ''a'', ex_node 2 ''b''],
     nodes_shared = [ex_node 0 ''a'', ex_node 1 ''a'', ex_node 2 ''b''], controller_broker = 1,
     group_to_coordinator_broker = [''g'' \<mapsto> 1], transaction_to_coordinator_broker = [''x'' \<mapsto> 2],
     topic_by_name = [''t'' \<mapsto> [ex_partition 0 1 5, ex_partition 1 2 7]],
     topic_by_id = [9 \<mapsto> [ex_partition 0 1 5, ex_partition 1 2 7]], rng = 0, id_counter = 0, auth_complete = True,
     auth_requests = [], pending_requests = [], sasl_mechanism = None, authorize_scram_over_mtls = None,
     sink_connections = connections_new, refetch_backoff = from_millis 1\<rparr>"

lemma ex_sink_sel [simp]:
  "first_contact_points ex_sink = [ex_addr ''kafka'']" "shotover_nodes ex_sink = [ex_shotover 0 ''a'', ex_shotover 1 ''b'']"
  "rack ex_sink = ''a''" "broker_id ex_sink = 0" "nodes ex_sink = [ex_node 0 ''a'', ex_node 1 ''a'', ex_node 2 ''b'']"
  "nodes_shared ex_sink = [ex_node 0 ''a'', ex_node 1 ''a'', ex_node 2 ''b'']" "controller_broker ex_sink = 1"
  "group_to_coordinator_broker ex_sink = [''g'' \<mapsto> 1]" "transaction_to_coordinator_broker ex_sink = [''x'' \<mapsto> 2]"
  "topic_by_name ex_sink = [''t'' \<mapsto> [ex_partition 0 1 5, ex_partition 1 2 7]]"
  "topic_by_id ex_sink = [9 \<mapsto> [ex_partition 0 1 5, ex_partition 1 2 7]]" "rng ex_sink = 0" "id_counter ex_sink = 0"
  "auth_complete ex_sink = True" "auth_requests ex_sink = []" "pending_requests ex_sink = []" "sasl_mechanism ex_sink = None"
  "authorize_scram_over_mtls ex_sink = None" "sink_connections ex_sink = connections_new" "refetch_backoff ex_sink = from_millis 1"
  by (simp_all add: ex_sink_def)

lemma ex_records_sel [simp]:
  "pt_index (ex_partition i l e) = i" "pt_leader_epoch (ex_partition i l e) = e" "pt_leader_id (ex_partition i l e) = l"
  "kn_broker_id (ex_node b r) = b" "kn_rack (ex_node b r) = Some r" "kn_is_up (ex_node b r)" "kn_address (ex_node b r) = ex_addr ''kafka''"
  "sn_broker_id (ex_shotover b r) = b" "sn_rack (ex_shotover b r) = r" "sn_is_up (ex_shotover b r)"
  "sn_address_for_clients (ex_shotover b r) = ex_addr ''shotover''"
  by (simp_all add: ex_partition_def ex_node_def ex_shotover_def kafka_node_new_def kn_is_up_def sn_is_up_def)

definition ex_message :: "message_id \<Rightarrow> message_id option \<Rightarrow> kafka_frame \<Rightarrow> message" where
  "ex_message i r f = \<lparr>inner = Modified (FKafka f), received_at = None,
     codec = as_codec_state (FKafka f), id = i, request_id = r\<rparr>"

lemma frame_ex_message [simp]: "frame D (ex_message i r f) = (Some (FKafka f), ex_message i r f)"
  by (simp add: frame_cases ex_message_def)

lemma ids_ex_message [simp]: "id (ex_message i r f) = i" "request_id (ex_message i r f) = r"
  by (simp_all add: ex_message_def)

text \<open>A connection over which the requests 7 and 8 were sent.\<close>

definition ex_written :: "message list" where
  "ex_written = [ex_message 7 None (Request \<lparr>request_api_key = 0, request_api_version = 0, correlation_id = 7, rh_rest = 0\<rparr> (PlainRequest DescribeConfigs 0)),
     ex_message 8 None (Request \<lparr>request_api_key = 0, request_api_version = 0, correlation_id = 8, rh_rest = 0\<rparr> (PlainRequest DescribeConfigs 0))]"

definition ex_conn :: "message list list \<Rightarrow> outstanding \<Rightarrow> sink_connection" where
  "ex_conn arrived q = \<lparr>in_rx = arrived, in_disconnected = False, out_tx = ex_written, out_disconnected = False,
     closed_rx = None, conn_error = None, inserter = inserter_abs q\<rparr>"

definition ex_fresh :: sink_connection where
  "ex_fresh = (ex_conn [] [])\<lparr>out_tx := []\<rparr>"

lemma ex_conn_fresh: "inserter ex_fresh = inserter_new \<and> in_rx ex_fresh = []"
  by (simp add: ex_fresh_def ex_conn_def inserter_abs_def inserter_new_def)

definition ex_world :: world where
  "ex_world = \<lparr>wd_net = (\<lambda>_. Ok ex_fresh), wd_retry_net = (\<lambda>_ _. Ok ex_fresh),
     wd_await = (\<lambda>_ m. Some [ex_message 90 (Some (id m)) (Response 0 0 (OtherResponse 0))]), wd_prefetch = (\<lambda>_. Ok ()),
     wd_now = 0, wd_clock = (\<lambda>_. 0), wd_order = (\<lambda>ds. ds), wd_nid = (\<lambda>n. 2000 + n)\<rparr>"

lemma ex_world_ok [simp]: "world_ok ex_world"
  using ex_conn_fresh by (auto simp: world_ok_def ex_world_def net_ok_def)

text \<open>Two requests are with broker 1, the response to the first has arrived.\<close>

definition ex_pending :: "nat \<Rightarrow> pending_request" where
  "ex_pending n = \<lparr>pstate = Sent n None, pdestination = Id 1, pty = POther, pcombine = 1\<rparr>"

definition ex_response :: message where
  "ex_response = ex_message 70 (Some 7) (Response 0 7 (OtherResponse 0))"

definition ex_busy :: sink where
  "ex_busy = ex_sink\<lparr>pending_requests := [ex_pending 0, ex_pending 1],
     sink_connections := connections_new\<lparr>conns := [(Id 1, Regular (ex_conn [[ex_response]] [(7, False), (8, False)]))]\<rparr>\<rparr>"

definition ex_sent :: "destination \<Rightarrow> message_id list" where
  "ex_sent = (\<lambda>_. [])(Id 1 := [7, 8])"

lemma ex_busy_ok: "queue_ok ex_world [7, 8] ex_sent ex_busy"
proof -
  have "tracks [7, 8] ex_sent [ex_pending 0, ex_pending 1]"
    by (auto simp: tracks_def entry_ok_def ex_pending_def ex_sent_def sent_indices_Cons upt_rec simp del: mset_upt)
  moreover have "chans (sink_connections ex_busy) ex_sent"
    by (auto simp: chans_def ex_busy_def connections_new_def ex_sent_def kc_chan_def sink_chan_def ex_conn_def ex_response_def
        ex_written_def arrived_ok_def real_ids_def intro!: exI[of _ "[(7, False), (8, False)]"])
  moreover have "scram_conns_ok (config_of ex_world ex_busy) (sink_connections ex_busy)"
    by (auto simp: scram_conns_ok_def ex_busy_def connections_new_def)
  ultimately show ?thesis by (simp add: queue_ok_def conns_ok_def) (simp add: ex_busy_def)
qed

lemma ex_busy_settled: "all_settled ex_busy"
  by (auto simp: all_settled_def ex_busy_def connections_new_def settled_def)

text \<open>A produce request for three partitions, of which one is unknown.\<close>

definition ex_produce :: produce_request where
  "ex_produce = \<lparr>acks = 1, topic_data = [\<lparr>tname = ''t'', tparts = [\<lparr>pindex = 0, prest = 1\<rparr>, \<lparr>pindex = 1, prest = 2\<rparr>], trest = 0\<rparr>,
     \<lparr>tname = ''u'', tparts = [\<lparr>pindex = 0, prest = 3\<rparr>], trest = 0\<rparr>], produce_rest = 0\<rparr>"

text \<open>One call of \<^verbatim>\<open>recv_responses\<close> on this state, step by step.\<close>


lemma ex_try: "kc_try_recv_into nid [] (Regular (ex_conn [[ex_response]] [(7, False), (8, False)])) = (COk [ex_response], Regular (ex_conn [] [(8, False)]))"
  using process_responses_answer[of "[ex_response]" "[(7, False), (8, False)]" nid "[ex_response]" "[(8, False)]" "[]"]
  by (simp add: kc_try_recv_into_def try_recv_into_def ex_conn_def ex_response_def expects_def)

lemma ex_recv_all: "recv_all ex_world ex_busy = Ok (ex_sink\<lparr>pending_requests := [(ex_pending 0)\<lparr>pstate := Received ex_response None\<rparr>, ex_pending 0],
     sink_connections := connections_new\<lparr>conns := [(Id 1, Regular (ex_conn [] [(8, False)]))]\<rparr>\<rparr>)"
  by (simp add: recv_all_def recv_from_def ex_busy_def ex_world_def connections_new_def ex_try put_conn_def ex_pending_def)

lemma ex_drain: "drain_ready ex_env ex_world False (ex_sink\<lparr>pending_requests := [(ex_pending 0)\<lparr>pstate := Received ex_response None\<rparr>, ex_pending 0],
     sink_connections := c\<rparr>) = Ok ([ex_response], False, ex_sink\<lparr>pending_requests := [ex_pending 0], sink_connections := c\<rparr>)"
proof -
  let ?s = "ex_sink\<lparr>sink_connections := c, pending_requests := [ex_pending 0]\<rparr>"
  have "drain_ready ex_env ex_world False ?s = Ok ([], False, ?s)"
    by (subst drain_ready.simps) (simp add: ex_pending_def all_combined_received_def get_def is_received_def)
  then show ?thesis
    by (subst drain_ready.simps)
      (simp add: ex_pending_def all_combined_received_def get_def is_received_def must_refetch_def take_response_def received_response_def
        process_response_def ex_response_def process_body_def keep_def reset_backoff_def is_fetch_def set_frame_def ex_message_def frame_cases)
qed

lemma ex_send: "send_requests ex_env ex_world (ex_sink\<lparr>pending_requests := [ex_pending 0], sink_connections := c\<rparr>) = (Ok (), ex_sink\<lparr>pending_requests := [ex_pending 0], sink_connections := c\<rparr>)"
  by (simp add: send_requests_def ex_pending_def hash_iter_def ex_world_def)

lemma ex_world_await [simp]: "await_ok ex_world"
  by (simp add: await_ok_def ex_world_def)

text \<open>A session: a client sends one request, its response arrives, and the next call returns it.\<close>

definition ex_request :: message where
  "ex_request = ex_message 7 None (Request \<lparr>request_api_key = 32, request_api_version = 1, correlation_id = 7, rh_rest = 0\<rparr> (PlainRequest DescribeConfigs 0))"

definition ex_outgoing :: sink_connection where
  "ex_outgoing = ex_fresh\<lparr>inserter := inserter_abs [(7, False)], out_tx := [ex_request]\<rparr>"

definition ex_waiting :: sink where
  "ex_waiting = ex_sink\<lparr>rng := 1, pending_requests := [\<lparr>pstate = Sent 0 None, pdestination = Id 0, pty = POther, pcombine = 1\<rparr>],
     sink_connections := connections_new\<lparr>conns := [(Id 0, Regular ex_outgoing)]\<rparr>\<rparr>"

lemma ex_route: "route_requests 0 ex_env ex_world [ex_request] ex_sink =
    Some (Ok (ex_sink\<lparr>rng := 1, pending_requests := [routed_entry ex_request 0 POther 1]\<rparr>))"
  by (simp add: route_requests_def route_regular_def ex_request_def collect_request_def collect_body_def refresh_metadata_def abi_get_def i64_max_def
      route_request_def route_body_def route_plain_def route_to_random_broker_def push_routed_def sink_random_broker_def
      random_broker_id_def pick_def get_def push_back_def)

lemma ex_kc_send: "kc_send ex_dec [ex_request] (Regular ex_fresh) = (COk (), Regular ex_outgoing)"
  by (simp add: kc_send_def conn_send_def ex_outgoing_def ex_fresh_def ex_conn_def process_requests_def response_is_dummy_def
      message_type_def ex_request_def inserter_abs_def) (simp add: ex_message_def frame_cases)

lemma ex_open: "get_or_open_connection ex_env (config_of ex_world s) [ex_node 0 ''a'', ex_node 1 ''a'', ex_node 2 ''b''] (Id 0) connections_new g =
    (Ok (), connections_new\<lparr>conns := [(Id 0, kc)]\<rparr>, g)" if "authorize_scram_over_mtls s = None" "rack s = ''a''" "kc = Regular ex_fresh"
  using that by (simp add: get_or_open_connection_def config_of_def ex_world_def find_node_def count_out_of_rack_def get_connection_state_def
      connections_new_def create_and_insert_connection_def choose_address_def kafka_connection_new_def)

lemma ex_sending: "send_requests ex_env ex_world (ex_sink\<lparr>rng := 1, pending_requests := [routed_entry ex_request 0 POther 1]\<rparr>) = (Ok (), ex_waiting)"
proof -
  have m: "mark_sent [] [routed_entry ex_request 0 POther 1] [] =
      ([\<lparr>pstate = Sent 0 None, pdestination = Id 0, pty = POther, pcombine = 1\<rparr>], [(Id 0, \<lparr>rr_requests = [ex_request], rr_already_pending = 0\<rparr>)])"
    by (simp add: routed_entry_def routed_for_def sent_to_def is_fetch_def)
  show ?thesis unfolding send_requests_def
    by (simp add: m hash_iter_def send_to_def ex_open ex_kc_send Let_def del: One_nat_def mark_sent.simps)
      (simp add: ex_world_def ex_waiting_def put_conn_def send_to_def ex_open[unfolded ex_world_def] ex_kc_send Let_def)
qed

lemma ex_outgoing_recv: "kc_try_recv_into nid [] (Regular ex_outgoing) = (COk [], Regular ex_outgoing)"
  using process_responses_answer[of "[]" "[(7, False)]" nid "[]" "[(7, False)]" "[]"]
  by (simp add: kc_try_recv_into_def try_recv_into_def ex_outgoing_def ex_fresh_def ex_conn_def expects_def)

lemma ex_call: "kafka_transform 0 ex_env ex_world [ex_request] False ex_sink = Some (Ok ([], False, ex_waiting))"
proof -
  have "recv_all ex_world ex_waiting = Ok ex_waiting"
    by (simp add: recv_all_def recv_from_def ex_waiting_def ex_world_def connections_new_def ex_outgoing_recv put_conn_def)
  moreover have "drain_ready ex_env ex_world False ex_waiting = Ok ([], False, ex_waiting)"
    by (subst drain_ready.simps) (simp add: ex_waiting_def all_combined_received_def get_def is_received_def)
  moreover have "send_requests ex_env ex_world ex_waiting = (Ok (), ex_waiting)"
    by (simp add: send_requests_def hash_iter_def ex_waiting_def) (simp add: ex_world_def)
  ultimately have "recv_responses ex_env ex_world False ex_waiting = Ok ([], False, ex_waiting)" by (simp add: recv_responses_def)
  moreover have "update_local_nodes ex_sink = ex_sink" by (simp add: update_local_nodes_def ex_sink_def)
  ultimately show ?thesis by (simp add: kafka_transform_def ex_route ex_sending del: One_nat_def)
qed

definition ex_answered :: sink where
  "ex_answered = put_conn (Id 0) (Regular (arrive [[ex_response]] None ex_outgoing)) ex_waiting"

lemma ex_answers: "answers_in_order ex_outgoing [[ex_response]]"
  by (auto simp: answers_in_order_def outstanding_ids_def conn_pending_requests_count_def ex_outgoing_def ex_fresh_def ex_conn_def inserter_abs_def
      ex_request_def ex_response_def arrived_ok_def real_ids_def)

lemma ex_answered_recv: "kc_try_recv_into nid [] (Regular (arrive [[ex_response]] None ex_outgoing)) =
    (COk [ex_response], Regular (ex_fresh\<lparr>out_tx := [ex_request]\<rparr>))"
  using process_responses_answer[of "[ex_response]" "[(7, False)]" nid "[ex_response]" "[]" "[]"]
  by (simp add: kc_try_recv_into_def try_recv_into_def arrive_def ex_outgoing_def ex_fresh_def ex_conn_def ex_response_def expects_def)

lemma ex_return: "\<exists>s'. kafka_transform 0 ex_env ex_world [] False ex_answered = Some (Ok ([ex_response], False, s')) \<and> pending_requests s' = []"
proof -
  let ?cs = "connections_new\<lparr>conns := [(Id 0, Regular (ex_fresh\<lparr>out_tx := [ex_request]\<rparr>))]\<rparr>"
  let ?p = "\<lparr>pstate = Received ex_response None, pdestination = Id 0, pty = POther, pcombine = 1\<rparr>"
  have "recv_all ex_world ex_answered = Ok (ex_sink\<lparr>rng := 1, pending_requests := [?p], sink_connections := ?cs\<rparr>)"
    by (simp add: recv_all_def recv_from_def ex_answered_def ex_waiting_def ex_world_def connections_new_def ex_answered_recv put_conn_def)
  moreover have "drain_ready ex_env ex_world False (ex_sink\<lparr>rng := 1, sink_connections := ?cs, pending_requests := []\<rparr>) =
      Ok ([], False, ex_sink\<lparr>rng := 1, sink_connections := ?cs, pending_requests := []\<rparr>)"
    by (subst drain_ready.simps) simp
  then have "drain_ready ex_env ex_world False (ex_sink\<lparr>rng := 1, pending_requests := [?p], sink_connections := ?cs\<rparr>) =
      Ok ([ex_response], False, ex_sink\<lparr>rng := 1, pending_requests := [], sink_connections := ?cs\<rparr>)"
    by (subst drain_ready.simps)
      (simp add: all_combined_received_def get_def is_received_def must_refetch_def take_response_def received_response_def
        process_response_def ex_response_def process_body_def keep_def reset_backoff_def is_fetch_def set_frame_def ex_message_def frame_cases)
  moreover have "send_requests ex_env ex_world (ex_sink\<lparr>rng := 1, pending_requests := [], sink_connections := ?cs\<rparr>) =
      (Ok (), ex_sink\<lparr>rng := 1, pending_requests := [], sink_connections := ?cs\<rparr>)"
    by (simp add: send_requests_def hash_iter_def) (simp add: ex_world_def)
  ultimately show ?thesis by (simp add: kafka_transform_def recv_responses_def)
qed

lemma ex_recv: "\<exists>s'. recv_responses ex_env ex_world False ex_busy = Ok ([ex_response], False, s') \<and> pending_requests s' = [ex_pending 0]"
  by (simp add: recv_responses_def ex_recv_all ex_drain ex_send)

end
