(* ===== verification/Kafka_Theorems.thy ===== *)
theory Kafka_Theorems
  imports Kafka_Instances
begin

text \<open>
  The properties of the Kafka cluster sink, each with a concrete instance of its hypotheses.
\<close>

subsection \<open>Requests and responses\<close>

text \<open>
  C7: receiving returns responses in the order of the client's requests.  The requests in the
  queue before the call are, in order, those whose responses are returned followed by those
  that stay in the queue; whatever brokers the requests were routed to, in whatever order the
  connections are polled, nothing is lost, answered twice or overtaken.
\<close>

theorem responses_in_request_order:
  assumes "world_ok W" and "queue_ok W ids w s" and "all_settled s"
    and "recv_responses E W close s = Ok (rs, close', s')"
  shows "\<exists>ids' w'. queue_ok W ids' w' s' \<and>
    map Some (group_heads ids (pending_requests s)) = map request_id rs @ map Some (group_heads ids' (pending_requests s'))"
  using recv_responses_in_order[OF assms] by blast

theorem responses_in_request_order_witness:
  "\<exists>rs s' ids' w'. recv_responses ex_env ex_world False ex_busy = Ok (rs, False, s') \<and> map request_id rs = [Some 7] \<and>
     queue_ok ex_world ids' w' s' \<and> group_heads ids' (pending_requests s') = [8]"
proof -
  obtain s' where s': "recv_responses ex_env ex_world False ex_busy = Ok ([ex_response], False, s')"
    using ex_recv by blast
  from responses_in_request_order[OF ex_world_ok ex_busy_ok ex_busy_settled s'] obtain ids' w' where
    "queue_ok ex_world ids' w' s'" and
    m: "map Some (group_heads [7, 8] (pending_requests ex_busy)) = map request_id [ex_response] @ map Some (group_heads ids' (pending_requests s'))"
    by blast
  moreover have "map Some (group_heads ids' (pending_requests s')) = map Some [8]"
    using m by (simp add: ex_busy_def ex_pending_def ex_response_def)
  then have "group_heads ids' (pending_requests s') = [8]" by (simp only: inj_map_eq_map[OF inj_Some])
  ultimately show ?thesis using s' by (auto simp: ex_response_def)
qed

text \<open>
  C8: the index counters of the sent entries implement one first-in first-out queue for each
  broker: when the next responses of a broker arrive, each is stored with the request it
  answers, no entry of another broker changes, and the \<^verbatim>\<open>unwrap\<close> of the loop never fails.
\<close>

theorem deliver_implements_fifo:
  assumes "tracks ids w ps" and "length rs \<le> length (w d)" and "map request_id rs = map Some (take (length rs) (w d))"
  shows "\<exists>ps'. fold_result (\<lambda>r. deliver d (Some r)) rs ps = Ok ps' \<and> shape ps' = shape ps \<and>
    tracks ids (w(d := drop (length rs) (w d))) ps'"
  using assms by (rule deliver_all_tracks)

theorem deliver_implements_fifo_witness:
  "\<exists>ps'. fold_result (\<lambda>r. deliver (Id 1) (Some r)) [ex_response] [ex_pending 0, ex_pending 1] = Ok ps' \<and>
     tracks [7, 8] (ex_sent(Id 1 := [8])) ps'"
proof -
  have "tracks [7, 8] ex_sent [ex_pending 0, ex_pending 1]" using ex_busy_ok by (simp add: queue_ok_def ex_busy_def)
  from deliver_implements_fifo[OF this, of "[ex_response]" "Id 1"] show ?thesis
    by (auto simp: ex_sent_def ex_response_def fun_upd_def)
qed



text \<open>
  C17: opening, replacing or reusing a connection never loses an outstanding request: the
  requests outstanding at every destination are the same before and after.
\<close>

theorem connections_keep_outstanding:
  assumes "net_ok (cc_net C)" and "chans cs w" and "scram_conns_ok C cs"
    and "get_or_open_connection E C ns d cs g = (Ok (), cs', g')"
  shows "chans cs' w \<and> map_of (conns cs') d \<noteq> None"
  using assms by (rule get_or_open_connection_chans)

theorem connections_keep_outstanding_witness:
  "\<exists>cs' g'. get_or_open_connection ex_env (config_of ex_world ex_busy) (nodes ex_busy) (Id 2) (sink_connections ex_busy) 0 = (Ok (), cs', g') \<and>
     chans cs' ex_sent"
proof -
  have a: "\<exists>cs' g'. get_or_open_connection ex_env (config_of ex_world ex_busy) (nodes ex_busy) (Id 2) (sink_connections ex_busy) 0 = (Ok (), cs', g')"
    by (simp add: get_or_open_connection_def config_of_def ex_world_def ex_busy_def ex_sink_def ex_node_def kafka_node_new_def
        find_node_def count_out_of_rack_def get_connection_state_def connections_new_def create_and_insert_connection_def
        choose_address_def kafka_connection_new_def)
  have "net_ok (cc_net (config_of ex_world ex_busy))" using ex_world_ok by (simp add: world_ok_def config_of_def)
  moreover have "chans (sink_connections ex_busy) ex_sent" "scram_conns_ok (config_of ex_world ex_busy) (sink_connections ex_busy)"
    using ex_busy_ok by (auto simp: queue_ok_def conns_ok_def)
  ultimately show ?thesis using connections_keep_outstanding a by blast
qed


definition ex_scram :: scram_connection where
  "ex_scram = \<lparr>sc_connection = (ex_conn [] [])\<lparr>conn_error := Some OtherSideClosed\<rparr>,
     sc_old_connection = Some (ex_conn [[ex_response]] [(7, False)]), sc_created_at = 0, sc_timeout = 10\<rparr>"


subsection \<open>Metadata\<close>

text \<open>
  C18: the metadata a client sees names only shotover nodes that are up.  Rewriting never fails
  while one shotover node is up; the brokers are exactly the up shotover nodes, every leader
  and the controller are the shotover node that stands for the broker (in its rack when that
  rack has one) or -1, and topics, partitions, epochs and error codes are left alone.
\<close>

theorem metadata_shows_shotover_cluster:
  assumes "order_ok E" and "up_shotover_nodes s \<noteq> []"
  shows "\<exists>md'. rewrite_metadata_response E s md = Ok md' \<and>
     md_brokers md' = map shotover_broker (up_shotover_nodes s) \<and>
     leader_ok s (md_controller_id md) (md_controller_id md') \<and>
     list_all2 (topic_hidden s) (md_topics md) (md_topics md') \<and> md_rest md' = md_rest md"
  using assms by (rule rewrite_metadata_hides)

definition ex_mp :: "int \<Rightarrow> int \<Rightarrow> int \<Rightarrow> metadata_partition" where
  "ex_mp i leader epoch = \<lparr>mp_partition_index = i, mp_error_code = 0, mp_leader_id = leader, mp_leader_epoch = epoch,
     mp_replica_nodes = [leader, 2], mp_isr_nodes = [leader], mp_offline_replicas = []\<rparr>"

definition ex_mt :: metadata_topic where
  "ex_mt = \<lparr>mt_error_code = 0, mt_name = Some ''t'', mt_topic_id = 9, mt_partitions = [ex_mp 1 0 6, ex_mp 0 0 9], mt_rest = 0\<rparr>"

definition ex_md :: metadata_response where
  "ex_md = \<lparr>md_brokers = [], md_controller_id = 2, md_topics = [ex_mt], md_rest = 3\<rparr>"

lemma ex_md_sel [simp]:
  "mp_partition_index (ex_mp i l e) = i" "mp_leader_id (ex_mp i l e) = l" "mp_leader_epoch (ex_mp i l e) = e"
  "mt_error_code ex_mt = 0" "mt_name ex_mt = Some ''t''" "mt_topic_id ex_mt = 9" "mt_partitions ex_mt = [ex_mp 1 0 6, ex_mp 0 0 9]"
  "md_controller_id ex_md = 2" "md_topics ex_md = [ex_mt]" "md_rest ex_md = 3"
  by (simp_all add: ex_mp_def ex_mt_def ex_md_def)

lemma ex_sink_up: "up_shotover_nodes ex_sink = [ex_shotover 0 ''a'', ex_shotover 1 ''b'']"
  by (simp add: up_shotover_nodes_def)

theorem metadata_shows_shotover_cluster_witness:
  "\<exists>md'. rewrite_metadata_response ex_env ex_sink ex_md = Ok md' \<and>
     md_brokers md' = map shotover_broker [ex_shotover 0 ''a'', ex_shotover 1 ''b''] \<and>
     leader_ok ex_sink 2 (md_controller_id md')"
  using metadata_shows_shotover_cluster[OF ex_env_ok(2), of ex_sink ex_md] ex_sink_up by auto

text \<open>
  Shotover nodes that agree on which shotover nodes are up and on the racks of the brokers
  give the same metadata to their clients, whatever else they have learned.
\<close>

theorem metadata_is_deterministic:
  assumes "same_view s s'"
  shows "rewrite_metadata_response E s md = rewrite_metadata_response E s' md"
  using assms by (rule rewrite_metadata_same)

theorem metadata_is_deterministic_witness:
  "rewrite_metadata_response ex_env ex_sink ex_md = rewrite_metadata_response ex_env ex_busy ex_md"
  by (rule metadata_is_deterministic) (simp add: same_view_def ex_busy_def up_shotover_nodes_def find_broker_def)

text \<open>
  C19: after a metadata response the stored leader of every partition of the topic is found at
  the index of the partition, in whatever order the response listed the partitions.  It is
  the leader of the response, unless a more recent epoch is known, in which case the known
  leader is kept.
\<close>

theorem metadata_stores_newest_leader:
  assumes "gapless t" and "topics_ok s" and "mt_name t = Some n" and "try_from_code E (mt_error_code t) = None"
    and "p \<in> set (mt_partitions t)"
  shows "\<exists>tm q. topic_by_name (process_metadata_topic E t s) n = Some tm \<and> get_i32 tm (mp_partition_index p) = Some q \<and>
    pt_index q = mp_partition_index p \<and>
    pt_leader_id q = (case Option.bind (topic_by_name s n) (\<lambda>old. get_i32 old (mp_partition_index p)) of
       Some old \<Rightarrow> (if pt_leader_epoch old > mp_leader_epoch p then pt_leader_id old else mp_leader_id p)
     | None \<Rightarrow> mp_leader_id p)"
proof -
  have k: "topic_ok (known_partitions s t)"
    using assms(2,3) by (auto simp: known_partitions_def topics_ok_def topic_ok_def ranI split: option.splits)
  have "topic_by_name (process_metadata_topic E t s) n = Some (new_partitions s t)"
    using assms(3,4) by (simp add: process_metadata_topic_def Let_def)
  then show ?thesis using new_partitions_at[OF assms(1) k assms(5)] assms(3)
    by (auto simp: known_partitions_def new_partition_def merge_old_def get_i32_def get_def split: option.splits)
qed

lemma ex_mt_gapless: "gapless ex_mt"
  by (simp add: gapless_def upt_rec add_mset_commute del: mset_upt)

lemma ex_sink_topics: "topics_ok ex_sink"
  by (simp add: topics_ok_def topic_ok_def upt_rec)

theorem metadata_stores_newest_leader_witness:
  "\<exists>tm q. topic_by_name (process_metadata_topic ex_env ex_mt ex_sink) ''t'' = Some tm \<and> get_i32 tm 1 = Some q \<and> pt_leader_id q = 2"
  using metadata_stores_newest_leader[OF ex_mt_gapless ex_sink_topics, of "''t''" ex_env "ex_mp 1 0 6"]
  by (auto simp: ex_code_def get_i32_def[of "[ex_partition 0 1 5, ex_partition 1 2 7]"] get_def[of "[ex_partition 0 1 5, ex_partition 1 2 7]"])

text \<open>
  C27: a stale metadata response that arrives twice overwrites a newer leader.  The first time
  the newer leader is kept but its epoch is replaced by the stale one, so that the second
  time the stale leader is stored.
\<close>

theorem stale_metadata_twice_reverts_leader:
  assumes "gapless t" and "topics_ok s" and "mt_name t = Some n" and "try_from_code E (mt_error_code t) = None"
    and "p \<in> set (mt_partitions t)"
  shows "\<exists>tm q. topic_by_name (process_metadata_topic E t (process_metadata_topic E t s)) n = Some tm \<and>
    get_i32 tm (mp_partition_index p) = Some q \<and> pt_leader_id q = mp_leader_id p"
proof -
  let ?s = "process_metadata_topic E t s"
  have ok: "topics_ok ?s" by (rule process_metadata_topic_ok[OF assms(2,1)])
  have st: "topic_by_name (process_metadata_topic E t x) n = Some (new_partitions x t)" for x
    using assms(3,4) by (simp add: process_metadata_topic_def Let_def)
  have k: "topic_ok (known_partitions x t)" if "topics_ok x" for x
    using that assms(3) by (auto simp: known_partitions_def topics_ok_def topic_ok_def ranI split: option.splits)
  have known: "known_partitions ?s t = new_partitions s t" using assms(3) st[of s] by (simp add: known_partitions_def)
  have "get_i32 (new_partitions s t) (mp_partition_index p) = Some (merge_old (get_i32 (known_partitions s t) (mp_partition_index p)) (new_partition s p))"
    by (rule new_partitions_at[OF assms(1) k[OF assms(2)] assms(5)])
  moreover have "get_i32 (new_partitions ?s t) (mp_partition_index p) = Some (merge_old (get_i32 (new_partitions s t) (mp_partition_index p)) (new_partition ?s p))"
    using new_partitions_at[OF assms(1) k[OF ok] assms(5)] unfolding known .
  ultimately have "get_i32 (new_partitions ?s t) (mp_partition_index p) =
      Some (merge_old (Some (merge_old (get_i32 (known_partitions s t) (mp_partition_index p)) (new_partition s p))) (new_partition ?s p))" by simp
  moreover have "pt_leader_id (merge_old (Some (merge_old old (new_partition s p))) (new_partition ?s p)) = mp_leader_id p" for old
    by (simp add: merge_old_def new_partition_def split: option.split)
  ultimately show ?thesis using st[of ?s] by auto
qed

theorem stale_metadata_twice_reverts_leader_witness:
  "\<exists>tm q. topic_by_name (process_metadata_topic ex_env ex_mt (process_metadata_topic ex_env ex_mt ex_sink)) ''t'' = Some tm \<and>
     get_i32 tm 1 = Some q \<and> pt_leader_id q = 0"
  using stale_metadata_twice_reverts_leader[OF ex_mt_gapless ex_sink_topics, of "''t''" ex_env "ex_mp 1 0 6"]
  by (auto simp: ex_code_def)

text \<open>
  A coordinator is shown as an up shotover node, in the rack of the coordinator when that
  rack has one, provided the coordinating broker is known.
\<close>

theorem coordinators_show_shotover_nodes:
  assumes "up_shotover_nodes s \<noteq> []" and "version > 3"
    and "\<And>c. c \<in> set (fcr_coordinators fc) \<Longrightarrow> co_error_code c = 0 \<Longrightarrow> find_broker s (co_node_id c) \<noteq> None"
  shows "\<exists>fc'. rewrite_find_coordinator_response E version key s fc = Ok fc' \<and>
    list_all2 (coordinator_hidden s) (fcr_coordinators fc) (fcr_coordinators fc')"
  using rewrite_coordinators_ok[OF assms(1), of "fcr_coordinators fc" E] assms(2,3)
  by (auto simp: rewrite_find_coordinator_response_def)

definition ex_fc :: "int \<Rightarrow> find_coordinator_response" where
  "ex_fc b = \<lparr>fcr_error_code = 0, fcr_node_id = b, fcr_host = ''kafka'', fcr_port = 1, fcr_coordinators =
     [\<lparr>co_key = ''g'', co_error_code = 0, co_node_id = b, co_host = ''kafka'', co_port = 1, co_rest = 0\<rparr>], fcr_rest = 0\<rparr>"

theorem coordinators_show_shotover_nodes_witness:
  "\<exists>fc'. rewrite_find_coordinator_response ex_env 4 ''g'' ex_sink (ex_fc 2) = Ok fc' \<and>
    list_all2 (coordinator_hidden ex_sink) (fcr_coordinators (ex_fc 2)) (fcr_coordinators fc')"
  by (rule coordinators_show_shotover_nodes) (auto simp: ex_sink_up ex_fc_def find_broker_def)

text \<open>
  A coordinator on a broker that is not yet known makes the sink panic instead of returning
  an error or refreshing its list of brokers.
\<close>

theorem unknown_coordinator_panics:
  assumes "version \<le> 3" and "fcr_error_code fc = 0" and "find_broker s (fcr_node_id fc) = None" and "ty = PFindCoordinator key kt"
  shows "process_body E version (FindCoordinatorR fc) ty close s = Inl (Panic ''called Option::unwrap() on a None value'')"
  using assms
  by (simp add: process_body_def rewrite_find_coordinator_response_def rewrite_coordinator_unknown
      process_find_coordinator_response_def find_broker_def)

theorem unknown_coordinator_panics_witness:
  "process_body ex_env 3 (FindCoordinatorR (ex_fc 8)) (PFindCoordinator ''g'' 0) False ex_sink =
     Inl (Panic ''called Option::unwrap() on a None value'')"
  by (rule unknown_coordinator_panics) (simp_all add: ex_fc_def find_broker_def)

subsection \<open>Responses\<close>

text \<open>
  C22: the versions advertised to the client are exactly those that both the broker advertised
  and shotover supports.
\<close>

theorem advertised_versions_intersect:
  "advertises (rewrite_api_versions E es) k v \<longleftrightarrow> advertises es k v \<and> supports E k v"
  by (rule advertises_rewritten)

text \<open>
  processing a response never changes which request it answers, nor the queue of pending
  requests, the connections or the counters of the sink.
\<close>

theorem processing_keeps_identity:
  assumes "process_response E r ty close s = Ok (r', close', s')"
  shows "id r' = id r \<and> request_id r' = request_id r \<and> pending_requests s' = pending_requests s \<and>
    sink_connections s' = sink_connections s \<and> id_counter s' = id_counter s \<and> shotover_nodes s' = shotover_nodes s"
  using process_response_ids[OF assms] process_response_core[OF assms] by (simp add: same_core_def)

definition ex_topics_res :: "partition_res topics_response" where
  "ex_topics_res = \<lparr>stopics = [\<lparr>tname = ''t'', tparts = [\<lparr>pr_index = 0, pr_error_code = 6, pr_rest = 0\<rparr>], trest = 0\<rparr>], stopics_rest = 0\<rparr>"

theorem processing_keeps_identity_witness:
  "\<exists>r' s'. process_response ex_env (ex_message 70 (Some 7) (Response 0 7 (ListOffsetsR ex_topics_res))) POther False ex_sink = Ok (r', False, s') \<and>
     topic_by_name s' ''t'' = None \<and> request_id r' = Some 7 \<and> sink_connections s' = connections_new"
proof -
  let ?r = "ex_message 70 (Some 7) (Response 0 7 (ListOffsetsR ex_topics_res))"
  have "\<exists>r' s'. process_response ex_env ?r POther False ex_sink = Ok (r', False, s') \<and> topic_by_name s' ''t'' = None"
    by (simp add: process_response_def process_body_def keep_def ex_topics_res_def clear_stale_topics_def is_error_def ex_code_def remove_topic_def)
  then obtain r' s' where r: "process_response ex_env ?r POther False ex_sink = Ok (r', False, s')" "topic_by_name s' ''t'' = None" by blast
  from processing_keeps_identity[OF r(1)] r show ?thesis by auto
qed

text \<open>
  C23: a leader named by a produce response replaces the stored one only when its epoch is
  more recent, so that the stored epoch never decreases.
\<close>

theorem produce_leader_epoch_increases:
  assumes "topic_by_name s name = Some tm" and "get_i32 tm (ppr_index p) = Some q"
  shows "\<exists>tm' q'. topic_by_name (store_leader name p s) name = Some tm' \<and> get_i32 tm' (ppr_index p) = Some q' \<and>
     pt_leader_epoch q' = max (pt_leader_epoch q) (cl_leader_epoch (ppr_current_leader p)) \<and>
     pt_leader_id q' = (if cl_leader_epoch (ppr_current_leader p) > pt_leader_epoch q
                        then cl_leader_id (ppr_current_leader p) else pt_leader_id q)"
  using assms by (rule store_leader_effect)

definition ex_ppr :: produce_partition_res where
  "ex_ppr = \<lparr>ppr_index = 1, ppr_error_code = 6, ppr_current_leader = \<lparr>cl_leader_id = 0, cl_leader_epoch = 8\<rparr>, ppr_rest = 0\<rparr>"

theorem produce_leader_epoch_increases_witness:
  "\<exists>tm' q'. topic_by_name (store_leader ''t'' ex_ppr ex_sink) ''t'' = Some tm' \<and> get_i32 tm' 1 = Some q' \<and>
     pt_leader_epoch q' = 8 \<and> pt_leader_id q' = 0"
proof -
  have "get_i32 [ex_partition 0 1 5, ex_partition 1 2 7] (ppr_index ex_ppr) = Some (ex_partition 1 2 7)"
    by (simp add: get_i32_def get_def ex_ppr_def)
  from produce_leader_epoch_increases[OF _ this, of ex_sink "''t''"] show ?thesis by (auto simp: ex_ppr_def)
qed

text \<open>
  The client is authenticated over SCRAM exactly when both server messages came back
  without an error; any further response is refused.
\<close>

theorem scram_success_needs_both_messages:
  "fold_result (\<lambda>code st. scram_next st code) codes WaitingOnServerFirst = Ok AuthSuccess \<longleftrightarrow> codes = [0, 0]"
proof -
  consider "codes = []" | a where "codes = [a]" | a b where "codes = [a, b]" | a b c cs where "codes = a # b # c # cs"
    by (metis list.exhaust)
  then show ?thesis by cases (auto simp: scram_next_def bind_result_def split: sum.splits)
qed


definition ex_fpr :: "int \<Rightarrow> fetch_partition_res" where
  "ex_fpr code = \<lparr>fpr_partition_index = 0, fpr_error_code = code, fpr_current_leader = \<lparr>cl_leader_id = 2, cl_leader_epoch = 1\<rparr>,
     fpr_preferred_read_replica = 1, fpr_records = None, fpr_rest = 0\<rparr>"


subsection \<open>Splitting and combining\<close>

text \<open>
  Splitting a produce request loses and invents nothing: the partitions of the sub-requests
  together are the partitions of the request, and each goes to the leader of its partition
  (-1, which is replaced by a random broker, when the leader is unknown).
\<close>

theorem produce_split_is_partition:
  assumes "order_ok E" and "distinct (map tname (topic_data r))" and "split_by_destination produce_router s r = Ok (r', m)"
  shows "distinct (map fst m) \<and>
    mset (sub_atoms produce_router (\<lambda>r. topic_atoms tname tparts (topic_data r)) E r'' m) =
      mset (map (\<lambda>a. (topics_dest pindex s a, a)) (topic_atoms tname tparts (topic_data r)))"
  using produce.split_distinct[OF assms(3,2)] produce.split_atoms[OF assms(1-3)] by blast

theorem produce_split_is_partition_witness:
  "\<exists>r' m. split_by_destination produce_router ex_sink ex_produce = Ok (r', m) \<and> distinct (map fst m)"
  using produce_split_is_partition[OF ex_env_ok(2), of ex_produce ex_sink] produce.split_total[of ex_sink ex_produce]
  by (fastforce simp: ex_produce_def)



text \<open>
  C21: combining the fetch responses of several brokers loses and invents no partition, and
  never fails when every response is a fetch response.
\<close>

theorem combined_fetch_has_all_partitions:
  assumes "answers_with D (\<lambda>b. case b of FetchR r \<Rightarrow> Some r | _ \<Rightarrow> None) drain bs"
  shows "\<exists>r. combine_fetch_responses D base drain = Ok r \<and>
    mset (topic_atoms fkey fparts (fres_responses r)) = mset (topic_atoms fkey fparts (concat (map fres_responses (base # bs))))"
  using combine_fetch_atoms[OF assms] by blast

definition ex_fres :: "string \<Rightarrow> fetch_response" where
  "ex_fres n = \<lparr>fres_responses = [\<lparr>ftopic = n, ftopic_id = 0, fparts = [ex_fpr 0], frest = 0\<rparr>], fres_node_endpoints = [], fres_rest = 0\<rparr>"

theorem combined_fetch_has_all_partitions_witness:
  "\<exists>r. combine_fetch_responses ex_dec (ex_fres ''t'')
      [\<lparr>rc_response = ex_message 71 (Some 8) (Response 0 1 (FetchR (ex_fres ''u''))), rc_destination = Id 2\<rparr>] = Ok r \<and>
    mset (topic_atoms fkey fparts (fres_responses r)) = {# ((''t'', 0), ex_fpr 0), ((''u'', 0), ex_fpr 0) #}"
proof -
  have "answers_with ex_dec (\<lambda>b. case b of FetchR r \<Rightarrow> Some r | _ \<Rightarrow> None)
      [\<lparr>rc_response = ex_message 71 (Some 8) (Response 0 1 (FetchR (ex_fres ''u''))), rc_destination = Id 2\<rparr>] [ex_fres ''u'']"
    by (simp add: response_body_of_def)
  from combined_fetch_has_all_partitions[OF this, of "ex_fres ''t''"] show ?thesis
    by (simp add: ex_fres_def fkey_def add_mset_commute)
qed

subsection \<open>Nodes\<close>

text \<open>C24: printing an address and reading it back gives the address, for every host without a colon.\<close>

theorem address_round_trip:
  assumes "CHR '':'' \<notin> set (host a)" and "in_i32 (port a)"
  shows "address_from_str (address_display a) = Ok a"
  using split_on_absent[OF assms(1), of "show_int (port a)"] split_on_single[OF show_int_no_colon, of "port a"] parse_show_int[OF assms(2)]
  by (simp add: address_from_str_def address_display_def)

theorem address_round_trip_witness: "address_from_str (address_display (ex_addr ''kafka'')) = Ok (ex_addr ''kafka'')"
  by (rule address_round_trip) (simp_all add: ex_addr_def in_i32_def)

text \<open>
  a random broker is an up broker of the rack of this shotover node if there is one,
  otherwise an up broker, otherwise any broker; the choice never fails on a known cluster.
\<close>

theorem random_broker_is_preferred:
  assumes "choose_ok E" and "ns \<noteq> []"
  shows "\<exists>n \<in> set (preferred_brokers ns r). fst (random_broker_id E g ns r) = Ok (kn_broker_id n)"
  using assms by (rule random_broker_id_preferred)

theorem random_broker_is_preferred_witness:
  "\<exists>n \<in> set (preferred_brokers (nodes ex_sink) ''b''). fst (random_broker_id ex_env 5 (nodes ex_sink) ''b'') = Ok (kn_broker_id n)"
  by (rule random_broker_is_preferred) simp_all

end
