(* ===== verification/Kafka_Session_Theorems.thy ===== *)
theory Kafka_Session_Theorems
  imports Kafka_Instances
begin

text \<open>
  The properties of the Kafka cluster sink that span routing, sending, receiving and the
  connections, each with a concrete instance of its hypotheses.
\<close>

text \<open>
  C1: over a whole session, whatever the client sends, however its requests are routed and split,
  whenever responses arrive and whatever the other sinks change in the shared metadata, the
  responses the client has got answer its requests one by one in the order it sent them: no request
  is answered twice, out of order or with the response to another, and when the queue is empty
  every request has been answered.  The sink is not configured for SCRAM over mTLS, the brokers
  answer each connection in order, and the client waits for the handshake before it sends other
  requests.
\<close>

theorem session_answers_in_order:
  assumes "authorize_scram_over_mtls s0 = None" and "pending_requests s0 = []" and "conns (sink_connections s0) = []"
    and "session E s0 reqs resps s"
  shows "\<exists>unanswered. map Some reqs = map request_id resps @ map Some unanswered \<and> (pending_requests s = [] \<longrightarrow> unanswered = [])"
  using session_prefix[OF session_invariant[OF assms(4) session_ok_start[OF assms(1-3)]]] .

theorem session_answers_in_order_witness:
  "\<exists>s. session ex_env ex_sink [7] [ex_response] s \<and> pending_requests s = [] \<and> map request_id [ex_response] = [Some 7]"
proof -
  have may: "may_send ex_env [ex_request] ex_sink" "may_send ex_env [] ex_answered"
    by (simp_all add: may_send_def control_idle_def ex_answered_def put_conn_def ex_waiting_def)
  from session.call[OF session.start ex_world_ok ex_world_await may(1) ex_call]
  have 1: "session ex_env ex_sink [7] [] ex_waiting" by (simp add: ex_request_def)
  have "map_of (conns (sink_connections ex_waiting)) (Id 0) = Some (Regular ex_outgoing)" by (simp add: ex_waiting_def)
  from session.arrival[OF 1 this ex_answers, of None] have 2: "session ex_env ex_sink [7] [] ex_answered" by (simp add: ex_answered_def)
  obtain s where s: "kafka_transform 0 ex_env ex_world [] False ex_answered = Some (Ok ([ex_response], False, s))" "pending_requests s = []"
    using ex_return by blast
  from session.call[OF 2 ex_world_ok ex_world_await may(2) s(1)] have 3: "session ex_env ex_sink [7] [ex_response] s" by simp
  have "conns (sink_connections ex_sink) = []" by (simp add: connections_new_def)
  from session_answers_in_order[OF _ _ this 3] s(2) 3 show ?thesis by auto
qed



text \<open>
  C3: routing a produce request puts one group of requests into the queue that together carry
  every partition of the client's request exactly once, each partition with the request that
  goes to the leader of the partition, if the leader is known.
\<close>

theorem routed_produce_carries_everything:
  assumes "order_ok E" and "distinct (map tname (topic_data r))" and "frame (env_dec E) request = (Some (FKafka (Request h (Produce r))), m)"
    and "split_and_route_request E produce_router request s = Ok s'"
  shows "\<exists>g. pending_requests s' = pending_requests s @ g \<and> is_group g \<and>
    mset (concat (map (entry_atoms (env_dec E) produce_router (\<lambda>r. topic_atoms tname tparts (topic_data r))) g)) = mset (topic_atoms tname tparts (topic_data r)) \<and>
    (\<forall>p \<in> set g. \<forall>a \<in> set (entry_atoms (env_dec E) produce_router (\<lambda>r. topic_atoms tname tparts (topic_data r)) p).
       topics_dest pindex s a = -1 \<or> pdestination p = Id (topics_dest pindex s a))"
proof -
  have "get_request_frame produce_router (Produce r) = Some r" by (simp add: produce_router_def)
  from produce.split_and_route_carries[OF assms(1,2,3) this assms(4)] show ?thesis .
qed

definition ex_produce_message :: message where
  "ex_produce_message = ex_message 7 None (Request \<lparr>request_api_key = 0, request_api_version = 3, correlation_id = 7, rh_rest = 0\<rparr> (Produce ex_produce))"

lemma ex_produce_routed: "\<exists>s'. split_and_route_request ex_env produce_router ex_produce_message ex_sink = Ok s' \<and> length (pending_requests s') = 3"
  by (simp add: split_and_route_request_def ex_produce_message_def produce_router_def split_produce_request_by_destination_def ex_produce_def
      split_produce_topic_def push_produce_def partition_leader_def get_i32_def get_def hash_iter_def real_destination_def sink_random_broker_def random_broker_id_def pick_def next_id_def push_back_def Let_def)

theorem routed_produce_carries_everything_witness:
  "\<exists>s'. split_and_route_request ex_env produce_router ex_produce_message ex_sink = Ok s' \<and> is_group (pending_requests s') \<and> length (pending_requests s') = 3"
proof -
  obtain s' where s': "split_and_route_request ex_env produce_router ex_produce_message ex_sink = Ok s'" "length (pending_requests s') = 3"
    using ex_produce_routed by blast
  have "order_ok ex_env" "distinct (map tname (topic_data ex_produce))" by (simp_all add: ex_produce_def)
  from routed_produce_carries_everything[OF this _ s'(1)] s' show ?thesis by (auto simp: ex_produce_message_def)
qed





end
