(* ===== verification/Transforms.thy ===== *)
theory Transforms
  imports Connection
begin

text \<open>
  The transforms that carry no database protocol of their own: \<^verbatim>\<open>QueryTypeFilter\<close>, \<^verbatim>\<open>RequestThrottling\<close>,
  \<^verbatim>\<open>NullSink\<close>, \<^verbatim>\<open>Loopback\<close>, \<^verbatim>\<open>DebugReturner\<close>, \<^verbatim>\<open>QueryCounter\<close>, \<^verbatim>\<open>DebugForceParse\<close>, \<^verbatim>\<open>DebugPrinter\<close>,
  \<^verbatim>\<open>DebugLogToFile\<close> and \<^verbatim>\<open>Coalesce\<close> (\<^verbatim>\<open>src/shotover/src/transforms/\<close>), and the state of one run
  of a chain (\<^verbatim>\<open>ChainState\<close> of \<^verbatim>\<open>transforms/mod.rs\<close>).

  A transform gets the rest of the chain as two arguments: \<open>next\<close>, which is
  \<^verbatim>\<open>chain_state.call_next_transform()\<close>, and the state \<open>c\<close> of the rest, which stays as it is when the
  transform does not call it.  An operation returns its result, the chain state, its own new state
  and the state of the rest.  The contexts that are added to errors are not kept.
\<close>

subsection \<open>The state of a run\<close>

type_synonym messages = "message list"
type_synonym message_map = "message_id \<Rightarrow> message option"

record chain_state =
  requests :: messages
  local_addr :: "opaque \<times> nat"
  flush :: bool
  close_client_connection :: bool
  chain_name :: string

definition dummy_address :: "opaque \<times> nat" where
  "dummy_address = (0, 0)"

definition new_with_addr :: "messages \<Rightarrow> opaque \<times> nat \<Rightarrow> chain_state" where
  "new_with_addr ms addr =
    \<lparr>requests = ms, local_addr = addr, flush = False, close_client_connection = False, chain_name = []\<rparr>"

definition flush_state :: chain_state where
  "flush_state =
    \<lparr>requests = [], local_addr = dummy_address, flush = True, close_client_connection = False, chain_name = []\<rparr>"

definition clone_state :: "chain_state \<Rightarrow> chain_state" where
  "clone_state cs = cs\<lparr>chain_name := []\<rparr>"

text \<open>\<^verbatim>\<open>take\<close> moves the requests out; what is left behind has none.\<close>

definition take_state :: "chain_state \<Rightarrow> chain_state \<times> chain_state" where
  "take_state cs = (cs, cs\<lparr>requests := []\<rparr>)"

definition clone_requests_into_hashmap :: "messages \<Rightarrow> message_map \<Rightarrow> message_map" where
  "clone_requests_into_hashmap ms dest = fold (\<lambda>m d. d(id m \<mapsto> m)) ms dest"

text \<open>
  The surroundings of a run: the decoders, the random id of a message made for a request, the
  clock before and after the rest of the chain ran, and the crates the transforms call: the names
  \<^verbatim>\<open>cql3_parser\<close> gives to statements, the rate limiter of \<^verbatim>\<open>governor\<close> (on its own state) and the file
  system.
\<close>

datatype limit = Allowed | NotNow | NeverAllowed

record chain_env =
  ce_dec :: decoders
  ce_nid :: "message_id \<Rightarrow> message_id"
  ce_now :: nat
  ce_after :: nat
  ce_short_name :: "cassandra_statement \<Rightarrow> string"
  ce_check_n :: "opaque \<Rightarrow> nat \<Rightarrow> limit \<times> opaque"
  ce_write :: "string \<Rightarrow> bytes \<Rightarrow> unit result"

type_synonym 'c rest = "chain_state \<Rightarrow> messages result \<times> chain_state \<times> 'c"
type_synonym ('t, 'c) outcome = "messages result \<times> chain_state \<times> 't \<times> 'c"

subsection \<open>Filtering by query type\<close>

datatype query_filter = AllowList "query_type list" | DenyList "query_type list"

record query_type_filter =
  qtf_filter :: query_filter
  filtered_requests :: message_map

fun filter_out :: "query_filter \<Rightarrow> query_type \<Rightarrow> bool" where
  "filter_out (AllowList allow) t = (t \<notin> set allow)"
| "filter_out (DenyList deny) t = (t \<in> set deny)"

fun filter_requests ::
  "chain_env \<Rightarrow> query_filter \<Rightarrow> messages \<Rightarrow> message_map \<Rightarrow> unit result \<times> messages \<times> message_map" where
  "filter_requests E flt [] held = (Ok (), [], held)"
| "filter_requests E flt (m # ms) held = (case get_query_type (ce_dec E) m of
     (Inl e, m') \<Rightarrow> (Inl e, m' # ms, held)
   | (Inr t, m') \<Rightarrow>
      if filter_out flt t
      then (case from_request_to_error_response (ce_dec E) (ce_nid E (id m')) m'
                   ''Message was filtered out by shotover'' Rejected of
          Inl e \<Rightarrow> (Inl e, m' # ms, held)
        | Inr error_response \<Rightarrow>
           (case filter_requests E flt ms (held(id m' \<mapsto> error_response)) of
              (r, ms', held') \<Rightarrow> (r, replace_with_dummy m' # ms', held')))
      else (case filter_requests E flt ms held of (r, ms', held') \<Rightarrow> (r, m' # ms', held')))"

text \<open>The loop over the responses, the same in \<^verbatim>\<open>filter.rs\<close> and \<^verbatim>\<open>throttling.rs\<close>.\<close>

fun replace_responses :: "messages \<Rightarrow> message_map \<Rightarrow> messages \<times> message_map" where
  "replace_responses [] held = ([], held)"
| "replace_responses (r # rs) held = (case request_id r of
     None \<Rightarrow> (case replace_responses rs held of (rs', held') \<Rightarrow> (r # rs', held'))
   | Some i \<Rightarrow> (case held i of
       None \<Rightarrow> (case replace_responses rs held of (rs', held') \<Rightarrow> (r # rs', held'))
     | Some e \<Rightarrow> (case replace_responses rs (held(i := None)) of (rs', held') \<Rightarrow> (e # rs', held'))))"

definition filter_transform ::
  "chain_env \<Rightarrow> 'c rest \<Rightarrow> 'c \<Rightarrow> query_type_filter \<Rightarrow> chain_state \<Rightarrow> (query_type_filter, 'c) outcome" where
  "filter_transform E next c f cs =
    (case filter_requests E (qtf_filter f) (requests cs) (filtered_requests f) of (r, ms, held) \<Rightarrow>
     let f1 = f\<lparr>filtered_requests := held\<rparr>; cs1 = cs\<lparr>requests := ms\<rparr> in
     case r of
       Inl e \<Rightarrow> (Inl e, cs1, f1, c)
     | Inr _ \<Rightarrow> (case next cs1 of
         (Inl e, cs2, c2) \<Rightarrow> (Inl e, cs2, f1, c2)
       | (Inr rs, cs2, c2) \<Rightarrow> (case replace_responses rs held of (rs', held') \<Rightarrow>
           (Ok rs', cs2, f1\<lparr>filtered_requests := held'\<rparr>, c2))))"

subsection \<open>Throttling\<close>

record request_throttling =
  limiter :: opaque
  max_requests_per_second :: nat
  throttled_requests :: message_map

definition throttling_validate :: "request_throttling \<Rightarrow> string list" where
  "throttling_validate t =
    (if max_requests_per_second t < 50
     then [''RequestThrottling:'', ''  max_requests_per_second has a minimum allowed value of 50'']
     else [])"

text \<open>A request whose cells cannot be counted passes; a panic of the count ends the run.\<close>

fun throttle_requests ::
  "chain_env \<Rightarrow> messages \<Rightarrow> opaque \<Rightarrow> message_map \<Rightarrow> unit result \<times> messages \<times> opaque \<times> message_map" where
  "throttle_requests E [] l held = (Ok (), [], l, held)"
| "throttle_requests E (m # ms) l held = (case cell_count (ce_dec E) m of
     Inl (Panic s) \<Rightarrow> (Inl (Panic s), m # ms, l, held)
   | Inl (Err s) \<Rightarrow> (case throttle_requests E ms l held of (r, ms', l', held') \<Rightarrow> (r, m # ms', l', held'))
   | Inr n \<Rightarrow> (case ce_check_n E l n of (verdict, l1) \<Rightarrow>
       if verdict = Allowed
       then (case throttle_requests E ms l1 held of (r, ms', l', held') \<Rightarrow> (r, m # ms', l', held'))
       else (case to_backpressure (ce_dec E) (ce_nid E (id m)) m of
           Inl e \<Rightarrow> (Inl e, m # ms, l1, held)
         | Inr response \<Rightarrow>
            (case throttle_requests E ms l1 (held(id m \<mapsto> response)) of
               (r, ms', l', held') \<Rightarrow> (r, replace_with_dummy m # ms', l', held')))))"

definition throttling_transform ::
  "chain_env \<Rightarrow> 'c rest \<Rightarrow> 'c \<Rightarrow> request_throttling \<Rightarrow> chain_state \<Rightarrow> (request_throttling, 'c) outcome" where
  "throttling_transform E next c t cs =
    (case throttle_requests E (requests cs) (limiter t) (throttled_requests t) of (r, ms, l, held) \<Rightarrow>
     let t1 = t\<lparr>limiter := l, throttled_requests := held\<rparr>; cs1 = cs\<lparr>requests := ms\<rparr> in
     case r of
       Inl e \<Rightarrow> (Inl e, cs1, t1, c)
     | Inr _ \<Rightarrow> (case next cs1 of
         (Inl e, cs2, c2) \<Rightarrow> (Inl e, cs2, t1, c2)
       | (Inr rs, cs2, c2) \<Rightarrow> (case replace_responses rs held of (rs', held') \<Rightarrow>
           (Ok rs', cs2, t1\<lparr>throttled_requests := held'\<rparr>, c2))))"

subsection \<open>Terminating transforms\<close>

fun null_requests :: "chain_env \<Rightarrow> messages \<Rightarrow> unit result \<times> messages" where
  "null_requests E [] = (Ok (), [])"
| "null_requests E (m # ms) =
    (case from_request_to_error_response (ce_dec E) (ce_nid E (id m)) m
            ''Handled by shotover null transform'' Internal of
       Inl e \<Rightarrow> (Inl e, m # ms)
     | Inr response \<Rightarrow> (case null_requests E ms of (r, ms') \<Rightarrow> (r, response # ms')))"

definition null_transform :: "chain_env \<Rightarrow> chain_state \<Rightarrow> messages result \<times> chain_state" where
  "null_transform E cs = (case null_requests E (requests cs) of
     (Inl e, ms) \<Rightarrow> (Inl e, cs\<lparr>requests := ms\<rparr>)
   | (Inr _, ms) \<Rightarrow> (Ok ms, cs\<lparr>requests := []\<rparr>))"

definition loopback_transform :: "chain_state \<Rightarrow> messages result \<times> chain_state" where
  "loopback_transform cs = (Ok (map (\<lambda>m. set_request_id (id m) m) (requests cs)), cs\<lparr>requests := []\<rparr>)"

datatype returner_response = RMessage message | RValkey bytes | RFail

definition return_one :: "chain_env \<Rightarrow> returner_response \<Rightarrow> message \<Rightarrow> message result" where
  "return_one E response request = (case response of
     RMessage m \<Rightarrow> Ok (set_request_id (id request) m)
   | RValkey s \<Rightarrow> Ok (set_request_id (id request) (from_frame (ce_nid E (id request)) (FValkey (BulkString s))))
   | RFail \<Rightarrow> Inl (Err ''Intentional Fail!''))"

fun collect_results :: "'a result list \<Rightarrow> 'a list result" where
  "collect_results [] = Ok []"
| "collect_results (r # rs) = bind_result r (\<lambda>x. bind_result (collect_results rs) (\<lambda>xs. Ok (x # xs)))"

definition returner_transform ::
  "chain_env \<Rightarrow> returner_response \<Rightarrow> chain_state \<Rightarrow> messages result \<times> chain_state" where
  "returner_transform E response cs = (collect_results (map (return_one E response) (requests cs)), cs)"

subsection \<open>Counting and parsing\<close>

definition operation_queries :: "cassandra_operation \<Rightarrow> cassandra_statement list" where
  "operation_queries op = (case op of
     Query q _ \<Rightarrow> [q]
   | Batch b \<Rightarrow> List.map_filter (\<lambda>(ty, _). case ty of Statement s \<Rightarrow> Some s | PreparedId _ \<Rightarrow> None) (batch_queries b)
   | _ \<Rightarrow> [])"

text \<open>A counter is kept for each query, with the protocol it was first seen in as a label.\<close>

type_synonym counters = "string \<Rightarrow> (string \<times> nat) option"

definition increment_counter :: "string \<Rightarrow> string \<Rightarrow> counters \<Rightarrow> counters" where
  "increment_counter query ty cnt = (case cnt query of
     None \<Rightarrow> cnt(query \<mapsto> (ty, 1))
   | Some (ty', n) \<Rightarrow> cnt(query \<mapsto> (ty', n + 1)))"

definition count_frame :: "chain_env \<Rightarrow> frame option \<Rightarrow> counters \<Rightarrow> counters result" where
  "count_frame E f cnt = (case f of
     Some (FCassandra c) \<Rightarrow>
       Ok (fold (\<lambda>s. increment_counter (ce_short_name E s) ''cassandra'') (operation_queries (coperation c)) cnt)
   | Some (FValkey v) \<Rightarrow> (case valkey_query_name v of
       Some q \<Rightarrow> Ok (increment_counter q ''valkey'' cnt)
     | None \<Rightarrow> Ok (increment_counter ''unknown'' ''valkey'' cnt))
   | Some (FKafka _) \<Rightarrow> Ok (increment_counter ''unknown'' ''kafka'' cnt)
   | Some FDummy \<Rightarrow> Ok cnt
   | Some (FOpenSearch _) \<Rightarrow> Inl (Panic ''not yet implemented'')
   | None \<Rightarrow> Ok (increment_counter ''unknown'' ''none'' cnt))"

fun count_requests :: "chain_env \<Rightarrow> messages \<Rightarrow> counters \<Rightarrow> unit result \<times> messages \<times> counters" where
  "count_requests E [] cnt = (Ok (), [], cnt)"
| "count_requests E (m # ms) cnt = (case frame (ce_dec E) m of (f, m') \<Rightarrow>
     (case count_frame E f cnt of
        Inl e \<Rightarrow> (Inl e, m' # ms, cnt)
      | Inr cnt1 \<Rightarrow> (case count_requests E ms cnt1 of (r, ms', cnt') \<Rightarrow> (r, m' # ms', cnt'))))"

definition counter_transform ::
  "chain_env \<Rightarrow> 'c rest \<Rightarrow> 'c \<Rightarrow> counters \<Rightarrow> chain_state \<Rightarrow> (counters, 'c) outcome" where
  "counter_transform E next c cnt cs = (case count_requests E (requests cs) cnt of (r, ms, cnt') \<Rightarrow>
     let cs1 = cs\<lparr>requests := ms\<rparr> in
     case r of
       Inl e \<Rightarrow> (Inl e, cs1, cnt', c)
     | Inr _ \<Rightarrow> (case next cs1 of (res, cs2, c2) \<Rightarrow> (res, cs2, cnt', c2)))"

record debug_force_parse =
  parse_requests :: bool
  parse_responses :: bool
  encode_requests :: bool
  encode_responses :: bool

definition force_message :: "decoders \<Rightarrow> bool \<Rightarrow> bool \<Rightarrow> message \<Rightarrow> message" where
  "force_message D parse encode m =
    (let m1 = if parse then snd (frame D m) else m
     in if encode then invalidate_cache (snd (frame D m1)) else m1)"

definition force_parse_transform ::
  "chain_env \<Rightarrow> 'c rest \<Rightarrow> 'c \<Rightarrow> debug_force_parse \<Rightarrow> chain_state \<Rightarrow> (debug_force_parse, 'c) outcome" where
  "force_parse_transform E next c p cs =
    (case next (cs\<lparr>requests := map (force_message (ce_dec E) (parse_requests p) (encode_requests p)) (requests cs)\<rparr>) of
       (Inl e, cs2, c2) \<Rightarrow> (Inl e, cs2, p, c2)
     | (Inr rs, cs2, c2) \<Rightarrow>
         (Ok (map (force_message (ce_dec E) (parse_responses p) (encode_responses p)) rs), cs2, p, c2))"

text \<open>\<^verbatim>\<open>to_high_level_string\<close> leaves the message parsed; the counter is an \<^verbatim>\<open>i32\<close>.\<close>

definition printer_transform ::
  "chain_env \<Rightarrow> 'c rest \<Rightarrow> 'c \<Rightarrow> 32 word \<Rightarrow> chain_state \<Rightarrow> (32 word, 'c) outcome" where
  "printer_transform E next c n cs =
    (case next (cs\<lparr>requests := map (\<lambda>m. snd (frame (ce_dec E) m)) (requests cs)\<rparr>) of
       (Inl e, cs2, c2) \<Rightarrow> (Inl e, cs2, n + 1, c2)
     | (Inr rs, cs2, c2) \<Rightarrow> (Ok (map (\<lambda>m. snd (frame (ce_dec E) m)) rs), cs2, n + 1, c2))"

text \<open>The files written so far are part of the state of \<^verbatim>\<open>DebugLogToFile\<close>.\<close>

record debug_log_to_file =
  request_counter :: nat
  response_counter :: nat
  requests_dir :: string
  responses_dir :: string
  logged :: "(string \<times> bytes) list"

definition log_build :: "nat \<Rightarrow> debug_log_to_file" where
  "log_build connection =
    \<lparr>request_counter = 0, response_counter = 0,
     requests_dir = ''message-log/'' @ show_nat connection @ ''/requests'',
     responses_dir = ''message-log/'' @ show_nat connection @ ''/responses'', logged = []\<rparr>"

definition log_message :: "chain_env \<Rightarrow> message \<Rightarrow> string \<Rightarrow> (string \<times> bytes) list \<Rightarrow> unit result \<times> (string \<times> bytes) list" where
  "log_message E m path files = (case into_encodable m of
     EBytes bs \<Rightarrow> (case ce_write E path bs of Inl e \<Rightarrow> (Inl e, files) | Inr _ \<Rightarrow> (Ok (), files @ [(path, bs)]))
   | EFrame _ \<Rightarrow> (Ok (), files))"

fun log_messages ::
  "chain_env \<Rightarrow> string \<Rightarrow> nat \<Rightarrow> messages \<Rightarrow> (string \<times> bytes) list \<Rightarrow> unit result \<times> nat \<times> (string \<times> bytes) list" where
  "log_messages E dir n [] files = (Ok (), n, files)"
| "log_messages E dir n (m # ms) files =
    (case log_message E m (dir @ ''/message'' @ show_nat (n + 1) @ ''.bin'') files of
       (Inl e, files') \<Rightarrow> (Inl e, n + 1, files')
     | (Inr _, files') \<Rightarrow> log_messages E dir (n + 1) ms files')"

definition log_transform ::
  "chain_env \<Rightarrow> 'c rest \<Rightarrow> 'c \<Rightarrow> debug_log_to_file \<Rightarrow> chain_state \<Rightarrow> (debug_log_to_file, 'c) outcome" where
  "log_transform E next c l cs =
    (case log_messages E (requests_dir l) (request_counter l) (requests cs) (logged l) of (r, n, files) \<Rightarrow>
     let l1 = l\<lparr>request_counter := n, logged := files\<rparr> in
     case r of
       Inl e \<Rightarrow> (Inl e, cs, l1, c)
     | Inr _ \<Rightarrow> (case next cs of
         (Inl e, cs2, c2) \<Rightarrow> (Inl e, cs2, l1, c2)
       | (Inr rs, cs2, c2) \<Rightarrow>
          (case log_messages E (responses_dir l) (response_counter l) rs files of (r2, n2, files2) \<Rightarrow>
           let l2 = l1\<lparr>response_counter := n2, logged := files2\<rparr> in
           case r2 of Inl e \<Rightarrow> (Inl e, cs2, l2, c2) | Inr _ \<Rightarrow> (Ok rs, cs2, l2, c2))))"

subsection \<open>Coalescing\<close>

text \<open>
  \<open>restarted\<close> is the permit that \<^verbatim>\<open>restart_sleep_after_flush.notify_one()\<close> leaves for the timer
  task.  \<open>last_flush\<close> is set exactly when there is an interval.
\<close>

record coalesce =
  flush_when_buffered_message_count :: "nat option"
  buffer :: messages
  millis_interval :: "nat option"
  last_flush :: "nat option"
  restarted :: bool

record coalesce_builder =
  cb_count :: "nat option"
  cb_millis :: "nat option"

definition coalesce_build :: "chain_env \<Rightarrow> coalesce_builder \<Rightarrow> coalesce" where
  "coalesce_build E b =
    (let c = \<lparr>flush_when_buffered_message_count = cb_count b, buffer = [], millis_interval = None,
              last_flush = None, restarted = False\<rparr>
     in case cb_millis b of
          Some ms \<Rightarrow> if 0 < ms then c\<lparr>millis_interval := Some ms, last_flush := Some (ce_now E), restarted := True\<rparr> else c
        | None \<Rightarrow> c)"

definition coalesce_validate :: "coalesce_builder \<Rightarrow> string list" where
  "coalesce_validate b =
    (if cb_millis b = Some 0
     then [''Coalesce:'', ''  flush_when_millis_since_last_flush must be greater than 0 when set.'',
           ''  Check https://shotover.io/docs/latest/transforms.html#coalesce for more information.'']
     else if cb_count b = None \<and> \<not> (case cb_millis b of Some m \<Rightarrow> 0 < m | None \<Rightarrow> False)
     then [''Coalesce:'', ''  Provide at least one of:'', ''  * flush_when_buffered_message_count'',
           ''  * flush_when_millis_since_last_flush (must be greater than 0)'', [],
           ''  But none of them were provided.'',
           ''  Check https://shotover.io/docs/latest/transforms.html#coalesce for more information.'']
     else [])"

definition millis_due :: "chain_env \<Rightarrow> coalesce \<Rightarrow> bool" where
  "millis_due E k = (case (millis_interval k, last_flush k) of
     (Some interval, Some since) \<Rightarrow> interval \<le> ce_now E - since
   | _ \<Rightarrow> False)"

definition restart_clock :: "nat \<Rightarrow> coalesce \<Rightarrow> coalesce" where
  "restart_clock now k =
    (if last_flush k = None then k else k\<lparr>last_flush := Some now, restarted := True\<rparr>)"

definition wants_flush :: "chain_env \<Rightarrow> coalesce \<Rightarrow> chain_state \<Rightarrow> bool" where
  "wants_flush E k cs \<longleftrightarrow> flush cs
     \<or> (case flush_when_buffered_message_count k of Some n \<Rightarrow> n \<le> length (buffer k) | None \<Rightarrow> False)
     \<or> (millis_due E k \<and> buffer k \<noteq> [])"

definition coalesce_transform ::
  "chain_env \<Rightarrow> 'c rest \<Rightarrow> 'c \<Rightarrow> coalesce \<Rightarrow> chain_state \<Rightarrow> (coalesce, 'c) outcome" where
  "coalesce_transform E next c k cs =
    (let k1 = k\<lparr>buffer := buffer k @ requests cs\<rparr>; cs1 = cs\<lparr>requests := []\<rparr> in
     if buffer k1 = [] \<and> \<not> flush cs then (Ok [], cs1, restart_clock (ce_now E) k1, c)
     else if wants_flush E k1 cs
     then (case next (cs1\<lparr>requests := buffer k1\<rparr>) of
         (Inl e, cs2, c2) \<Rightarrow> (Inl e, cs2, k1\<lparr>buffer := []\<rparr>, c2)
       | (Inr rs, cs2, c2) \<Rightarrow> (Ok rs, cs2, restart_clock (ce_after E) (k1\<lparr>buffer := []\<rparr>), c2))
     else (Ok [], cs1, k1, c))"

end
