(* ===== verification/Sub_Chains.thy ===== *)
theory Sub_Chains
  imports Transforms
begin

text \<open>
  Transforms that run chains of their own: the buffered chain behind a task
  (\<^verbatim>\<open>BufferedChain\<close> of \<^verbatim>\<open>src/shotover/src/transforms/chain.rs\<close>), \<^verbatim>\<open>Tee\<close>, \<^verbatim>\<open>ParallelMap\<close> and
  \<^verbatim>\<open>ConnectionBalanceAndPool\<close>.

  The sub-chain is a parameter: its state \<open>'b\<close> and \<open>run\<close>, one call of \<^verbatim>\<open>process_request\<close> on it.
  The theory of chains instantiates both.
\<close>

type_synonym 'b runner = "chain_state \<Rightarrow> 'b \<Rightarrow> messages result \<times> chain_state \<times> 'b"

subsection \<open>Buffered chains\<close>

record buffered_chain_messages =
  bm_local_addr :: "opaque \<times> nat"
  bm_messages :: messages
  bm_flush :: bool
  bm_return_chan :: bool

text \<open>
  The batches sent and not yet processed, the chain, and whether its task still runs: a panic
  in the chain ends the task.
\<close>

record 'b buffered_chain =
  bc_queue :: "buffered_chain_messages list"
  bc_chain :: 'b
  bc_running :: bool

definition build_buffered :: "'b \<Rightarrow> 'b buffered_chain" where
  "build_buffered chain = \<lparr>bc_queue = [], bc_chain = chain, bc_running = True\<rparr>"

definition run_batch :: "'b runner \<Rightarrow> buffered_chain_messages \<Rightarrow> 'b \<Rightarrow> messages result \<times> 'b" where
  "run_batch run bm b =
    (case run ((new_with_addr (bm_messages bm) (bm_local_addr bm))\<lparr>flush := bm_flush bm\<rparr>) b of
       (r, _, b') \<Rightarrow> (r, b'))"

text \<open>
  The loop of the task over the batches in the queue.  It yields the result of the last one,
  \<open>None\<close> when a panic ended the task before.
\<close>

fun worker_loop :: "'b runner \<Rightarrow> buffered_chain_messages list \<Rightarrow> 'b \<Rightarrow> messages result option \<times> 'b" where
  "worker_loop run [] b = (None, b)"
| "worker_loop run (bm # bms) b = (case run_batch run bm b of
     (Inl (Panic s), b') \<Rightarrow> (None, b')
   | (r, b') \<Rightarrow> if bms = [] then (Some r, b') else worker_loop run bms b')"

definition worker_step :: "'b runner \<Rightarrow> 'b buffered_chain \<Rightarrow> 'b buffered_chain" where
  "worker_step run bc = (case bc_queue bc of
     [] \<Rightarrow> bc
   | bm # bms \<Rightarrow> (case run_batch run bm (bc_chain bc) of
       (Inl (Panic s), b') \<Rightarrow> bc\<lparr>bc_queue := [], bc_chain := b', bc_running := False\<rparr>
     | (r, b') \<Rightarrow> bc\<lparr>bc_queue := bms, bc_chain := b'\<rparr>))"

text \<open>The flush when all senders are gone; its result is logged only.\<close>

definition worker_shutdown :: "'b runner \<Rightarrow> 'b buffered_chain \<Rightarrow> messages result \<times> 'b" where
  "worker_shutdown run bc = (case run flush_state (bc_chain bc) of (r, _, b') \<Rightarrow> (r, b'))"

text \<open>
  \<open>sent\<close> says that the batch got into the channel: always without a timeout, before the
  timeout otherwise.
\<close>

definition buffered_process_request ::
  "'b runner \<Rightarrow> bool \<Rightarrow> chain_state \<Rightarrow> 'b buffered_chain \<Rightarrow> messages result \<times> 'b buffered_chain" where
  "buffered_process_request run sent cs bc =
    (if \<not> sent \<or> \<not> bc_running bc then (Inl (Err ''Couldn't send message to wrapped chain''), bc)
     else (case worker_loop run (bc_queue bc @ [\<lparr>bm_local_addr = local_addr cs, bm_messages = requests cs,
                                                 bm_flush = flush cs, bm_return_chan = True\<rparr>]) (bc_chain bc) of
         (None, b') \<Rightarrow> (Inl (Err ''channel closed''), bc\<lparr>bc_queue := [], bc_chain := b', bc_running := False\<rparr>)
       | (Some r, b') \<Rightarrow> (r, bc\<lparr>bc_queue := [], bc_chain := b'\<rparr>)))"

definition buffered_process_request_no_return ::
  "'b runner \<Rightarrow> bool \<Rightarrow> chain_state \<Rightarrow> 'b buffered_chain \<Rightarrow> unit result \<times> 'b buffered_chain" where
  "buffered_process_request_no_return run sent cs bc =
    (if flush cs
     then (case buffered_process_request run sent cs bc of
         (Inl e, bc') \<Rightarrow> (Inl e, bc') | (Inr _, bc') \<Rightarrow> (Ok (), bc'))
     else if \<not> sent \<or> \<not> bc_running bc then (Inl (Err ''Couldn't send message to wrapped chain''), bc)
     else (Ok (), bc\<lparr>bc_queue := bc_queue bc @ [\<lparr>bm_local_addr = local_addr cs, bm_messages = requests cs,
                                                  bm_flush = False, bm_return_chan = False\<rparr>]\<rparr>))"

subsection \<open>Tee\<close>

datatype result_source = RegularChain | TeeChain

datatype incoming_responses =
    InOrder messages messages
  | OutOfOrder message_map message_map

datatype 'b consistency_behavior =
    Ignore
  | LogWarningOnMismatch
  | FailOnMismatch
  | SubchainOnMismatch "'b buffered_chain" message_map

record 'b tee =
  tee_tx :: "'b buffered_chain"
  behavior :: "'b consistency_behavior"
  dropped_messages :: nat
  result_source :: result_source
  incoming :: incoming_responses

datatype 'b behavior_builder =
  BIgnore | BLogWarningOnMismatch | BFailOnMismatch | BSubchainOnMismatch 'b

definition tee_build :: "'b \<Rightarrow> 'b behavior_builder \<Rightarrow> result_source \<Rightarrow> bool \<Rightarrow> 'b tee" where
  "tee_build tx b source protocol_is_inorder =
    \<lparr>tee_tx = build_buffered tx,
     behavior = (case b of BIgnore \<Rightarrow> Ignore | BLogWarningOnMismatch \<Rightarrow> LogWarningOnMismatch
       | BFailOnMismatch \<Rightarrow> FailOnMismatch
       | BSubchainOnMismatch chain \<Rightarrow> SubchainOnMismatch (build_buffered chain) Map.empty),
     dropped_messages = 0, result_source = source,
     incoming = (if protocol_is_inorder then InOrder [] [] else OutOfOrder Map.empty Map.empty)\<rparr>"

definition put_result_source :: "string \<Rightarrow> result_source \<Rightarrow> unit result \<times> result_source" where
  "put_result_source new_result_source old =
    (if new_result_source = ''tee-chain'' then (Ok (), TeeChain)
     else if new_result_source = ''regular-chain'' then (Ok (), RegularChain)
     else (Inl (Err ''Invalid value for result source''), old))"

text \<open>\<^verbatim>\<open>PartialEq\<close> of messages ignores the ids and the time of arrival.\<close>

definition message_eq :: "message \<Rightarrow> message \<Rightarrow> bool" where
  "message_eq a b \<longleftrightarrow> inner a = inner b \<and> codec a = codec b"

text \<open>
  What happens to a pair: the mismatch handler gets the response that is kept, the other one and
  the variables it captured.
\<close>

type_synonym 'x on_mismatch = "message \<Rightarrow> message \<Rightarrow> 'x \<Rightarrow> (message \<times> 'x) result"

definition resolve ::
  "result_source \<Rightarrow> 'x on_mismatch \<Rightarrow> message \<Rightarrow> message \<Rightarrow> 'x \<Rightarrow> (message \<times> 'x) result" where
  "resolve keep om tee_response chain_response x = (case keep of
     RegularChain \<Rightarrow> if message_eq tee_response chain_response then Ok (chain_response, x)
                     else om chain_response tee_response x
   | TeeChain \<Rightarrow> if message_eq tee_response chain_response then Ok (tee_response, x)
                 else om tee_response chain_response x)"

fun pair_in_order ::
  "result_source \<Rightarrow> 'x on_mismatch \<Rightarrow> messages \<Rightarrow> messages \<Rightarrow> 'x \<Rightarrow> (messages \<times> messages \<times> messages \<times> 'x) result" where
  "pair_in_order keep om [] chain x = Ok ([], [], chain, x)"
| "pair_in_order keep om tee [] x = Ok ([], tee, [], x)"
| "pair_in_order keep om (t # tee) (c # chain) x =
    (if request_id t = None
     then bind_result (pair_in_order keep om tee (c # chain) x) (\<lambda>(out, rest). Ok (t # out, rest))
     else if request_id c = None
     then bind_result (pair_in_order keep om (t # tee) chain x) (\<lambda>(out, rest). Ok (c # out, rest))
     else bind_result (resolve keep om t c x) (\<lambda>(m, x1).
          bind_result (pair_in_order keep om tee chain x1) (\<lambda>(out, rest). Ok (m # out, rest))))"

definition pop_requestless :: "messages \<Rightarrow> messages \<times> messages" where
  "pop_requestless q = (case q of
     m # ms \<Rightarrow> if request_id m = None then ([m], ms) else ([], q) | [] \<Rightarrow> ([], []))"

text \<open>
  The two loops over responses that come in any order.  \<open>mine\<close> are the stored responses of the
  chain the loop is about, \<open>other\<close> those of the other one.
\<close>

fun match_any_order ::
  "bool \<Rightarrow> (message \<Rightarrow> message \<Rightarrow> 'x \<Rightarrow> (message \<times> 'x) result) \<Rightarrow> messages \<Rightarrow> message_map \<Rightarrow> message_map \<Rightarrow> 'x
     \<Rightarrow> (messages \<times> message_map \<times> message_map \<times> 'x) result" where
  "match_any_order kept rsv [] mine other x = Ok ([], mine, other, x)"
| "match_any_order kept rsv (r # rs) mine other x = (case request_id r of
     None \<Rightarrow> bind_result (match_any_order kept rsv rs mine other x)
               (\<lambda>(out, rest). Ok (if kept then r # out else out, rest))
   | Some i \<Rightarrow> (case other i of
       Some o' \<Rightarrow> bind_result (rsv r o' x) (\<lambda>(m, x1).
                  bind_result (match_any_order kept rsv rs mine (other(i := None)) x1)
                    (\<lambda>(out, rest). Ok (m # out, rest)))
     | None \<Rightarrow> match_any_order kept rsv rs (mine(i \<mapsto> r)) other x))"

definition new_responses ::
  "messages \<Rightarrow> messages \<Rightarrow> result_source \<Rightarrow> 'x on_mismatch \<Rightarrow> 'x \<Rightarrow> incoming_responses
     \<Rightarrow> (messages \<times> incoming_responses \<times> 'x) result" where
  "new_responses tee_responses chain_responses keep om x inc = (case inc of
     InOrder tee chain \<Rightarrow>
       bind_result (pair_in_order keep om (tee @ tee_responses) (chain @ chain_responses) x)
         (\<lambda>(out, tee1, chain1, x1).
          (case pop_requestless tee1 of (t, tee2) \<Rightarrow> (case pop_requestless chain1 of (c, chain2) \<Rightarrow>
             Ok (out @ t @ c, InOrder tee2 chain2, x1))))
   | OutOfOrder tee chain \<Rightarrow>
       bind_result (match_any_order (keep = TeeChain) (\<lambda>t c. resolve keep om t c) tee_responses tee chain x)
         (\<lambda>(out1, tee1, chain1, x1).
          bind_result (match_any_order (keep = RegularChain) (\<lambda>c t. resolve keep om t c) chain_responses chain1 tee1 x1)
            (\<lambda>(out2, chain2, tee2, x2). Ok (out1 @ out2, OutOfOrder tee2 chain2, x2))))"

text \<open>The handlers of the three behaviours.  \<^verbatim>\<open>to_high_level_string\<close> leaves the kept response parsed.\<close>

definition warn_mismatch :: "chain_env \<Rightarrow> unit on_mismatch" where
  "warn_mismatch E keep other u = Ok (snd (frame (ce_dec E) keep), u)"

definition fail_mismatch :: "chain_env \<Rightarrow> unit on_mismatch" where
  "fail_mismatch E keep other u =
    (case from_response_to_error_response (ce_dec E) (ce_nid E (id keep)) (snd (frame (ce_dec E) keep))
            ''The responses from the Tee subchain and down-chain did not match and behavior is set to fail on mismatch''
            Internal of
       Inl (Panic s) \<Rightarrow> Inl (Panic s)
     | Inl (Err s) \<Rightarrow> Inl (Panic ''called Result::unwrap() on an Err value'')
     | Inr m \<Rightarrow> Ok (m, u))"

definition subchain_mismatch :: "(messages \<times> message_map) on_mismatch" where
  "subchain_mismatch keep other x = (case x of (mismatched, held) \<Rightarrow>
     (case request_id keep of
        None \<Rightarrow> Ok (keep, mismatched, held)
      | Some i \<Rightarrow> (case held i of
          None \<Rightarrow> Inl (Panic ''called Option::unwrap() on a None value'')
        | Some m \<Rightarrow> Ok (keep, mismatched @ [m], held(i := None)))))"

definition ignore_behaviour ::
  "'b runner \<Rightarrow> bool \<Rightarrow> 'c rest \<Rightarrow> 'b tee \<Rightarrow> chain_state \<Rightarrow> ('b tee, 'c) outcome" where
  "ignore_behaviour run sent next t cs = (case result_source t of
     RegularChain \<Rightarrow>
       (case buffered_process_request_no_return run sent (clone_state cs) (tee_tx t) of (tee_result, tx) \<Rightarrow>
        (case next cs of (chain_result, cs2, c2) \<Rightarrow>
          (chain_result, cs2,
           t\<lparr>tee_tx := tx, dropped_messages := dropped_messages t + (case tee_result of Inl _ \<Rightarrow> 1 | Inr _ \<Rightarrow> 0)\<rparr>, c2)))
   | TeeChain \<Rightarrow>
       (case buffered_process_request run sent (clone_state cs) (tee_tx t) of (tee_result, tx) \<Rightarrow>
        (case next cs of (chain_result, cs2, c2) \<Rightarrow>
          (case chain_result of
             Inl (Panic s) \<Rightarrow> (Inl (Panic s), cs2, t\<lparr>tee_tx := tx\<rparr>, c2)
           | _ \<Rightarrow> (tee_result, cs2,
                   t\<lparr>tee_tx := tx,
                     dropped_messages := dropped_messages t + (case chain_result of Inl _ \<Rightarrow> 1 | Inr _ \<Rightarrow> 0)\<rparr>, c2)))))"

text \<open>\<^verbatim>\<open>tokio::join!\<close> of the two chains, then the errors in the order of the \<^verbatim>\<open>?\<close>.\<close>

definition join_chains ::
  "'b runner \<Rightarrow> bool \<Rightarrow> 'c rest \<Rightarrow> 'b tee \<Rightarrow> chain_state \<Rightarrow> (messages \<times> messages) result \<times> chain_state \<times> 'b tee \<times> 'c" where
  "join_chains run sent next t cs =
    (case buffered_process_request run sent (clone_state cs) (tee_tx t) of (tee_result, tx) \<Rightarrow>
     (case next cs of (chain_result, cs2, c2) \<Rightarrow>
       (case chain_result of
          Inl (Panic s) \<Rightarrow> Inl (Panic s)
        | _ \<Rightarrow> bind_result tee_result (\<lambda>a. bind_result chain_result (\<lambda>b. Ok (a, b))),
        cs2, t\<lparr>tee_tx := tx\<rparr>, c2)))"

definition compare_chains ::
  "'b runner \<Rightarrow> bool \<Rightarrow> unit on_mismatch \<Rightarrow> 'c rest \<Rightarrow> 'b tee \<Rightarrow> chain_state \<Rightarrow> ('b tee, 'c) outcome" where
  "compare_chains run sent om next t cs = (case join_chains run sent next t cs of
     (Inl e, cs2, t2, c2) \<Rightarrow> (Inl e, cs2, t2, c2)
   | (Inr (tee_responses, chain_responses), cs2, t2, c2) \<Rightarrow>
      (case new_responses tee_responses chain_responses (result_source t) om () (incoming t) of
         Inl e \<Rightarrow> (Inl e, cs2, t2, c2)
       | Inr (rs, inc, _) \<Rightarrow> (Ok rs, cs2, t2\<lparr>incoming := inc\<rparr>, c2)))"

definition subchain_behaviour ::
  "'b runner \<Rightarrow> bool \<Rightarrow> 'b buffered_chain \<Rightarrow> message_map \<Rightarrow> 'c rest \<Rightarrow> 'b tee \<Rightarrow> chain_state \<Rightarrow> ('b tee, 'c) outcome" where
  "subchain_behaviour run sent mismatch_chain held next t cs =
    (let held1 = clone_requests_into_hashmap (requests cs) held;
         t1 = t\<lparr>behavior := SubchainOnMismatch mismatch_chain held1\<rparr> in
     case join_chains run sent next t1 cs of
       (Inl e, cs2, t2, c2) \<Rightarrow> (Inl e, cs2, t2, c2)
     | (Inr (tee_responses, chain_responses), cs2, t2, c2) \<Rightarrow>
        (case new_responses tee_responses chain_responses (result_source t) subchain_mismatch ([], held1) (incoming t) of
           Inl e \<Rightarrow> (Inl e, cs2, t2, c2)
         | Inr (rs, inc, mismatched, held2) \<Rightarrow>
            (case buffered_process_request run True (new_with_addr mismatched (local_addr cs)) mismatch_chain of
               (r, mismatch_chain2) \<Rightarrow>
                 (bind_result r (\<lambda>_. Ok rs), cs2,
                  t2\<lparr>incoming := inc, behavior := SubchainOnMismatch mismatch_chain2 held2\<rparr>, c2))))"

definition tee_transform ::
  "chain_env \<Rightarrow> 'b runner \<Rightarrow> bool \<Rightarrow> 'c rest \<Rightarrow> 'b tee \<Rightarrow> chain_state \<Rightarrow> ('b tee, 'c) outcome" where
  "tee_transform E run sent next t cs = (case behavior t of
     Ignore \<Rightarrow> ignore_behaviour run sent next t cs
   | FailOnMismatch \<Rightarrow> compare_chains run sent (fail_mismatch E) next t cs
   | SubchainOnMismatch mismatch_chain held \<Rightarrow> subchain_behaviour run sent mismatch_chain held next t cs
   | LogWarningOnMismatch \<Rightarrow> compare_chains run sent (warn_mismatch E) next t cs)"

subsection \<open>ParallelMap\<close>

text \<open>
  One round: each chain takes one message while there are any.  \<open>arrival\<close> is the order in which the
  results are collected: that of the chains for ordered results, that of completion otherwise.
\<close>

fun run_round ::
  "'b runner \<Rightarrow> opaque \<times> nat \<Rightarrow> 'b list \<Rightarrow> messages \<Rightarrow> messages result list \<times> 'b list" where
  "run_round run addr [] ms = ([], [])"
| "run_round run addr (b # bs) [] = ([], b # bs)"
| "run_round run addr (b # bs) (m # ms) = (case run (new_with_addr [m] addr) b of
     (r, _, b') \<Rightarrow> (case run_round run addr bs ms of (rs, bs') \<Rightarrow> (r # rs, b' # bs')))"

record 'b parallel_map =
  pm_chains :: "'b list"
  pm_ordered :: bool

definition find_panic :: "messages result list \<Rightarrow> string option" where
  "find_panic rs = (case find (\<lambda>r. case r of Inl (Panic _) \<Rightarrow> True | _ \<Rightarrow> False) rs of
     Some (Inl (Panic s)) \<Rightarrow> Some s | _ \<Rightarrow> None)"

text \<open>Collecting into one \<^verbatim>\<open>Result\<close> and iterating over it yields nothing for an error.\<close>

definition flatten_round :: "messages result list \<Rightarrow> messages" where
  "flatten_round rs = (case collect_results rs of Inr mss \<Rightarrow> concat mss | Inl _ \<Rightarrow> [])"

partial_function (option) parallel_loop ::
  "'b runner \<Rightarrow> (messages result list \<Rightarrow> messages result list) \<Rightarrow> opaque \<times> nat \<Rightarrow> messages \<Rightarrow> 'b list \<Rightarrow> messages
     \<Rightarrow> (messages result \<times> 'b list) option" where
  [code]: "parallel_loop run arrival addr results bs ms =
    (if ms = [] then Some (Ok results, bs)
     else (case run_round run addr bs ms of (rs, bs1) \<Rightarrow>
       (case find_panic rs of
          Some s \<Rightarrow> Some (Inl (Panic s), bs1)
        | None \<Rightarrow> parallel_loop run arrival addr (results @ flatten_round (arrival rs)) bs1 (drop (length bs) ms))))"

text \<open>\<open>None\<close>: the loop does not end.\<close>

definition parallel_map_transform ::
  "'b runner \<Rightarrow> (messages result list \<Rightarrow> messages result list) \<Rightarrow> 'b parallel_map \<Rightarrow> chain_state
     \<Rightarrow> (messages result \<times> chain_state \<times> 'b parallel_map) option" where
  "parallel_map_transform run arrival p cs =
    (case parallel_loop run (if pm_ordered p then (\<lambda>rs. rs) else arrival) (local_addr cs) [] (pm_chains p) (requests cs) of
       None \<Rightarrow> None
     | Some (r, bs) \<Rightarrow> Some (r, cs\<lparr>requests := []\<rparr>, p\<lparr>pm_chains := bs\<rparr>))"

subsection \<open>ConnectionBalanceAndPool\<close>

text \<open>
  The pool shared by all connections to a source: handles of buffered chains, which are numbers
  here, the chains themselves by handle, and the chain that is cloned.
\<close>

record 'b balance_pool =
  all_connections :: "nat list"
  pool_chains :: "nat \<Rightarrow> 'b buffered_chain option"
  chain_to_clone :: 'b
  max_connections :: nat

definition take_connection :: "nat option \<Rightarrow> 'b balance_pool \<Rightarrow> nat result \<times> 'b balance_pool" where
  "take_connection active p = (case active of
     Some h \<Rightarrow> (Ok h, p)
   | None \<Rightarrow>
      if length (all_connections p) < max_connections p
      then (let h = length (all_connections p) in
            (Ok h, p\<lparr>all_connections := all_connections p @ [h],
                     pool_chains := (pool_chains p)(h \<mapsto> build_buffered (chain_to_clone p))\<rparr>))
      else (case all_connections p of
          [] \<Rightarrow> (Inl (Panic ''removal index (is 0) should be < len (is 0)''), p)
        | h # hs \<Rightarrow> (Ok h, p\<lparr>all_connections := hs @ [h]\<rparr>)))"

definition balance_transform ::
  "'b runner \<Rightarrow> nat option \<Rightarrow> 'b balance_pool \<Rightarrow> chain_state
     \<Rightarrow> messages result \<times> chain_state \<times> nat option \<times> 'b balance_pool" where
  "balance_transform run active p cs = (case take_connection active p of
     (Inl e, p1) \<Rightarrow> (Inl e, cs, None, p1)
   | (Inr h, p1) \<Rightarrow> (case pool_chains p1 h of
       None \<Rightarrow> (Inl (Panic ''unknown connection''), cs, Some h, p1)
     | Some bc \<Rightarrow> (case take_state cs of (cs1, cs2) \<Rightarrow>
         (case buffered_process_request run True cs1 bc of
            (r, bc') \<Rightarrow> (r, cs2, Some h, p1\<lparr>pool_chains := (pool_chains p1)(h \<mapsto> bc')\<rparr>)))))"

end
