(* ===== verification/Transform_Contract.thy ===== *)
theory Transform_Contract
  imports Sub_Chains
begin

text \<open>
  What a transform promises (the invariants listed at \<^verbatim>\<open>trait Transform\<close> in
  \<^verbatim>\<open>src/shotover/src/transforms/mod.rs\<close>): every request gets one response, which carries its id, and for
  a protocol with ordered messages the responses come in the order of the requests.  Responses
  that no request asked for may come in between.

  Each transform of \<open>Transforms\<close> and \<open>Sub_Chains\<close> that keeps the ids is shown to pass the promise of
  the rest of the chain on to the transform before it.
\<close>

subsection \<open>Accounting for requests\<close>

definition answered :: "messages \<Rightarrow> message_id list" where
  "answered rs = List.map_filter request_id rs"

lemma answered_simps [simp]:
  "answered [] = []"
  "answered (r # rs) = (case request_id r of None \<Rightarrow> answered rs | Some i \<Rightarrow> i # answered rs)"
  "answered (rs @ ss) = answered rs @ answered ss"
  by (induction rs) (auto simp: answered_def map_filter_def split: option.splits)

lemma answered_cong: "map request_id rs = map request_id ss \<Longrightarrow> answered rs = answered ss"
proof -
  have "answered ms = List.map_filter (\<lambda>x. x) (map request_id ms)" for ms
    by (induction ms) (auto simp: map_filter_simps split: option.splits)
  then show "map request_id rs = map request_id ss \<Longrightarrow> answered rs = answered ss" by simp
qed

lemma answered_all: "map request_id rs = map Some ids \<Longrightarrow> answered rs = ids"
  by (induction rs arbitrary: ids) (auto simp: Cons_eq_map_conv map_eq_Cons_conv)

text \<open>
  \<open>account ids a left\<close>: of the outstanding requests \<open>ids\<close>, those in \<open>a\<close> were answered and those in
  \<open>left\<close> are still outstanding.
\<close>

locale accounting =
  fixes account :: "message_id list \<Rightarrow> message_id list \<Rightarrow> message_id list \<Rightarrow> bool"
  assumes account_none: "account ids [] ids"
    and account_all: "account ids ids []"
    and account_more: "account ids a left \<Longrightarrow> account (ids @ b) a (left @ b)"
    and account_then: "account ids a mid \<Longrightarrow> account mid b left \<Longrightarrow> account ids (a @ b) left"

definition accounted :: "bool \<Rightarrow> message_id list \<Rightarrow> message_id list \<Rightarrow> message_id list \<Rightarrow> bool" where
  "accounted ordered ids a left =
    (if ordered then ids = a @ left else mset ids = mset a + mset left)"

interpretation acc: accounting "accounted ordered" for ordered
  by unfold_locales (auto simp: accounted_def)

text \<open>
  The contract of a transform together with everything after it: \<open>step\<close> is a call, \<open>chan c ids\<close>
  says that the requests \<open>ids\<close> went into \<open>c\<close> and were not answered yet.
\<close>

locale transform_contract = accounting account
  for account :: "message_id list \<Rightarrow> message_id list \<Rightarrow> message_id list \<Rightarrow> bool" +
  fixes step :: "chain_state \<Rightarrow> 'c \<Rightarrow> messages result \<times> chain_state \<times> 'c"
    and chan :: "'c \<Rightarrow> message_id list \<Rightarrow> bool"
  assumes step_accounts: "chan c ids \<Longrightarrow> step cs c = (Ok rs, cs', c') \<Longrightarrow>
    \<exists>left. account (ids @ map id (requests cs)) (answered rs) left \<and> chan c' left"

text \<open>A run of calls: all responses and the state after it, or nothing when a call fails.\<close>

fun run_calls :: "'c runner \<Rightarrow> chain_state list \<Rightarrow> 'c \<Rightarrow> (messages \<times> 'c) option" where
  "run_calls step [] c = Some ([], c)"
| "run_calls step (cs # css) c = (case step cs c of
     (Inl e, _, _) \<Rightarrow> None
   | (Inr rs, _, c') \<Rightarrow> (case run_calls step css c' of Some (out, c'') \<Rightarrow> Some (rs @ out, c'') | None \<Rightarrow> None))"

text \<open>Error responses that are held back answer the request they are stored under.\<close>

definition held_ok :: "message_map \<Rightarrow> bool" where
  "held_ok held \<longleftrightarrow> (\<forall>i m. held i = Some m \<longrightarrow> request_id m = Some i)"

lemma held_ok_upd [simp]:
  "held_ok held \<Longrightarrow> request_id m = Some i \<Longrightarrow> held_ok (held(i \<mapsto> m))"
  "held_ok held \<Longrightarrow> held_ok (held(i := None))"
  by (auto simp: held_ok_def)

lemma replace_responses_ids:
  assumes "held_ok held" and "replace_responses rs held = (rs', held')"
  shows "map request_id rs' = map request_id rs \<and> held_ok held'"
  using assms
proof (induction rs arbitrary: held rs' held')
  case (Cons r rs)
  show ?case
  proof (cases "case request_id r of None \<Rightarrow> None | Some i \<Rightarrow> held i")
    case None
    with Cons(3) obtain ss where "replace_responses rs held = (ss, held')" "rs' = r # ss"
      by (auto split: prod.splits option.splits)
    with Cons(1)[OF Cons(2)] show ?thesis by simp
  next
    case (Some e)
    then obtain i where i: "request_id r = Some i" "held i = Some e" by (auto split: option.splits)
    with Cons(3) obtain ss where "replace_responses rs (held(i := None)) = (ss, held')" "rs' = e # ss"
      by (auto split: prod.splits)
    moreover have "held_ok (held(i := None))" using Cons(2) by simp
    ultimately show ?thesis using Cons(1)[of "held(i := None)" ss held'] Cons(2) i by (simp add: held_ok_def del: fun_upd_apply)
  qed
qed simp

lemma get_query_type_id: "id (snd (get_query_type D m)) = id m"
  by (simp add: get_query_type_def case_prod_beta)

lemma error_response_request_id:
  "from_request_to_error_response D nid m e ty = Ok r \<Longrightarrow> request_id r = Some (id m)"
  by (auto simp: from_request_to_error_response_def set_request_id_def result)

lemma filter_requests_ids:
  assumes "held_ok held" and "filter_requests E flt ms held = (Ok u, ms', held')"
  shows "map id ms' = map id ms \<and> held_ok held'"
  using assms
proof (induction ms arbitrary: held ms' held')
  case (Cons m ms)
  obtain q m1 where q: "get_query_type (ce_dec E) m = (q, m1)" by fastforce
  have m1: "id m1 = id m" using get_query_type_id[of "ce_dec E" m] q by simp
  from Cons(3) q obtain t where t: "q = Inr t" by (auto split: sum.splits)
  show ?case
  proof (cases "filter_out flt t")
    case True
    with Cons(3) q t obtain er ms1 where er:
      "from_request_to_error_response (ce_dec E) (ce_nid E (id m1)) m1 ''Message was filtered out by shotover'' Rejected = Inr er"
      and ms1: "filter_requests E flt ms (held(id m1 \<mapsto> er)) = (Ok u, ms1, held')" and "ms' = replace_with_dummy m1 # ms1"
      by (auto split: sum.splits prod.splits)
    moreover have "held_ok (held(id m1 \<mapsto> er))" using Cons(2) error_response_request_id[OF er] by simp
    note Cons(1)[OF this ms1]
    ultimately show ?thesis using m1 by (simp add: replace_with_dummy_def)
  next
    case False
    with Cons(3) q t obtain ms1 where "filter_requests E flt ms held = (Ok u, ms1, held')" "ms' = m1 # ms1"
      by (auto split: prod.splits)
    with Cons(1)[OF Cons(2)] m1 show ?thesis by simp
  qed
qed simp

lemma count_requests_ids:
  "count_requests E ms cnt = (Ok u, ms', cnt') \<Longrightarrow> map id ms' = map id ms"
proof (induction ms arbitrary: cnt ms')
  case (Cons m ms)
  obtain f m1 where f: "frame (ce_dec E) m = (f, m1)" by fastforce
  then have "id m1 = id m" by (metis frame_keeps(1) snd_conv)
  moreover obtain cnt1 ms1 where "count_requests E ms cnt1 = (Ok u, ms1, cnt')" "ms' = m1 # ms1"
    using Cons(2) f by (auto split: sum.splits prod.splits)
  ultimately show ?case using Cons(1) by simp
qed simp

lemma force_message_keeps [simp]:
  "id (force_message D p e m) = id m" "request_id (force_message D p e m) = request_id m"
  by (simp_all add: force_message_def invalidate_cache_def frame_keeps Let_def)

subsection \<open>Transforms that pass the contract on\<close>

context transform_contract
begin

text \<open>A step that only changes contents: the ids it hands on and the ids that come back are the same.\<close>

lemma relabelled:
  assumes "chan c ids" and "step cs1 c = (Ok rs, cs', c')"
    and "map id (requests cs1) = map id (requests cs)" and "map request_id rs' = map request_id rs"
  shows "\<exists>left. account (ids @ map id (requests cs)) (answered rs') left \<and> chan c' left"
  using step_accounts[OF assms(1,2)] assms(3) answered_cong[OF assms(4)] by simp

lemma filter_accounts:
  assumes "chan c ids" and "held_ok (filtered_requests f)"
    and r: "filter_transform E (\<lambda>cs. step cs c) c f cs = (Ok rs, cs', f', c')"
  shows "held_ok (filtered_requests f')
    \<and> (\<exists>left. account (ids @ map id (requests cs)) (answered rs) left \<and> chan c' left)"
proof -
  obtain u ms held where q: "filter_requests E (qtf_filter f) (requests cs) (filtered_requests f) = (Ok u, ms, held)"
    using r by (auto simp: filter_transform_def Let_def split: prod.splits sum.splits)
  obtain rs1 held' where s: "step (cs\<lparr>requests := ms\<rparr>) c = (Ok rs1, cs', c')"
    and h: "replace_responses rs1 held = (rs, held')" and f': "f' = f\<lparr>filtered_requests := held'\<rparr>"
    using r q by (auto simp: filter_transform_def Let_def split: prod.splits sum.splits)
  have ms: "map id ms = map id (requests cs)" and held: "held_ok held"
    using filter_requests_ids[OF assms(2) q] by auto
  from replace_responses_ids[OF held h] show ?thesis
    using relabelled[OF assms(1) s, of cs rs] ms f' by simp
qed

lemma counter_accounts:
  assumes "chan c ids" and r: "counter_transform E (\<lambda>cs. step cs c) c cnt cs = (Ok rs, cs', cnt', c')"
  shows "\<exists>left. account (ids @ map id (requests cs)) (answered rs) left \<and> chan c' left"
proof -
  obtain u ms where q: "count_requests E (requests cs) cnt = (Ok u, ms, cnt')"
    and s: "step (cs\<lparr>requests := ms\<rparr>) c = (Ok rs, cs', c')"
    using r by (auto simp: counter_transform_def Let_def split: prod.splits sum.splits)
  show ?thesis using relabelled[OF assms(1) s, of cs rs] count_requests_ids[OF q] by simp
qed

lemma force_parse_accounts:
  assumes "chan c ids" and r: "force_parse_transform E (\<lambda>cs. step cs c) c p cs = (Ok rs, cs', p', c')"
  shows "\<exists>left. account (ids @ map id (requests cs)) (answered rs) left \<and> chan c' left"
proof -
  let ?cs = "cs\<lparr>requests := map (force_message (ce_dec E) (parse_requests p) (encode_requests p)) (requests cs)\<rparr>"
  obtain rs1 where s: "step ?cs c = (Ok rs1, cs', c')"
    and "rs = map (force_message (ce_dec E) (parse_responses p) (encode_responses p)) rs1"
    using r by (auto simp: force_parse_transform_def split: prod.splits sum.splits)
  then show ?thesis using relabelled[OF assms(1) s, of cs rs] by (simp add: comp_def)
qed

lemma printer_accounts:
  assumes "chan c ids" and r: "printer_transform E (\<lambda>cs. step cs c) c n cs = (Ok rs, cs', n', c')"
  shows "\<exists>left. account (ids @ map id (requests cs)) (answered rs) left \<and> chan c' left"
proof -
  let ?cs = "cs\<lparr>requests := map (\<lambda>m. snd (frame (ce_dec E) m)) (requests cs)\<rparr>"
  obtain rs1 where s: "step ?cs c = (Ok rs1, cs', c')" and "rs = map (\<lambda>m. snd (frame (ce_dec E) m)) rs1"
    using r by (auto simp: printer_transform_def split: prod.splits sum.splits)
  then show ?thesis using relabelled[OF assms(1) s, of cs rs] by (simp add: comp_def)
qed

lemma log_accounts:
  assumes "chan c ids" and r: "log_transform E (\<lambda>cs. step cs c) c l cs = (Ok rs, cs', l', c')"
  shows "\<exists>left. account (ids @ map id (requests cs)) (answered rs) left \<and> chan c' left"
proof -
  have "step cs c = (Ok rs, cs', c')"
    using r by (auto simp: log_transform_def Let_def split: prod.splits sum.splits)
  then show ?thesis by (rule step_accounts[OF assms(1)])
qed

text \<open>\<^verbatim>\<open>Coalesce\<close> keeps the newest requests back, in their order.\<close>

lemma coalesce_accounts:
  assumes "chan c ids" and r: "coalesce_transform E (\<lambda>cs. step cs c) c k cs = (Ok rs, cs', k', c')"
  shows "\<exists>left. account (ids @ map id (buffer k) @ map id (requests cs)) (answered rs) (left @ map id (buffer k'))
    \<and> chan c' left"
proof (cases "(buffer k @ requests cs = [] \<and> \<not> flush cs) \<or> \<not> wants_flush E (k\<lparr>buffer := buffer k @ requests cs\<rparr>) cs")
  case True
  then have "rs = [] \<and> c' = c \<and> map id (buffer k') = map id (buffer k) @ map id (requests cs)"
    using r by (auto simp: coalesce_transform_def restart_clock_def Let_def split: if_splits)
  then show ?thesis using account_none assms(1) by auto
next
  case False
  let ?cs = "cs\<lparr>requests := buffer k @ requests cs\<rparr>"
  obtain r1 cs1 c1 where s1: "step ?cs c = (r1, cs1, c1)" by (metis prod_cases3)
  then have "coalesce_transform E (\<lambda>cs. step cs c) c k cs =
      (case r1 of Inl e \<Rightarrow> (Inl e, cs1, k\<lparr>buffer := []\<rparr>, c1) | Inr rs \<Rightarrow> (Ok rs, cs1, restart_clock (ce_after E) (k\<lparr>buffer := []\<rparr>), c1))"
    using False by (auto simp: coalesce_transform_def Let_def split: sum.split)
  with r s1 have s: "step ?cs c = (Ok rs, cs', c')" and "buffer k' = []"
    by (auto simp: restart_clock_def split: sum.splits if_splits)
  with step_accounts[OF assms(1) s] show ?thesis by simp
qed

text \<open>Over a run of calls, everything is accounted for.\<close>

lemma run_accounts:
  assumes "chan c ids" and "run_calls step css c = Some (out, c')"
  shows "\<exists>left. account (ids @ concat (map (\<lambda>cs. map id (requests cs)) css)) (answered out) left \<and> chan c' left"
  using assms
proof (induction css arbitrary: c ids out)
  case Nil
  then show ?case using account_none by auto
next
  case (Cons cs css)
  obtain rs cs1 c1 out1 where s: "step cs c = (Ok rs, cs1, c1)" and r: "run_calls step css c1 = Some (out1, c')"
    and o: "out = rs @ out1"
    using Cons(3) by (auto split: prod.splits sum.splits option.splits)
  let ?more = "concat (map (\<lambda>cs. map id (requests cs)) css)"
  obtain mid where m: "account (ids @ map id (requests cs)) (answered rs) mid" "chan c1 mid"
    using step_accounts[OF Cons(2) s] by auto
  obtain left where l: "account (mid @ ?more) (answered out1) left" "chan c' left"
    using Cons(1)[OF m(2) r] by auto
  from account_then[OF account_more[OF m(1)] l(1)] l(2) o show ?case by auto
qed

end

subsection \<open>Terminating transforms\<close>

lemma null_requests_ids:
  "null_requests E ms = (Ok u, ms') \<Longrightarrow> map request_id ms' = map Some (map id ms)"
proof (induction ms arbitrary: ms')
  case (Cons m ms)
  then obtain r ms1 where
    "from_request_to_error_response (ce_dec E) (ce_nid E (id m)) m ''Handled by shotover null transform'' Internal = Ok r"
    "null_requests E ms = (Ok u, ms1)" "ms' = r # ms1"
    by (auto split: sum.splits prod.splits)
  then show ?case using Cons(1) error_response_request_id by auto
qed simp

lemma null_answers:
  "null_transform E cs = (Ok rs, cs') \<Longrightarrow> map request_id rs = map Some (map id (requests cs))"
  using null_requests_ids[of E "requests cs"] by (auto simp: null_transform_def split: prod.splits sum.splits)

lemma loopback_answers:
  "loopback_transform cs = (Ok rs, cs') \<Longrightarrow> map request_id rs = map Some (map id (requests cs))"
  by (auto simp: loopback_transform_def set_request_id_def)

lemma returner_answers:
  assumes "returner_transform E response cs = (Ok rs, cs')"
  shows "map request_id rs = map Some (map id (requests cs))"
proof -
  have "collect_results (map (return_one E response) ms) = Ok out \<Longrightarrow> map request_id out = map Some (map id ms)" for ms out
    by (induction ms arbitrary: out)
      (auto simp: result return_one_def set_request_id_def split: returner_response.splits)
  moreover have "collect_results (map (return_one E response) (requests cs)) = Ok rs"
    using assms by (auto simp: returner_transform_def)
  ultimately show ?thesis by blast
qed

text \<open>They answer at once, so nothing is outstanding.\<close>

definition none_outstanding :: "'c \<Rightarrow> message_id list \<Rightarrow> bool" where
  "none_outstanding c ids \<longleftrightarrow> ids = []"

lemma answers_at_once:
  assumes "\<And>cs rs cs' c c'. step cs c = (Ok rs, cs', c') \<Longrightarrow> map request_id rs = map Some (map id (requests cs))"
  shows "transform_contract (accounted ordered) step none_outstanding"
proof unfold_locales
  fix c ids cs rs cs' c' assume "none_outstanding c ids" and s: "step cs c = (Ok rs, cs', c')"
  then show "\<exists>left. accounted ordered (ids @ map id (requests cs)) (answered rs) left \<and> none_outstanding c' left"
    using answered_all[OF assms[OF s]] acc.account_all by (simp add: none_outstanding_def)
qed

interpretation null_sink: transform_contract "accounted ordered"
    "\<lambda>cs (u :: unit). case null_transform E cs of (r, cs') \<Rightarrow> (r, cs', u)" none_outstanding for ordered E
  by (rule answers_at_once) (use null_answers in \<open>auto split: prod.splits\<close>)

interpretation loopback_sink: transform_contract "accounted ordered"
    "\<lambda>cs (u :: unit). case loopback_transform cs of (r, cs') \<Rightarrow> (r, cs', u)" none_outstanding for ordered
  by (rule answers_at_once) (use loopback_answers in \<open>auto split: prod.splits\<close>)

interpretation returner_sink: transform_contract "accounted ordered"
    "\<lambda>cs response. case returner_transform E response cs of (r, cs') \<Rightarrow> (r, cs', response)" none_outstanding for ordered E
  by (rule answers_at_once) (use returner_answers in \<open>auto split: prod.splits\<close>)

end
