(* ===== verification/Sub_Chain_Contract.thy ===== *)
theory Sub_Chain_Contract
  imports Transform_Contract
begin

text \<open>
  \<^verbatim>\<open>Tee\<close> passes the contract of an ordered protocol on when both of its chains keep it: the queues of
  \<^verbatim>\<open>IncomingResponses::InOrder\<close> pair each response of the sub-chain with the response of the main
  chain to the same request.  And the collected rounds of \<^verbatim>\<open>ParallelMap\<close>.
\<close>

subsection \<open>Pairing responses\<close>

definition keeps_request_id :: "'x on_mismatch \<Rightarrow> bool" where
  "keeps_request_id om \<longleftrightarrow> (\<forall>keep other x m x'. om keep other x = Ok (m, x') \<longrightarrow> request_id m = request_id keep)"

lemma keeps_request_idD:
  "keeps_request_id om \<Longrightarrow> om keep other x = Ok (m, x') \<Longrightarrow> request_id m = request_id keep"
  unfolding keeps_request_id_def by blast

lemma to_error_response_requestless: "to_error_response nid md e ty = Ok r \<Longrightarrow> request_id r = None"
  by (cases md) (auto simp: to_error_response_def from_frame_def from_frame_at_instant_def)

lemma response_error_request_id:
  "from_response_to_error_response D nid m e ty = Ok r \<Longrightarrow> request_id r = request_id m"
  by (cases "request_id m")
    (auto simp: from_response_to_error_response_def set_request_id_def result dest: to_error_response_requestless)

lemma keeps_request_id_handlers:
  "keeps_request_id (warn_mismatch E)" "keeps_request_id (fail_mismatch E)" "keeps_request_id subchain_mismatch"
  by (auto simp: keeps_request_id_def warn_mismatch_def fail_mismatch_def subchain_mismatch_def
      dest: response_error_request_id split: sum.splits err.splits option.splits prod.splits)

lemma resolve_id:
  assumes "keeps_request_id om" and "resolve keep om t c x = Ok (m, x')"
    and "request_id t = Some i" and "request_id c = Some i"
  shows "request_id m = Some i"
  using assms(2-) by (auto simp: resolve_def dest: keeps_request_idD[OF assms(1)] split: result_source.splits if_splits)

text \<open>
  Both chains answer prefixes of the same requests \<open>ids\<close>; the responses that go out answer what
  both have answered, and the queues hold the rest.
\<close>

lemma pair_in_order_accounts:
  assumes "keeps_request_id om" and "pair_in_order keep om tee chain x = Ok (out, tee', chain', x')"
    and "answered tee @ b = ids" and "answered chain @ a = ids"
  shows "\<exists>left. ids = answered out @ left \<and> answered tee' @ b = left \<and> answered chain' @ a = left"
  using assms
proof (induction keep om tee chain x arbitrary: ids out tee' chain' x' rule: pair_in_order.induct)
  case (3 keep om t tee c chain x)
  show ?case
  proof (cases "request_id t")
    case None
    with 3(5) obtain out1 where "pair_in_order keep om tee (c # chain) x = Ok (out1, tee', chain', x')" "out = t # out1"
      by (auto simp: result)
    with 3(1)[OF None 3(4)] 3(6,7) None show ?thesis by auto
  next
    case t: (Some i)
    show ?thesis
    proof (cases "request_id c")
      case None
      with 3(5) t obtain out1 where "pair_in_order keep om (t # tee) chain x = Ok (out1, tee', chain', x')" "out = c # out1"
        by (auto simp: result)
      with 3(2)[OF _ None 3(4)] 3(6,7) t None show ?thesis by auto
    next
      case c: (Some j)
      then have j: "j = i" using 3(6,7) t by auto
      obtain m x1 out1 where m: "resolve keep om t c x = Ok (m, x1)"
        and p: "pair_in_order keep om tee chain x1 = Ok (out1, tee', chain', x')" and o: "out = m # out1"
        using 3(5) t c by (auto simp: result)
      obtain ids' where ids': "ids = i # ids'" "answered tee @ b = ids'" "answered chain @ a = ids'"
        using 3(6,7) t c j by auto
      have "request_id m = Some i" using resolve_id[OF 3(4) m t] c j by simp
      moreover from 3(3)[OF _ _ 3(4) p ids'(2,3)] t c
      obtain left where "ids' = answered out1 @ left" "answered tee' @ b = left" "answered chain' @ a = left" by blast
      ultimately show ?thesis using o ids'(1) by simp
    qed
  qed
qed auto

lemma pop_requestless_answered:
  "pop_requestless q = (p, q') \<Longrightarrow> answered p = [] \<and> answered q' = answered q"
  by (auto simp: pop_requestless_def split: list.splits if_splits)

lemma new_responses_accounts:
  assumes "keeps_request_id om"
    and "new_responses rt rc keep om x (InOrder tee chain) = Ok (out, inc, x')"
    and "answered (tee @ rt) @ b = ids" and "answered (chain @ rc) @ a = ids"
  shows "\<exists>left tee' chain'. inc = InOrder tee' chain' \<and> ids = answered out @ left
    \<and> answered tee' @ b = left \<and> answered chain' @ a = left"
proof -
  obtain out1 tee1 chain1 where p: "pair_in_order keep om (tee @ rt) (chain @ rc) x = Ok (out1, tee1, chain1, x')"
    and "out = out1 @ fst (pop_requestless tee1) @ fst (pop_requestless chain1)"
    and "inc = InOrder (snd (pop_requestless tee1)) (snd (pop_requestless chain1))"
    using assms(2) by (auto simp: new_responses_def result case_prod_beta)
  then show ?thesis
    using pair_in_order_accounts[OF assms(1) p assms(3,4)]
      pop_requestless_answered[of tee1] pop_requestless_answered[of chain1]
    by (cases "pop_requestless tee1"; cases "pop_requestless chain1") auto
qed

subsection \<open>The buffered chain\<close>

text \<open>With nothing queued, a call of a buffered chain is a call of the chain.\<close>

lemma buffered_call:
  assumes "bc_queue bc = []" and "buffered_process_request run sent cs bc = (Ok rs, bc')"
  shows "bc_queue bc' = [] \<and> (\<exists>cs'. run ((new_with_addr (requests cs) (local_addr cs))\<lparr>flush := flush cs\<rparr>) (bc_chain bc)
           = (Ok rs, cs', bc_chain bc'))"
  using assms
  by (auto simp: buffered_process_request_def run_batch_def split: if_splits prod.splits option.splits sum.splits err.splits)

lemma buffered_accounts:
  assumes "transform_contract account run bchan" and "bchan (bc_chain bc) ids" and "bc_queue bc = []"
    and "buffered_process_request run sent cs bc = (Ok rs, bc')"
  shows "bc_queue bc' = [] \<and> (\<exists>left. account (ids @ map id (requests cs)) (answered rs) left \<and> bchan (bc_chain bc') left)"
  using buffered_call[OF assms(3,4)] transform_contract.step_accounts[OF assms(1,2)]
  by (fastforce simp: new_with_addr_def)

subsection \<open>The contract of Tee\<close>

text \<open>
  In the \<^verbatim>\<open>Ignore\<close> behaviour the result source alone answers; otherwise both chains have the
  outstanding requests, less what waits in the queues.
\<close>

definition tee_chan :: "('b \<Rightarrow> message_id list \<Rightarrow> bool) \<Rightarrow> ('c \<Rightarrow> message_id list \<Rightarrow> bool) \<Rightarrow> 'b tee \<times> 'c \<Rightarrow> message_id list \<Rightarrow> bool" where
  "tee_chan bchan chan tc ids \<longleftrightarrow> (case tc of (t, c) \<Rightarrow>
     if behavior t = Ignore
     then (case result_source t of
         RegularChain \<Rightarrow> chan c ids
       | TeeChain \<Rightarrow> bc_queue (tee_tx t) = [] \<and> bchan (bc_chain (tee_tx t)) ids)
     else bc_queue (tee_tx t) = []
       \<and> (\<exists>tee chain a b. incoming t = InOrder tee chain \<and> answered tee @ b = ids \<and> answered chain @ a = ids
            \<and> bchan (bc_chain (tee_tx t)) b \<and> chan c a))"

lemma join_accounts:
  assumes "transform_contract (accounted True) run bchan" and "transform_contract (accounted True) step chan"
    and "bc_queue (tee_tx t) = []" and "bchan (bc_chain (tee_tx t)) b" and "chan c a"
    and j: "join_chains run sent (\<lambda>cs. step cs c) t cs = (Ok (rt, rc), cs', t', c')"
  shows "\<exists>tx' a' b'. t' = t\<lparr>tee_tx := tx'\<rparr> \<and> bc_queue tx' = [] \<and> bchan (bc_chain tx') b' \<and> chan c' a'
    \<and> b @ map id (requests cs) = answered rt @ b' \<and> a @ map id (requests cs) = answered rc @ a'"
proof -
  obtain tx' where p: "buffered_process_request run sent (clone_state cs) (tee_tx t) = (Ok rt, tx')"
    and s: "step cs c = (Ok rc, cs', c')" and "t' = t\<lparr>tee_tx := tx'\<rparr>"
    using j by (auto simp: join_chains_def result split: prod.splits sum.splits err.splits)
  moreover have "requests (clone_state cs) = requests cs" by (simp add: clone_state_def)
  ultimately show ?thesis
    using buffered_accounts[OF assms(1,4,3) p] transform_contract.step_accounts[OF assms(2,5) s]
    by (auto simp: accounted_def)
qed

text \<open>What the comparing behaviours share: join, pair, store what has no pair yet.\<close>

lemma compare_accounts:
  assumes ct: "transform_contract (accounted True) run bchan" "transform_contract (accounted True) step chan"
    and om: "keeps_request_id om" and b: "behavior t \<noteq> Ignore" and chan: "tee_chan bchan chan (t, c) ids"
    and t1: "tee_tx t1 = tee_tx t"
    and j: "join_chains run sent (\<lambda>cs. step cs c) t1 cs = (Ok (rt, rc), cs', t', c')"
    and n: "new_responses rt rc keep om x (incoming t) = Ok (rs, inc, x')"
    and t': "behavior t'' \<noteq> Ignore" "tee_tx t'' = tee_tx t'" "incoming t'' = inc"
  shows "\<exists>left. accounted True (ids @ map id (requests cs)) (answered rs) left \<and> tee_chan bchan chan (t'', c') left"
proof -
  obtain tee chain a b' where q: "bc_queue (tee_tx t) = []" and i: "incoming t = InOrder tee chain"
    and ab: "answered tee @ b' = ids" "answered chain @ a = ids" "bchan (bc_chain (tee_tx t)) b'" "chan c a"
    using chan b by (auto simp: tee_chan_def)
  obtain tx' a1 b1 where tx: "t' = t1\<lparr>tee_tx := tx'\<rparr>" "bc_queue tx' = []" "bchan (bc_chain tx') b1" "chan c' a1"
    and acc: "b' @ map id (requests cs) = answered rt @ b1" "a @ map id (requests cs) = answered rc @ a1"
    using join_accounts[OF ct, of t1 b' c a sent cs rt rc cs' t' c'] q ab(3,4) j t1 by auto
  have "answered (tee @ rt) @ b1 = ids @ map id (requests cs)" "answered (chain @ rc) @ a1 = ids @ map id (requests cs)"
    using acc by (simp_all add: ab(1,2)[symmetric] acc[symmetric]) (metis ab(1,2) append_assoc)
  from new_responses_accounts[OF om n[unfolded i] this] show ?thesis
    using tx t' by (auto simp: accounted_def tee_chan_def)
qed

lemma tee_accounts:
  assumes ct: "transform_contract (accounted True) run bchan" "transform_contract (accounted True) step chan"
    and chan: "tee_chan bchan chan (t, c) ids"
    and r: "tee_transform E run sent (\<lambda>cs. step cs c) t cs = (Ok rs, cs', t', c')"
  shows "\<exists>left. accounted True (ids @ map id (requests cs)) (answered rs) left \<and> tee_chan bchan chan (t', c') left"
proof (cases "behavior t")
  case Ignore
  show ?thesis
  proof (cases "result_source t")
    case RegularChain
    with r Ignore obtain tx n where s: "step cs c = (Ok rs, cs', c')" and "t' = t\<lparr>tee_tx := tx, dropped_messages := n\<rparr>"
      by (auto simp: tee_transform_def ignore_behaviour_def split: prod.splits)
    then show ?thesis using transform_contract.step_accounts[OF ct(2) _ s] chan Ignore RegularChain
      by (auto simp: tee_chan_def)
  next
    case TeeChain
    with r Ignore obtain tx where p: "buffered_process_request run sent (clone_state cs) (tee_tx t) = (Ok rs, tx)"
      and "tee_tx t' = tx" "behavior t' = behavior t" "result_source t' = result_source t"
      by (auto simp: tee_transform_def ignore_behaviour_def split: prod.splits sum.splits err.splits)
    moreover have "bchan (bc_chain (tee_tx t)) ids" "bc_queue (tee_tx t) = []"
      using chan Ignore TeeChain by (auto simp: tee_chan_def)
    from buffered_accounts[OF ct(1) this p] have "bc_queue tx = [] \<and>
        (\<exists>left. accounted True (ids @ map id (requests cs)) (answered rs) left \<and> bchan (bc_chain tx) left)"
      by (simp add: clone_state_def)
    ultimately show ?thesis using Ignore TeeChain by (auto simp: tee_chan_def)
  qed
next
  case LogWarningOnMismatch
  then have b: "behavior t \<noteq> Ignore" by simp
  obtain rt rc t2 inc u where j: "join_chains run sent (\<lambda>cs. step cs c) t cs = (Ok (rt, rc), cs', t2, c')"
    and n: "new_responses rt rc (result_source t) (warn_mismatch E) () (incoming t) = Ok (rs, inc, u)"
    and t': "t' = t2\<lparr>incoming := inc\<rparr>"
    using r LogWarningOnMismatch by (auto simp: tee_transform_def compare_chains_def split: prod.splits sum.splits)
  have "behavior t2 = behavior t" using j by (auto simp: join_chains_def split: prod.splits)
  with compare_accounts[OF ct keeps_request_id_handlers(1) b chan refl j n, of t'] t' b show ?thesis by simp
next
  case FailOnMismatch
  then have b: "behavior t \<noteq> Ignore" by simp
  obtain rt rc t2 inc u where j: "join_chains run sent (\<lambda>cs. step cs c) t cs = (Ok (rt, rc), cs', t2, c')"
    and n: "new_responses rt rc (result_source t) (fail_mismatch E) () (incoming t) = Ok (rs, inc, u)"
    and t': "t' = t2\<lparr>incoming := inc\<rparr>"
    using r FailOnMismatch by (auto simp: tee_transform_def compare_chains_def split: prod.splits sum.splits)
  have "behavior t2 = behavior t" using j by (auto simp: join_chains_def split: prod.splits)
  with compare_accounts[OF ct keeps_request_id_handlers(2) b chan refl j n, of t'] t' b show ?thesis by simp
next
  case (SubchainOnMismatch mc held)
  then have b: "behavior t \<noteq> Ignore" by simp
  let ?t = "t\<lparr>behavior := SubchainOnMismatch mc (clone_requests_into_hashmap (requests cs) held)\<rparr>"
  obtain rt rc t2 inc mis held2 mc2 where j: "join_chains run sent (\<lambda>cs. step cs c) ?t cs = (Ok (rt, rc), cs', t2, c')"
    and n: "new_responses rt rc (result_source t) subchain_mismatch
              ([], clone_requests_into_hashmap (requests cs) held) (incoming t) = Ok (rs, inc, mis, held2)"
    and t': "t' = t2\<lparr>incoming := inc, behavior := SubchainOnMismatch mc2 held2\<rparr>"
    using r SubchainOnMismatch
    by (auto simp: tee_transform_def subchain_behaviour_def Let_def result split: prod.splits sum.splits)
  show ?thesis using compare_accounts[OF ct keeps_request_id_handlers(3) b chan _ j n, of t'] t' by simp
qed

subsection \<open>The contract of ParallelMap\<close>

text \<open>
  \<^verbatim>\<open>ParallelMap\<close> calls a sub-chain once for each request and never without one, so its sub-chains have
  to answer at once.
\<close>

lemma collect_results_Ok [simp]: "collect_results (map Ok xs) = Ok xs"
  by (induction xs) auto

lemma find_panic_Ok [simp]: "find_panic (map Ok mss) = None"
  by (induction mss) (auto simp: find_panic_def)

lemma flatten_round_Ok [simp]: "flatten_round (map Ok mss) = concat mss"
  by (simp add: flatten_round_def)

lemma run_round_length: "run_round run addr bs ms = (rs, bs') \<Longrightarrow> length bs' = length bs"
  by (induction run addr bs ms arbitrary: rs bs' rule: run_round.induct) (auto split: prod.splits)

text \<open>With at least one chain every round consumes a request, whatever the chains do.\<close>

lemma parallel_loop_ends:
  assumes "bs \<noteq> []"
  shows "\<exists>r. parallel_loop run arrival addr results bs ms = Some r"
  using assms
proof (induction ms arbitrary: results bs rule: length_induct)
  case (1 ms)
  show ?case
  proof (cases "ms = []")
    case True
    then show ?thesis by (simp add: parallel_loop.simps)
  next
    case False
    obtain rs bs1 where r: "run_round run addr bs ms = (rs, bs1)" by fastforce
    have "length (drop (length bs) ms) < length ms" using 1(2) False by (cases bs; cases ms) auto
    moreover have "bs1 \<noteq> []" using run_round_length[OF r] 1(2) by auto
    ultimately show ?thesis using 1(1) False r
      by (subst parallel_loop.simps) (auto split: option.split)
  qed
qed

lemma parallel_loop_stuck:
  assumes "parallel_loop run arrival addr results [] ms = Some r"
  shows "ms = []"
proof -
  have "bs = [] \<longrightarrow> ms = []" if "parallel_loop run arrival addr results bs ms = Some r" for bs
  proof (rule parallel_loop.raw_induct[where P = "\<lambda>_ _ _ _ bs ms _. bs = [] \<longrightarrow> ms = []", OF _ that], intro impI)
    fix loop run arrival addr results and bs :: "'a list" and ms y
    assume IH: "\<And>run arrival addr results bs ms y. loop run arrival addr results bs ms = Some y \<Longrightarrow> bs = [] \<longrightarrow> ms = []"
      and eq: "(if ms = [] then Some (Ok results, bs)
        else case run_round run addr bs ms of (rs, bs1) \<Rightarrow> (case find_panic rs of
            None \<Rightarrow> loop run arrival addr (results @ flatten_round (arrival rs)) bs1 (drop (length bs) ms)
          | Some s \<Rightarrow> Some (Inl (Panic s), bs1))) = Some y" and "bs = []"
    then show "ms = []" by (auto simp: find_panic_def split: if_splits)
  qed
  then show ?thesis using assms by blast
qed

locale immediate_chain =
  fixes run :: "'b runner" and ready :: "'b \<Rightarrow> bool"
  assumes immediate: "ready b \<Longrightarrow>
    \<exists>rs cs' b'. run cs b = (Ok rs, cs', b') \<and> map request_id rs = map Some (map id (requests cs)) \<and> ready b'"
begin

lemma run_round_answers:
  assumes "list_all ready bs"
  shows "\<exists>mss bs'. run_round run addr bs ms = (map Ok mss, bs') \<and> list_all ready bs'
    \<and> map request_id (concat mss) = map Some (map id (take (length bs) ms))"
  using assms
proof (induction bs arbitrary: ms)
  case Nil
  then show ?case by (auto intro!: exI[of _ "[]"])
next
  case (Cons b bs)
  show ?case
  proof (cases ms)
    case Nil
    then show ?thesis using Cons(2) by (auto intro!: exI[of _ "[]"])
  next
    case m: (Cons m ms')
    obtain rs cs' b' where r: "run (new_with_addr [m] addr) b = (Ok rs, cs', b')" and "ready b'"
      and rs: "map request_id rs = [Some (id m)]"
      using immediate[of b "new_with_addr [m] addr"] Cons(2) by (auto simp: new_with_addr_def)
    moreover obtain mss bs' where "run_round run addr bs ms' = (map Ok mss, bs')" "list_all ready bs'"
      "map request_id (concat mss) = map Some (map id (take (length bs) ms'))"
      using Cons(1)[of ms'] Cons(2) by auto
    ultimately show ?thesis using m by (auto intro!: exI[of _ "rs # mss"])
  qed
qed

lemma parallel_loop_answers:
  assumes "list_all ready bs" and "bs \<noteq> []"
  shows "\<exists>rs bs'. parallel_loop run (\<lambda>rs. rs) addr results bs ms = Some (Ok (results @ rs), bs')
    \<and> map request_id rs = map Some (map id ms) \<and> list_all ready bs' \<and> length bs' = length bs"
  using assms
proof (induction ms arbitrary: results bs rule: length_induct)
  case (1 ms)
  show ?case
  proof (cases "ms = []")
    case True
    then show ?thesis using 1(2) by (simp add: parallel_loop.simps)
  next
    case False
    obtain mss bs1 where r: "run_round run addr bs ms = (map Ok mss, bs1)" "list_all ready bs1"
      and mss: "map request_id (concat mss) = map Some (map id (take (length bs) ms))"
      using run_round_answers[OF 1(2)] by blast
    have bs1: "bs1 \<noteq> []" "length bs1 = length bs" using run_round_length[OF r(1)] 1(3) by auto
    have "length (drop (length bs) ms) < length ms" using 1(3) False by (cases bs; cases ms) auto
    with 1(1) r(2) bs1(1) obtain rs bs' where
      l: "parallel_loop run (\<lambda>rs. rs) addr (results @ concat mss) bs1 (drop (length bs) ms)
            = Some (Ok ((results @ concat mss) @ rs), bs')"
        "map request_id rs = map Some (map id (drop (length bs) ms))" "list_all ready bs'" "length bs' = length bs1"
      by blast
    have "map request_id (concat mss @ rs) = map Some (map id ms)"
      unfolding map_append mss l(2) by (simp only: map_append[symmetric] append_take_drop_id)
    moreover have "parallel_loop run (\<lambda>rs. rs) addr results bs ms = Some (Ok (results @ concat mss @ rs), bs')"
      using l(1) False r(1) by (subst parallel_loop.simps) simp
    ultimately show ?thesis using l(3,4) bs1(2) by metis
  qed
qed

end

interpretation loopback_now: immediate_chain
    "\<lambda>cs (u :: unit). case loopback_transform cs of (r, cs') \<Rightarrow> (r, cs', u)" "\<lambda>_. True"
  by unfold_locales (simp add: loopback_transform_def set_request_id_def comp_def)

lemma return_one_collect:
  assumes "response \<noteq> RFail"
  shows "\<exists>rs. collect_results (map (return_one E response) ms) = Ok rs"
  using assms by (induction ms) (auto simp: return_one_def split: returner_response.split)

interpretation returner_now: immediate_chain
    "\<lambda>cs response. case returner_transform E response cs of (r, cs') \<Rightarrow> (r, cs', response)" "\<lambda>response. response \<noteq> RFail" for E
proof
  fix b :: returner_response and cs assume "b \<noteq> RFail"
  then obtain rs where "returner_transform E b cs = (Ok rs, cs)"
    using return_one_collect[of b E "requests cs"] by (auto simp: returner_transform_def)
  then show "\<exists>rs cs' b'. (case returner_transform E b cs of (r, cs') \<Rightarrow> (r, cs', b)) = (Ok rs, cs', b') \<and>
      map request_id rs = map Some (map id (requests cs)) \<and> b' \<noteq> RFail"
    using returner_answers \<open>b \<noteq> RFail\<close> by fastforce
qed

end
