(* ===== verification/Transform_Chain.thy ===== *)
theory Transform_Chain
  imports Sub_Chain_Contract
begin

text \<open>
  Chains of transforms (\<^verbatim>\<open>src/shotover/src/transforms/chain.rs\<close> and \<^verbatim>\<open>ChainState::call_next_transform\<close>
  of \<^verbatim>\<open>transforms/mod.rs\<close>): running a chain, the validation of a chain builder, and the contract of a
  whole chain.

  A chain is a list of transforms.  The protocol specific transforms are the parameter \<open>'s\<close>: a sink
  with one call of its \<^verbatim>\<open>transform\<close>, a transform that rewrites requests and responses with what it
  does before and after the rest of the chain.  Sub-chains are the parameter \<open>'b\<close>, so that chains nest.
\<close>

subsection \<open>Running a chain\<close>

datatype ('b, 's) transform =
    QueryTypeFilter query_type_filter
  | RequestThrottling request_throttling
  | NullSink
  | Loopback
  | DebugReturner returner_response
  | QueryCounter counters
  | DebugForceParse debug_force_parse
  | DebugPrinter "32 word"
  | DebugLogToFile debug_log_to_file
  | Coalesce coalesce
  | Tee "'b tee"
  | Rewrite 's
  | Sink 's

text \<open>What a run needs besides the chain: the surroundings, sub-chains, and sinks.\<close>

record ('b, 's) providers =
  pv_env :: chain_env
  pv_run :: "'b runner"
  pv_sent :: bool
  pv_before :: "messages \<Rightarrow> 's \<Rightarrow> messages result \<times> 's"
  pv_after :: "messages \<Rightarrow> 's \<Rightarrow> messages result \<times> 's"
  pv_sink :: "chain_state \<Rightarrow> 's \<Rightarrow> messages result \<times> chain_state \<times> 's"

definition as_transform :: "('t \<Rightarrow> ('b, 's) transform) \<Rightarrow> ('t, 'c) outcome \<Rightarrow> (('b, 's) transform, 'c) outcome" where
  "as_transform con out = (case out of (r, cs, t, c) \<Rightarrow> (r, cs, con t, c))"

definition terminal :: "'c \<Rightarrow> ('b, 's) transform \<Rightarrow> messages result \<times> chain_state \<Rightarrow> (('b, 's) transform, 'c) outcome" where
  "terminal c t out = (case out of (r, cs) \<Rightarrow> (r, cs, t, c))"

definition rewrite_transform :: "('b, 's) providers \<Rightarrow> 'c rest \<Rightarrow> 'c \<Rightarrow> 's \<Rightarrow> chain_state \<Rightarrow> ('s, 'c) outcome" where
  "rewrite_transform P next c s cs = (case pv_before P (requests cs) s of
     (Inl e, s1) \<Rightarrow> (Inl e, cs, s1, c)
   | (Inr ms, s1) \<Rightarrow> (case next (cs\<lparr>requests := ms\<rparr>) of
       (Inl e, cs2, c2) \<Rightarrow> (Inl e, cs2, s1, c2)
     | (Inr rs, cs2, c2) \<Rightarrow> (case pv_after P rs s1 of (r, s2) \<Rightarrow> (r, cs2, s2, c2))))"

definition transform_step ::
  "('b, 's) providers \<Rightarrow> 'c rest \<Rightarrow> 'c \<Rightarrow> ('b, 's) transform \<Rightarrow> chain_state \<Rightarrow> (('b, 's) transform, 'c) outcome" where
  "transform_step P next c t cs = (case t of
     QueryTypeFilter f \<Rightarrow> as_transform QueryTypeFilter (filter_transform (pv_env P) next c f cs)
   | RequestThrottling l \<Rightarrow> as_transform RequestThrottling (throttling_transform (pv_env P) next c l cs)
   | NullSink \<Rightarrow> terminal c NullSink (null_transform (pv_env P) cs)
   | Loopback \<Rightarrow> terminal c Loopback (loopback_transform cs)
   | DebugReturner response \<Rightarrow> terminal c (DebugReturner response) (returner_transform (pv_env P) response cs)
   | QueryCounter cnt \<Rightarrow> as_transform QueryCounter (counter_transform (pv_env P) next c cnt cs)
   | DebugForceParse p \<Rightarrow> as_transform DebugForceParse (force_parse_transform (pv_env P) next c p cs)
   | DebugPrinter n \<Rightarrow> as_transform DebugPrinter (printer_transform (pv_env P) next c n cs)
   | DebugLogToFile l \<Rightarrow> as_transform DebugLogToFile (log_transform (pv_env P) next c l cs)
   | Coalesce k \<Rightarrow> as_transform Coalesce (coalesce_transform (pv_env P) next c k cs)
   | Tee t \<Rightarrow> as_transform Tee (tee_transform (pv_env P) (pv_run P) (pv_sent P) next t cs)
   | Rewrite s \<Rightarrow> as_transform Rewrite (rewrite_transform P next c s cs)
   | Sink s \<Rightarrow> (case pv_sink P cs s of (r, cs', s') \<Rightarrow> (r, cs', Sink s', c)))"

record ('b, 's) transform_and_metrics =
  tm_transform :: "('b, 's) transform"
  tm_name :: string
  transform_total :: nat
  transform_failures :: nat

definition record_call :: "messages result \<Rightarrow> ('b, 's) transform \<Rightarrow> ('b, 's) transform_and_metrics \<Rightarrow> ('b, 's) transform_and_metrics" where
  "record_call r t m = (case r of
     Inl (Panic _) \<Rightarrow> m\<lparr>tm_transform := t\<rparr>
   | Inl (Err _) \<Rightarrow> m\<lparr>tm_transform := t, transform_total := transform_total m + 1,
                       transform_failures := transform_failures m + 1\<rparr>
   | Inr _ \<Rightarrow> m\<lparr>tm_transform := t, transform_total := transform_total m + 1\<rparr>)"

text \<open>
  \<^verbatim>\<open>call_next_transform\<close>: the next transform runs with the transforms after it as its rest.  \<open>fin\<close> is
  what happens when there is no next one.
\<close>

primrec call_from ::
  "('b, 's) providers \<Rightarrow> (chain_state \<Rightarrow> messages result) \<Rightarrow> ('b, 's) transform_and_metrics list
     \<Rightarrow> ('b, 's) transform_and_metrics list rest" where
  "call_from P fin [] = (\<lambda>cs. (fin cs, cs, []))"
| "call_from P fin (m # ms) = (\<lambda>cs.
    (case transform_step P (call_from P fin ms) ms (tm_transform m) cs of
       (r, cs', t', ms') \<Rightarrow> (r, cs', record_call r t' m # ms')))"

definition end_of_chain :: "chain_state \<Rightarrow> messages result" where
  "end_of_chain cs = Inl (Panic ''The transform chain does not end with a terminating transform.'')"

definition call_next_transform ::
  "('b, 's) providers \<Rightarrow> ('b, 's) transform_and_metrics list \<Rightarrow> ('b, 's) transform_and_metrics list rest" where
  "call_next_transform P = call_from P end_of_chain"

record ('b, 's) transform_chain =
  tc_name :: string
  tc_chain :: "('b, 's) transform_and_metrics list"
  chain_total :: nat
  chain_failures :: nat
  requests_batch_sizes :: "nat list"
  responses_batch_sizes :: "nat list"

definition note_size :: "messages \<Rightarrow> nat list \<Rightarrow> nat list" where
  "note_size ms sizes = (if ms = [] then sizes else sizes @ [length ms])"

definition process_request ::
  "('b, 's) providers \<Rightarrow> chain_state \<Rightarrow> ('b, 's) transform_chain \<Rightarrow> messages result \<times> chain_state \<times> ('b, 's) transform_chain" where
  "process_request P cs tc =
    (case call_next_transform P (tc_chain tc) (cs\<lparr>chain_name := tc_name tc\<rparr>) of (r, cs', ms) \<Rightarrow>
     let tc1 = tc\<lparr>tc_chain := ms, requests_batch_sizes := note_size (requests cs) (requests_batch_sizes tc)\<rparr> in
     (r, cs', (case r of
         Inl (Panic _) \<Rightarrow> tc1
       | Inl (Err _) \<Rightarrow> tc1\<lparr>chain_total := chain_total tc + 1, chain_failures := chain_failures tc + 1\<rparr>
       | Inr rs \<Rightarrow> tc1\<lparr>chain_total := chain_total tc + 1,
                        responses_batch_sizes := note_size rs (responses_batch_sizes tc)\<rparr>)))"

subsection \<open>Builders and their validation\<close>

datatype 's builder =
    FilterBuilder query_filter
  | ThrottlingBuilder opaque nat
  | NullBuilder
  | LoopbackBuilder
  | ReturnerBuilder returner_response
  | CounterBuilder
  | ForceParseBuilder string debug_force_parse
  | PrinterBuilder
  | LogBuilder nat
  | CoalesceBuilder coalesce_builder
  | TeeBuilder "'s chain_builder" "'s chain_builder behavior_builder" result_source bool
  | ParallelMapBuilder "'s chain_builder list" bool
  | BalanceBuilder "'s chain_builder" nat
  | RewriteBuilder string 's "'s chain_builder option"
  | SinkBuilder string 's
and 's chain_builder = ChainBuilder string "(string \<times> 's builder) list"

text \<open>
  The protocol specific transforms come with their type names.  The sub-chain of a \<open>RewriteBuilder\<close>
  is that of \<^verbatim>\<open>ValkeyCache\<close>, whose validation is that of the sub-chain.
\<close>

fun type_name :: "'s builder \<Rightarrow> string" where
  "type_name (FilterBuilder _) = ''QueryTypeFilter''"
| "type_name (ThrottlingBuilder _ _) = ''RequestThrottling''"
| "type_name NullBuilder = ''NullSink''"
| "type_name LoopbackBuilder = ''Loopback''"
| "type_name (ReturnerBuilder _) = ''DebugReturner''"
| "type_name CounterBuilder = ''QueryCounter''"
| "type_name (ForceParseBuilder n _) = n"
| "type_name PrinterBuilder = ''DebugPrinter''"
| "type_name (LogBuilder _) = ''DebugLogToFile''"
| "type_name (CoalesceBuilder _) = ''Coalesce''"
| "type_name (TeeBuilder _ _ _ _) = ''Tee''"
| "type_name (ParallelMapBuilder _ _) = ''ParallelMap''"
| "type_name (BalanceBuilder _ _) = ''ConnectionBalanceAndPool''"
| "type_name (RewriteBuilder n _ _) = n"
| "type_name (SinkBuilder n _) = n"

fun is_terminating :: "'s builder \<Rightarrow> bool" where
  "is_terminating NullBuilder = True"
| "is_terminating LoopbackBuilder = True"
| "is_terminating (ReturnerBuilder _) = True"
| "is_terminating (ParallelMapBuilder _ _) = True"
| "is_terminating (BalanceBuilder _ _) = True"
| "is_terminating (SinkBuilder _ _) = True"
| "is_terminating _ = False"

definition indent :: "string list \<Rightarrow> string list" where
  "indent = map (\<lambda>x. ''  '' @ x)"

definition titled :: "string \<Rightarrow> string list \<Rightarrow> string list" where
  "titled title errors = (if errors = [] then [] else title # errors)"

text \<open>\<^verbatim>\<open>{:?}\<close> of a name puts it in quotes (code 34).\<close>

definition quoted :: "string \<Rightarrow> string" where
  "quoted s = CHR 0x22 # s @ [CHR 0x22]"

definition position_errors :: "bool \<Rightarrow> string \<Rightarrow> 's builder \<Rightarrow> string list" where
  "position_errors is_last name b =
    (if is_last \<and> \<not> is_terminating b
     then [''  Non-terminating Transform '' @ type_name b @ '' named '' @ quoted name
             @ '' is last in chain. Last Transform must be terminating.'']
     else if \<not> is_last \<and> is_terminating b
     then [''  Terminating Transform '' @ type_name b @ '' named '' @ quoted name
             @ '' is not last in chain. Terminating Transform must be last in chain.'']
     else [])"

fun validate_builder :: "'s builder \<Rightarrow> string list"
  and validate_chain :: "'s chain_builder \<Rightarrow> string list"
  and validate_transforms :: "(string \<times> 's builder) list \<Rightarrow> string list"
  and validate_chains :: "'s chain_builder list \<Rightarrow> string list" where
  "validate_builder b = (case b of
     ThrottlingBuilder l n \<Rightarrow> throttling_validate \<lparr>limiter = l, max_requests_per_second = n, throttled_requests = Map.empty\<rparr>
   | CoalesceBuilder k \<Rightarrow> coalesce_validate k
   | TeeBuilder tx behaviour _ _ \<Rightarrow>
       titled ''Tee:'' (indent (validate_chain tx)
         @ (case behaviour of BSubchainOnMismatch chain \<Rightarrow> indent (validate_chain chain) | _ \<Rightarrow> []))
   | ParallelMapBuilder bs _ \<Rightarrow> titled ''ParallelMap:'' (validate_chains bs)
   | RewriteBuilder n _ sub \<Rightarrow> (case sub of Some chain \<Rightarrow> titled (n @ '':'') (indent (validate_chain chain)) | None \<Rightarrow> [])
   | _ \<Rightarrow> [])"
| "validate_chain (ChainBuilder name ts) =
    (if ts = [] then [name @ '' chain:'', ''  Chain cannot be empty'']
     else titled (name @ '' chain:'') (validate_transforms ts))"
| "validate_transforms [] = []"
| "validate_transforms ((name, b) # ts) =
    position_errors (ts = []) name b @ indent (validate_builder b) @ validate_transforms ts"
| "validate_chains [] = []"
| "validate_chains (b # bs) = indent (validate_chain b) @ validate_chains bs"

text \<open>
  Building: \<open>sub\<close> builds a sub-chain and \<open>mk\<close> the transforms that are parameters.
\<close>

definition build_transform ::
  "chain_env \<Rightarrow> ('s chain_builder \<Rightarrow> 'b) \<Rightarrow> ('s builder \<Rightarrow> 't) \<Rightarrow> 's builder \<Rightarrow> ('b, 't) transform" where
  "build_transform E sub mk b = (case b of
     FilterBuilder f \<Rightarrow> QueryTypeFilter \<lparr>qtf_filter = f, filtered_requests = Map.empty\<rparr>
   | ThrottlingBuilder l n \<Rightarrow>
       RequestThrottling \<lparr>limiter = l, max_requests_per_second = n, throttled_requests = Map.empty\<rparr>
   | NullBuilder \<Rightarrow> NullSink
   | LoopbackBuilder \<Rightarrow> Loopback
   | ReturnerBuilder response \<Rightarrow> DebugReturner response
   | CounterBuilder \<Rightarrow> QueryCounter Map.empty
   | ForceParseBuilder _ p \<Rightarrow> DebugForceParse p
   | PrinterBuilder \<Rightarrow> DebugPrinter 0
   | LogBuilder connection \<Rightarrow> DebugLogToFile (log_build connection)
   | CoalesceBuilder k \<Rightarrow> Coalesce (coalesce_build E k)
   | TeeBuilder tx behaviour source inorder \<Rightarrow>
       Tee (tee_build (sub tx) (map_behavior_builder sub behaviour) source inorder)
   | RewriteBuilder _ _ _ \<Rightarrow> Rewrite (mk b)
   | _ \<Rightarrow> Sink (mk b))"

definition build_chain ::
  "chain_env \<Rightarrow> ('s chain_builder \<Rightarrow> 'b) \<Rightarrow> ('s builder \<Rightarrow> 't) \<Rightarrow> 's chain_builder \<Rightarrow> ('b, 't) transform_chain" where
  "build_chain E sub mk cb = (case cb of ChainBuilder name ts \<Rightarrow>
     \<lparr>tc_name = name,
      tc_chain = map (\<lambda>(n, b). \<lparr>tm_transform = build_transform E sub mk b, tm_name = n,
                                transform_total = 0, transform_failures = 0\<rparr>) ts,
      chain_total = 0, chain_failures = 0, requests_batch_sizes = [], responses_batch_sizes = []\<rparr>)"

subsection \<open>A validated chain ends in a terminating transform\<close>

fun terminates :: "('b, 's) transform \<Rightarrow> bool" where
  "terminates NullSink = True"
| "terminates Loopback = True"
| "terminates (DebugReturner _) = True"
| "terminates (Sink _) = True"
| "terminates _ = False"

definition terminated :: "('b, 's) transform_and_metrics list \<Rightarrow> bool" where
  "terminated ms \<longleftrightarrow> ms \<noteq> [] \<and> terminates (tm_transform (last ms))"

lemma terminates_build: "terminates (build_transform E sub mk b) = is_terminating b"
  by (cases b) (simp_all add: build_transform_def)

text \<open>A terminating transform does not look at the rest.\<close>

lemma terminates_ignores_rest:
  "terminates t \<Longrightarrow> transform_step P next c t cs = transform_step P next' c t cs"
  by (cases t) (simp_all add: transform_step_def)

lemma terminated_ignores_end:
  "terminated ms \<Longrightarrow> call_from P fin ms = call_from P fin' ms"
proof (induction ms)
  case (Cons m ms)
  show ?case
  proof (cases "ms = []")
    case True
    with Cons(2) have "terminates (tm_transform m)" by (simp add: terminated_def)
    then have "transform_step P (call_from P fin ms) ms (tm_transform m) cs =
        transform_step P (call_from P fin' ms) ms (tm_transform m) cs" for cs
      by (rule terminates_ignores_rest)
    then show ?thesis by simp
  next
    case False
    with Cons show ?thesis by (simp add: terminated_def)
  qed
qed (simp add: terminated_def)

lemma position_errors_Nil: "position_errors is_last name b = [] \<longleftrightarrow> is_terminating b = is_last"
  by (auto simp: position_errors_def)

lemma indent_Nil [simp]: "indent es = [] \<longleftrightarrow> es = []"
  by (simp add: indent_def)

lemma titled_Nil [simp]: "titled t es = [] \<longleftrightarrow> es = []"
  by (simp add: titled_def)

lemma validate_transforms_Nil:
  "validate_transforms ts = [] \<longleftrightarrow>
    (\<forall>(n, b) \<in> set ts. validate_builder b = []) \<and> (\<forall>i < length ts. is_terminating (snd (ts ! i)) = (Suc i = length ts))"
proof (induction ts)
  case (Cons t ts)
  obtain n b where t: "t = (n, b)" by fastforce
  have "(\<forall>i < length (t # ts). is_terminating (snd ((t # ts) ! i)) = (Suc i = length (t # ts))) \<longleftrightarrow>
      is_terminating b = (ts = []) \<and> (\<forall>i < length ts. is_terminating (snd (ts ! i)) = (Suc i = length ts))"
    using t by (auto simp: All_less_Suc2)
  then show ?case using Cons t by (auto simp: position_errors_Nil)
qed simp

lemma validate_chain_Nil:
  "validate_chain (ChainBuilder name ts) = [] \<longleftrightarrow> ts \<noteq> [] \<and> validate_transforms ts = []"
  by simp

subsection \<open>The contract of a chain\<close>

text \<open>
  The requests that went into a chain and were not answered yet: those of the rest of the chain and
  those a transform holds back itself.  \<^verbatim>\<open>RequestThrottling\<close> has no such state: the responses it makes
  lack the id of their request.
\<close>

primrec chain_chan ::
  "bool \<Rightarrow> ('b \<Rightarrow> message_id list \<Rightarrow> bool) \<Rightarrow> ('s \<Rightarrow> bool) \<Rightarrow> ('s \<Rightarrow> message_id list \<Rightarrow> bool)
     \<Rightarrow> ('b, 's) transform_and_metrics list \<Rightarrow> message_id list \<Rightarrow> bool" where
  "chain_chan ordered bchan rok schan [] ids = False"
| "chain_chan ordered bchan rok schan (m # ms) ids = (case tm_transform m of
     QueryTypeFilter f \<Rightarrow> held_ok (filtered_requests f) \<and> chain_chan ordered bchan rok schan ms ids
   | RequestThrottling _ \<Rightarrow> False
   | NullSink \<Rightarrow> ids = []
   | Loopback \<Rightarrow> ids = []
   | DebugReturner _ \<Rightarrow> ids = []
   | Coalesce k \<Rightarrow> (\<exists>a. ids = a @ map id (buffer k) \<and> chain_chan ordered bchan rok schan ms a)
   | Tee t \<Rightarrow> ordered \<and> tee_chan bchan (\<lambda>_. chain_chan ordered bchan rok schan ms) (t, ms) ids
   | Rewrite s \<Rightarrow> rok s \<and> chain_chan ordered bchan rok schan ms ids
   | Sink s \<Rightarrow> schan s ids
   | _ \<Rightarrow> chain_chan ordered bchan rok schan ms ids)"

text \<open>
  What the parameters promise: sub-chains and sinks keep the contract, and a rewriting transform
  leaves the ids of requests and responses alone.
\<close>

definition providers_ok ::
  "bool \<Rightarrow> ('b \<Rightarrow> message_id list \<Rightarrow> bool) \<Rightarrow> ('s \<Rightarrow> bool) \<Rightarrow> ('s \<Rightarrow> message_id list \<Rightarrow> bool) \<Rightarrow> ('b, 's) providers \<Rightarrow> bool" where
  "providers_ok ordered bchan rok schan P \<longleftrightarrow>
     transform_contract (accounted ordered) (pv_run P) bchan
   \<and> transform_contract (accounted ordered) (pv_sink P) schan
   \<and> (\<forall>ms s ms' s'. rok s \<longrightarrow> pv_before P ms s = (Ok ms', s') \<longrightarrow> map id ms' = map id ms \<and> rok s')
   \<and> (\<forall>rs s rs' s'. rok s \<longrightarrow> pv_after P rs s = (Ok rs', s') \<longrightarrow> map request_id rs' = map request_id rs \<and> rok s')"

lemma providers_ok_run: "providers_ok ordered bchan rok schan P \<Longrightarrow> transform_contract (accounted ordered) (pv_run P) bchan"
  and providers_ok_sink: "providers_ok ordered bchan rok schan P \<Longrightarrow> transform_contract (accounted ordered) (pv_sink P) schan"
  and providers_ok_before: "providers_ok ordered bchan rok schan P \<Longrightarrow> rok s \<Longrightarrow> pv_before P ms s = (Ok ms', s') \<Longrightarrow>
    map id ms' = map id ms \<and> rok s'"
  and providers_ok_after: "providers_ok ordered bchan rok schan P \<Longrightarrow> rok s \<Longrightarrow> pv_after P rs s = (Ok rs', s') \<Longrightarrow>
    map request_id rs' = map request_id rs \<and> rok s'"
  unfolding providers_ok_def by blast+

lemma tee_chan_mono:
  "tee_chan bchan chan (t, c) ids \<Longrightarrow> (\<And>x. chan c x \<Longrightarrow> chan' c x) \<Longrightarrow> tee_chan bchan chan' (t, c) ids"
  unfolding tee_chan_def by (auto split: if_splits result_source.splits) metis

text \<open>The rest of a chain is what a call of it leaves, or untouched.\<close>

lemma compare_rest:
  "compare_chains run sent om next t cs = (r, cs', t', c') \<Longrightarrow> \<exists>cs1 r1 cs2. next cs1 = (r1, cs2, c')"
  by (auto simp: compare_chains_def join_chains_def split: prod.splits sum.splits)

lemma tee_rest:
  "tee_transform E run sent next t cs = (r, cs', t', c') \<Longrightarrow> \<exists>cs1 r1 cs2. next cs1 = (r1, cs2, c')"
  by (cases "behavior t")
    (auto simp: tee_transform_def ignore_behaviour_def subchain_behaviour_def join_chains_def Let_def
      dest: compare_rest split: prod.splits sum.splits err.splits result_source.splits)

lemma transform_step_rest:
  assumes "transform_step P next c t cs = (r, cs', t', c')"
  shows "c' = c \<or> (\<exists>cs1 r1 cs2. next cs1 = (r1, cs2, c'))"
proof (cases t)
  case (Tee x)
  then obtain x' where "tee_transform (pv_env P) (pv_run P) (pv_sent P) next x cs = (r, cs', x', c')"
    using assms by (auto simp: transform_step_def as_transform_def split: prod.splits)
  then show ?thesis by (rule disjI2[OF tee_rest])
next
  case (QueryTypeFilter x)
  with assms show ?thesis
    by (auto simp: transform_step_def as_transform_def filter_transform_def Let_def split: prod.splits sum.splits)
next
  case (RequestThrottling x)
  with assms show ?thesis
    by (auto simp: transform_step_def as_transform_def throttling_transform_def Let_def split: prod.splits sum.splits)
next
  case (DebugLogToFile x)
  with assms show ?thesis
    by (auto simp: transform_step_def as_transform_def log_transform_def Let_def split: prod.splits sum.splits)
next
  case (Coalesce x)
  with assms show ?thesis
    by (auto simp: transform_step_def as_transform_def coalesce_transform_def Let_def split: prod.splits sum.splits if_splits)
qed (use assms in \<open>auto simp: transform_step_def as_transform_def terminal_def counter_transform_def
      force_parse_transform_def printer_transform_def rewrite_transform_def Let_def split: prod.splits sum.splits\<close>)

lemma call_from_length: "call_from P fin ms cs = (r, cs', ms') \<Longrightarrow> length ms' = length ms"
proof (induction ms arbitrary: cs r cs' ms')
  case (Cons m ms)
  then obtain t' ms1 where t: "transform_step P (call_from P fin ms) ms (tm_transform m) cs = (r, cs', t', ms1)"
    and "ms' = record_call r t' m # ms1" by (auto split: prod.splits)
  then show ?case using transform_step_rest[OF t] Cons(1) by auto
qed simp

lemma rewrite_accounts:
  assumes "transform_contract (accounted ordered) step chan" and ok: "providers_ok ordered bchan rok schan P"
    and "chan c ids" and "rok s" and r: "rewrite_transform P (\<lambda>cs. step cs c) c s cs = (Ok rs, cs', s', c')"
  shows "rok s' \<and> (\<exists>left. accounted ordered (ids @ map id (requests cs)) (answered rs) left \<and> chan c' left)"
proof -
  obtain ms s1 rs1 where b: "pv_before P (requests cs) s = (Ok ms, s1)"
    and s: "step (cs\<lparr>requests := ms\<rparr>) c = (Ok rs1, cs', c')" and a: "pv_after P rs1 s1 = (Ok rs, s')"
    using r by (auto simp: rewrite_transform_def split: prod.splits sum.splits)
  note before = providers_ok_before[OF ok assms(4) b]
  note after = providers_ok_after[OF ok conjunct2[OF before] a]
  show ?thesis using transform_contract.relabelled[OF assms(1,3) s, of cs rs] before after by simp
qed

lemma record_call_transform [simp]: "tm_transform (record_call r t m) = t"
  by (simp add: record_call_def split: sum.split err.split)

text \<open>One transform in front of a chain that keeps the contract.\<close>

lemma step_keeps_contract:
  fixes P :: "('b, 's) providers"
  assumes ok: "providers_ok ordered bchan rok schan P"
    and rest: "transform_contract (accounted ordered) (\<lambda>cs ms. call_from P fin ms cs)
      (\<lambda>ms ids. length ms = n \<and> chain_chan ordered bchan rok schan ms ids)"
    and n: "length ms = n" and chan: "chain_chan ordered bchan rok schan (m # ms) ids"
    and r: "transform_step P (call_from P fin ms) ms (tm_transform m) cs = (Ok rs, cs', t', ms')"
  shows "\<exists>left. accounted ordered (ids @ map id (requests cs)) (answered rs) left
    \<and> length ms' = n \<and> chain_chan ordered bchan rok schan (record_call (Ok rs) t' m # ms') left"
proof -
  let ?step = "\<lambda>cs ms. call_from P fin ms cs"
  let ?chan = "\<lambda>ms ids. length ms = n \<and> chain_chan ordered bchan rok schan ms ids"
  have eta: "call_from P fin ms = (\<lambda>cs. ?step cs ms)" by simp
  note acc_all = acc.account_all[of ordered "map id (requests cs)"]
  show ?thesis
  proof (cases "tm_transform m")
    case (QueryTypeFilter f)
    with r obtain f' where "filter_transform (pv_env P) (\<lambda>cs. ?step cs ms) ms f cs = (Ok rs, cs', f', ms')"
      and "t' = QueryTypeFilter f'" by (auto simp: transform_step_def as_transform_def split: prod.splits)
    then show ?thesis
      using transform_contract.filter_accounts[OF rest, of ms ids f "pv_env P" cs rs cs' f' ms'] n chan QueryTypeFilter
      by auto
  next
    case (RequestThrottling l)
    then show ?thesis using chan by simp
  next
    case NullSink
    with r have t: "null_transform (pv_env P) cs = (Ok rs, cs')" "t' = NullSink" "ms' = ms"
      by (auto simp: transform_step_def terminal_def split: prod.splits)
    show ?thesis using answered_all[OF null_answers[OF t(1)]] t(2,3) acc_all n chan NullSink by (auto intro!: exI[of _ "[]"])
  next
    case Loopback
    with r have t: "loopback_transform cs = (Ok rs, cs')" "t' = Loopback" "ms' = ms"
      by (auto simp: transform_step_def terminal_def split: prod.splits)
    show ?thesis using answered_all[OF loopback_answers[OF t(1)]] t(2,3) acc_all n chan Loopback by (auto intro!: exI[of _ "[]"])
  next
    case (DebugReturner response)
    with r have t: "returner_transform (pv_env P) response cs = (Ok rs, cs')" "t' = DebugReturner response" "ms' = ms"
      by (auto simp: transform_step_def terminal_def split: prod.splits)
    show ?thesis using answered_all[OF returner_answers[OF t(1)]] t(2,3) acc_all n chan DebugReturner
      by (auto intro!: exI[of _ "[]"])
  next
    case (QueryCounter cnt)
    with r obtain cnt' where "counter_transform (pv_env P) (\<lambda>cs. ?step cs ms) ms cnt cs = (Ok rs, cs', cnt', ms')"
      and "t' = QueryCounter cnt'" by (auto simp: transform_step_def as_transform_def split: prod.splits)
    then show ?thesis
      using transform_contract.counter_accounts[OF rest, of ms ids "pv_env P" cnt cs rs cs' cnt' ms'] n chan QueryCounter
      by auto
  next
    case (DebugForceParse p)
    with r obtain p' where "force_parse_transform (pv_env P) (\<lambda>cs. ?step cs ms) ms p cs = (Ok rs, cs', p', ms')"
      and "t' = DebugForceParse p'" by (auto simp: transform_step_def as_transform_def split: prod.splits)
    then show ?thesis
      using transform_contract.force_parse_accounts[OF rest, of ms ids "pv_env P" p cs rs cs' p' ms'] n chan DebugForceParse
      by auto
  next
    case (DebugPrinter k)
    with r obtain k' where "printer_transform (pv_env P) (\<lambda>cs. ?step cs ms) ms k cs = (Ok rs, cs', k', ms')"
      and "t' = DebugPrinter k'" by (auto simp: transform_step_def as_transform_def split: prod.splits)
    then show ?thesis
      using transform_contract.printer_accounts[OF rest, of ms ids "pv_env P" k cs rs cs' k' ms'] n chan DebugPrinter
      by auto
  next
    case (DebugLogToFile l)
    with r obtain l' where "log_transform (pv_env P) (\<lambda>cs. ?step cs ms) ms l cs = (Ok rs, cs', l', ms')"
      and "t' = DebugLogToFile l'" by (auto simp: transform_step_def as_transform_def split: prod.splits)
    then show ?thesis
      using transform_contract.log_accounts[OF rest, of ms ids "pv_env P" l cs rs cs' l' ms'] n chan DebugLogToFile
      by auto
  next
    case (Coalesce k)
    with r obtain k' where "coalesce_transform (pv_env P) (\<lambda>cs. ?step cs ms) ms k cs = (Ok rs, cs', k', ms')"
      and "t' = Coalesce k'" by (auto simp: transform_step_def as_transform_def split: prod.splits)
    moreover obtain a where "ids = a @ map id (buffer k)" "chain_chan ordered bchan rok schan ms a"
      using chan Coalesce by auto
    ultimately show ?thesis
      using transform_contract.coalesce_accounts[OF rest, of ms a "pv_env P" k cs rs cs' k' ms'] n by auto
  next
    case (Tee t)
    then have o: "ordered = True" using chan by simp
    from Tee r obtain t2 where tr: "tee_transform (pv_env P) (pv_run P) (pv_sent P) (\<lambda>cs. ?step cs ms) t cs = (Ok rs, cs', t2, ms')"
      and t2: "t' = Tee t2" by (auto simp: transform_step_def as_transform_def split: prod.splits)
    have "tee_chan bchan ?chan (t, ms) ids"
      using chan Tee n by (auto elim: tee_chan_mono)
    from tee_accounts[OF providers_ok_run[OF ok, unfolded o] rest[unfolded o] this[unfolded o] tr]
    obtain left where "accounted ordered (ids @ map id (requests cs)) (answered rs) left" "tee_chan bchan ?chan (t2, ms') left"
      unfolding o by blast
    moreover have "length ms' = n" using tee_rest[OF tr] call_from_length n by blast
    ultimately show ?thesis using o t2 by (auto elim: tee_chan_mono)
  next
    case (Rewrite s)
    with r obtain s' where "rewrite_transform P (\<lambda>cs. ?step cs ms) ms s cs = (Ok rs, cs', s', ms')"
      and "t' = Rewrite s'" by (auto simp: transform_step_def as_transform_def split: prod.splits)
    then show ?thesis
      using rewrite_accounts[OF rest ok, of ms ids s cs rs cs' s' ms'] n chan Rewrite by auto
  next
    case (Sink s)
    with r obtain s' where s: "pv_sink P cs s = (Ok rs, cs', s')" and "t' = Sink s'" "ms' = ms"
      by (auto simp: transform_step_def split: prod.splits)
    then show ?thesis
      using transform_contract.step_accounts[OF providers_ok_sink[OF ok] _ s] chan Sink n by auto
  qed
qed

lemma call_from_contract:
  assumes "providers_ok ordered bchan rok schan P"
  shows "transform_contract (accounted ordered) (\<lambda>cs ms. call_from P fin ms cs)
    (\<lambda>ms ids. length ms = n \<and> chain_chan ordered bchan rok schan ms ids)"
proof (induction n)
  case 0
  show ?case by unfold_locales auto
next
  case (Suc n)
  show ?case
  proof unfold_locales
    fix ms ids cs rs cs' ms'
    assume "length ms = Suc n \<and> chain_chan ordered bchan rok schan ms ids"
      and c: "call_from P fin ms cs = (Ok rs, cs', ms')"
    then obtain m ms1 where ms: "ms = m # ms1" "length ms1 = n" and chan: "chain_chan ordered bchan rok schan (m # ms1) ids"
      by (cases ms) auto
    obtain t' ms2 where t: "transform_step P (call_from P fin ms1) ms1 (tm_transform m) cs = (Ok rs, cs', t', ms2)"
      and ms': "ms' = record_call (Ok rs) t' m # ms2"
      using c ms(1) by (auto split: prod.splits)
    from step_keeps_contract[OF assms Suc ms(2) chan t] ms'
    show "\<exists>left. accounted ordered (ids @ map id (requests cs)) (answered rs) left
        \<and> length ms' = Suc n \<and> chain_chan ordered bchan rok schan ms' left" by auto
  qed
qed

definition transform_chain_chan ::
  "bool \<Rightarrow> ('b \<Rightarrow> message_id list \<Rightarrow> bool) \<Rightarrow> ('s \<Rightarrow> bool) \<Rightarrow> ('s \<Rightarrow> message_id list \<Rightarrow> bool)
     \<Rightarrow> ('b, 's) transform_chain \<Rightarrow> message_id list \<Rightarrow> bool" where
  "transform_chain_chan ordered bchan rok schan tc ids = chain_chan ordered bchan rok schan (tc_chain tc) ids"

text \<open>A chain keeps the contract, so it can be a sub-chain of another one.\<close>

lemma process_request_contract:
  assumes "providers_ok ordered bchan rok schan P"
  shows "transform_contract (accounted ordered) (process_request P) (transform_chain_chan ordered bchan rok schan)"
proof unfold_locales
  fix tc ids cs rs cs' and tc' :: "('a, 'b) transform_chain"
  assume chan: "transform_chain_chan ordered bchan rok schan tc ids" and p: "process_request P cs tc = (Ok rs, cs', tc')"
  obtain ms where c: "call_from P end_of_chain (tc_chain tc) (cs\<lparr>chain_name := tc_name tc\<rparr>) = (Ok rs, cs', ms)"
    and "tc_chain tc' = ms"
    using p by (auto simp: process_request_def call_next_transform_def Let_def split: prod.splits sum.splits)
  with transform_contract.step_accounts[OF call_from_contract[OF assms] _ c, of "length (tc_chain tc)" ids] chan
  show "\<exists>left. accounted ordered (ids @ map id (requests cs)) (answered rs) left
      \<and> transform_chain_chan ordered bchan rok schan tc' left"
    by (auto simp: transform_chain_chan_def)
qed

text \<open>A freshly built chain has no requests outstanding, if its sinks and sub-chains have none.\<close>

fun contract_builder :: "bool \<Rightarrow> 's builder \<Rightarrow> bool" where
  "contract_builder ordered (ThrottlingBuilder _ _) = False"
| "contract_builder ordered (TeeBuilder _ _ _ inorder) = (ordered \<and> inorder)"
| "contract_builder ordered _ = True"

lemma coalesce_build_buffer [simp]: "buffer (coalesce_build E b) = []"
  by (simp add: coalesce_build_def Let_def split: option.split)

lemma built_chain_chan:
  assumes "validate_transforms ts = []" and "ts \<noteq> []" and "\<forall>(n, b) \<in> set ts. contract_builder ordered b"
    and "\<forall>b. schan (mk b) [] \<and> rok (mk b)" and "\<forall>cb. bchan (sub cb) []"
  shows "chain_chan ordered bchan rok schan (map (\<lambda>(n, b). \<lparr>tm_transform = build_transform E sub mk b, tm_name = n,
           transform_total = 0, transform_failures = 0\<rparr>) ts) []"
  using assms(1-3)
proof (induction ts)
  case (Cons t ts)
  obtain n b where t: "t = (n, b)" by fastforce
  have b: "is_terminating b = (ts = [])" and v: "validate_transforms ts = []" and cb: "contract_builder ordered b"
    using Cons(2,4) t by (auto simp: position_errors_Nil)
  show ?case
  proof (cases "ts = []")
    case True
    then show ?thesis using b t cb assms(4) by (cases b) (auto simp: build_transform_def)
  next
    case False
    with Cons(1)[OF v False] Cons(4) b t cb show ?thesis
      by (cases b)
        (auto simp: build_transform_def held_ok_def tee_chan_def tee_build_def build_buffered_def assms(4,5)
          split: option.split behavior_builder.split result_source.split)
  qed
qed simp

end
