(* ===== verification/Topology.thy ===== *)
theory Topology
  imports Transform_Chain "HOL-Library.List_Lexorder" "HOL-Library.Char_ord"
begin

text \<open>
  Starting from a configuration: the builder of a chain with its check of protocols
  (\<^verbatim>\<open>src/shotover/src/config/chain.rs\<close>), the start of a source (\<^verbatim>\<open>SourceTask::start\<close>) up to its errors,
  and \<^verbatim>\<open>Topology::run_chains\<close> with its check of names (\<^verbatim>\<open>src/shotover/src/config/topology.rs\<close>).

  The configuration is the value that the YAML file is deserialised to.  Opening a listener and
  what the protocol specific transforms do to get their builder (resolving addresses, loading
  certificates) are parameters.
\<close>

subsection \<open>Configurations\<close>

datatype sink_kind =
    ValkeySinkSingle | ValkeySinkCluster | KafkaSinkSingle | KafkaSinkCluster
  | CassandraSinkSingle | CassandraSinkCluster | OpenSearchSinkSingle
  | CassandraPeersRewrite | ValkeyClusterPortsRewrite | ValkeyCache

datatype config =
    FilterConfig query_filter
  | ThrottlingConfig nat
  | NullSinkConfig
  | ReturnerConfig returner_response
  | CounterConfig string
  | ForceParseConfig bool bool
  | ForceEncodeConfig bool bool
  | PrinterConfig
  | LogConfig
  | CoalesceConfig coalesce_builder
  | TeeConfig "(string \<times> config) list" "(string \<times> config) list behavior_builder option"
  | ParallelMapConfig nat "(string \<times> config) list" bool
  | BalanceConfig nat "(string \<times> config) list"
  | CacheConfig "(string \<times> config) list"
  | SinkConfig sink_kind

type_synonym chain_config = "(string \<times> config) list"

fun sink_name :: "sink_kind \<Rightarrow> string" where
  "sink_name ValkeySinkSingle = ''ValkeySinkSingle''"
| "sink_name ValkeySinkCluster = ''ValkeySinkCluster''"
| "sink_name KafkaSinkSingle = ''KafkaSinkSingle''"
| "sink_name KafkaSinkCluster = ''KafkaSinkCluster''"
| "sink_name CassandraSinkSingle = ''CassandraSinkSingle''"
| "sink_name CassandraSinkCluster = ''CassandraSinkCluster''"
| "sink_name OpenSearchSinkSingle = ''OpenSearchSinkSingle''"
| "sink_name CassandraPeersRewrite = ''CassandraPeersRewrite''"
| "sink_name ValkeyClusterPortsRewrite = ''ValkeyClusterPortsRewrite''"
| "sink_name ValkeyCache = ''ValkeyCache''"

fun typetag_name :: "config \<Rightarrow> string" where
  "typetag_name (FilterConfig _) = ''QueryTypeFilter''"
| "typetag_name (ThrottlingConfig _) = ''RequestThrottling''"
| "typetag_name NullSinkConfig = ''NullSink''"
| "typetag_name (ReturnerConfig _) = ''DebugReturner''"
| "typetag_name (CounterConfig _) = ''QueryCounter''"
| "typetag_name (ForceParseConfig _ _) = ''DebugForceParse''"
| "typetag_name (ForceEncodeConfig _ _) = ''DebugForceEncode''"
| "typetag_name PrinterConfig = ''DebugPrinter''"
| "typetag_name LogConfig = ''DebugLogToFile''"
| "typetag_name (CoalesceConfig _) = ''Coalesce''"
| "typetag_name (TeeConfig _ _) = ''Tee''"
| "typetag_name (ParallelMapConfig _ _ _) = ''ParallelMap''"
| "typetag_name (BalanceConfig _ _) = ''ConnectionBalanceAndPool''"
| "typetag_name (CacheConfig _) = ''ValkeyCache''"
| "typetag_name (SinkConfig k) = sink_name k"

datatype up_chain_protocol = MustBeOneOf "message_type list" | AnyProtocol
datatype down_chain_protocol = TransformedTo message_type | SameAsUpChain | Terminating

fun sink_protocol :: "sink_kind \<Rightarrow> message_type" where
  "sink_protocol ValkeySinkSingle = Valkey"
| "sink_protocol ValkeySinkCluster = Valkey"
| "sink_protocol ValkeyClusterPortsRewrite = Valkey"
| "sink_protocol KafkaSinkSingle = Kafka"
| "sink_protocol KafkaSinkCluster = Kafka"
| "sink_protocol OpenSearchSinkSingle = OpenSearch"
| "sink_protocol CassandraSinkSingle = Cassandra"
| "sink_protocol CassandraSinkCluster = Cassandra"
| "sink_protocol CassandraPeersRewrite = Cassandra"
| "sink_protocol ValkeyCache = Cassandra"

fun up_protocol :: "config \<Rightarrow> up_chain_protocol" where
  "up_protocol (ThrottlingConfig _) = MustBeOneOf [Cassandra]"
| "up_protocol (CacheConfig _) = MustBeOneOf [Cassandra]"
| "up_protocol (SinkConfig k) = MustBeOneOf [sink_protocol k]"
| "up_protocol _ = AnyProtocol"

fun down_protocol :: "config \<Rightarrow> down_chain_protocol" where
  "down_protocol NullSinkConfig = Terminating"
| "down_protocol (ParallelMapConfig _ _ _) = Terminating"
| "down_protocol (SinkConfig k) =
    (if k \<in> {CassandraPeersRewrite, ValkeyClusterPortsRewrite, ValkeyCache} then SameAsUpChain else Terminating)"
| "down_protocol _ = SameAsUpChain"

text \<open>The protocol of the next transform: unchanged after a terminating one.\<close>

definition next_protocol :: "config \<Rightarrow> message_type \<Rightarrow> message_type" where
  "next_protocol c up = (case down_protocol c of TransformedTo new \<Rightarrow> new | _ \<Rightarrow> up)"

definition accepts :: "config \<Rightarrow> message_type \<Rightarrow> bool" where
  "accepts c up = (case up_protocol c of MustBeOneOf ps \<Rightarrow> up \<in> set ps | AnyProtocol \<Rightarrow> True)"

fun show_protocol :: "message_type \<Rightarrow> string" where
  "show_protocol Valkey = ''Valkey''"
| "show_protocol Cassandra = ''Cassandra''"
| "show_protocol Kafka = ''Kafka''"
| "show_protocol OpenSearch = ''OpenSearch''"
| "show_protocol Dummy = ''Dummy''"

fun show_protocols :: "message_type list \<Rightarrow> string" where
  "show_protocols [] = []"
| "show_protocols [p] = show_protocol p"
| "show_protocols (p # ps) = show_protocol p @ '', '' @ show_protocols ps"

definition protocol_error :: "config \<Rightarrow> message_type \<Rightarrow> string" where
  "protocol_error c up = ''Transform '' @ typetag_name c @ '' requires upchain protocol to be one of ['' @
     show_protocols (case up_protocol c of MustBeOneOf ps \<Rightarrow> ps | AnyProtocol \<Rightarrow> []) @ ''] but was '' @ show_protocol up"

subsection \<open>Builders\<close>

text \<open>\<open>prep k\<close> is what \<^verbatim>\<open>get_builder\<close> of a protocol specific transform does besides making the builder.\<close>

definition indexed_name :: "string \<Rightarrow> nat \<Rightarrow> string" where
  "indexed_name name i = name @ ''['' @ show_nat i @ '']''"

fun get_builder :: "(sink_kind \<Rightarrow> unit result) \<Rightarrow> message_type \<Rightarrow> string \<Rightarrow> config \<Rightarrow> sink_kind builder result"
  and get_builders :: "(sink_kind \<Rightarrow> unit result) \<Rightarrow> message_type \<Rightarrow> (string \<times> config) list \<Rightarrow> (string \<times> sink_kind builder) list result" where
  "get_builder prep up name (FilterConfig f) = Ok (FilterBuilder f)"
| "get_builder prep up name (ThrottlingConfig n) = Ok (ThrottlingBuilder 0 n)"
| "get_builder prep up name NullSinkConfig = Ok NullBuilder"
| "get_builder prep up name (ReturnerConfig r) = Ok (ReturnerBuilder r)"
| "get_builder prep up name (CounterConfig _) = Ok CounterBuilder"
| "get_builder prep up name (ForceParseConfig rq rs) = Ok (ForceParseBuilder ''DebugForceParse''
     \<lparr>parse_requests = rq, parse_responses = rs, encode_requests = False, encode_responses = False\<rparr>)"
| "get_builder prep up name (ForceEncodeConfig rq rs) = Ok (ForceParseBuilder ''DebugForceEncode''
     \<lparr>parse_requests = rq, parse_responses = rs, encode_requests = rq, encode_responses = rs\<rparr>)"
| "get_builder prep up name PrinterConfig = Ok PrinterBuilder"
| "get_builder prep up name LogConfig = Ok (LogBuilder 0)"
| "get_builder prep up name (CoalesceConfig k) = Ok (CoalesceBuilder k)"
| "get_builder prep up name (TeeConfig chain behaviour) =
    bind_result (case behaviour of
        Some (BSubchainOnMismatch mismatch) \<Rightarrow>
          bind_result (get_builders prep up mismatch) (\<lambda>bs. Ok (BSubchainOnMismatch (ChainBuilder (name @ ''.mismatch'') bs)))
      | Some BFailOnMismatch \<Rightarrow> Ok BFailOnMismatch
      | Some BLogWarningOnMismatch \<Rightarrow> Ok BLogWarningOnMismatch
      | Some BIgnore \<Rightarrow> Ok BIgnore
      | None \<Rightarrow> Ok BIgnore) (\<lambda>b.
    bind_result (get_builders prep up chain) (\<lambda>bs.
    Ok (TeeBuilder (ChainBuilder name bs) b RegularChain (is_inorder up))))"
| "get_builder prep up name (ParallelMapConfig n chain ordered) =
    (if n = 0 then Ok (ParallelMapBuilder [] ordered)
     else bind_result (get_builders prep up chain) (\<lambda>bs.
          Ok (ParallelMapBuilder (map (\<lambda>i. ChainBuilder (indexed_name name i) bs) [0..<n]) ordered)))"
| "get_builder prep up name (BalanceConfig n chain) =
    bind_result (get_builders prep up chain) (\<lambda>bs. Ok (BalanceBuilder (ChainBuilder name bs) n))"
| "get_builder prep up name (CacheConfig chain) =
    bind_result (get_builders prep Valkey chain) (\<lambda>bs.
    Ok (RewriteBuilder ''ValkeyCache'' ValkeyCache (Some (ChainBuilder name bs))))"
| "get_builder prep up name (SinkConfig k) = bind_result (prep k) (\<lambda>_.
    Ok (if k \<in> {CassandraPeersRewrite, ValkeyClusterPortsRewrite, ValkeyCache}
        then RewriteBuilder (sink_name k) k None else SinkBuilder (sink_name k) k))"
| "get_builders prep up [] = Ok []"
| "get_builders prep up ((name, c) # cs) =
    (if accepts c up
     then bind_result (get_builder prep up name c) (\<lambda>b.
          bind_result (get_builders prep (next_protocol c up) cs) (\<lambda>bs. Ok ((name, b) # bs)))
     else Inl (Err (protocol_error c up)))"

definition chain_get_builder ::
  "(sink_kind \<Rightarrow> unit result) \<Rightarrow> string \<Rightarrow> message_type \<Rightarrow> chain_config \<Rightarrow> sink_kind chain_builder result" where
  "chain_get_builder prep name up cs = bind_result (get_builders prep up cs) (\<lambda>bs. Ok (ChainBuilder name bs))"

subsection \<open>Sources\<close>

record source_config =
  src_name :: string
  src_listen_addr :: string
  src_protocol :: message_type
  src_chain :: chain_config

text \<open>\<^verbatim>\<open>rsplit_once(':')\<close> and \<^verbatim>\<open>parse::<u16>\<close>.\<close>

definition digits_value :: "string \<Rightarrow> nat option" where
  "digits_value s = (if s \<noteq> [] \<and> list_all (\<lambda>c. 48 \<le> (of_char c :: nat) \<and> (of_char c :: nat) \<le> 57) s
     then Some (fold (\<lambda>c n. 10 * n + ((of_char c :: nat) - 48)) s 0) else None)"

definition parse_u16 :: "string \<Rightarrow> nat option" where
  "parse_u16 s = (case digits_value (if s \<noteq> [] \<and> hd s = CHR ''+'' then tl s else s) of
     Some n \<Rightarrow> if n < 65536 then Some n else None | None \<Rightarrow> None)"

definition listen_port :: "string \<Rightarrow> nat option" where
  "listen_port addr = (if CHR '':'' \<in> set addr then parse_u16 (rev (takeWhile (\<lambda>c. c \<noteq> CHR '':'') (rev addr))) else None)"

text \<open>
  \<^verbatim>\<open>SourceTask::start\<close> up to the point where the listener runs: the listeners handed over by a hot
  reload are known by their ports; \<open>bind\<close> opens a new one.
\<close>

definition source_start ::
  "(sink_kind \<Rightarrow> unit result) \<Rightarrow> (string \<Rightarrow> unit result) \<Rightarrow> source_config \<Rightarrow> nat list
     \<Rightarrow> (string list + sink_kind chain_builder) \<times> nat list" where
  "source_start prep bind src listeners =
    (case chain_get_builder prep (src_name src) (src_protocol src) (src_chain src) of
       Inl (Err e) \<Rightarrow> (Inl [e], listeners)
     | Inl (Panic e) \<Rightarrow> (Inl [e], listeners)
     | Inr builder \<Rightarrow>
        (let errors = indent (validate_chain builder) in
         case listen_port (src_listen_addr src) of
           None \<Rightarrow> (Inl [''Invalid listening address '' @ quoted (src_listen_addr src)
                     @ '', must follow the format ip_address:port e.g. 10.0.0.1:9042''], listeners)
         | Some port \<Rightarrow>
            (let reused = port \<in> set listeners;
                 errors2 = errors @ (if reused then []
                   else (case bind (src_listen_addr src) of
                       Inr _ \<Rightarrow> [] | Inl (Err e) \<Rightarrow> [e] | Inl (Panic e) \<Rightarrow> [e])) in
             (if errors2 = [] then Inr builder else Inl ((src_name src @ '' source:'') # errors2),
              removeAll port listeners))))"

subsection \<open>Names\<close>

record name_state =
  source_uses :: "(string \<times> string list) list"
  transform_uses :: "(string \<times> string list) list"
  chain_uses :: "(string \<times> string list) list"

definition register_source :: "string \<Rightarrow> string \<Rightarrow> name_state \<Rightarrow> name_state" where
  "register_source name usage st = st\<lparr>source_uses := push_to name usage (source_uses st)\<rparr>"

definition register_transform :: "string \<Rightarrow> string \<Rightarrow> name_state \<Rightarrow> name_state" where
  "register_transform name usage st = st\<lparr>transform_uses := push_to name usage (transform_uses st)\<rparr>"

definition register_chain :: "string \<Rightarrow> string \<Rightarrow> name_state \<Rightarrow> name_state" where
  "register_chain name usage st = st\<lparr>chain_uses := push_to name usage (chain_uses st)\<rparr>"

text \<open>A \<^verbatim>\<open>BTreeMap\<close> is iterated in the order of its keys.\<close>

definition duplicate_names :: "(string \<times> string list) list \<Rightarrow> (string \<times> string list) list" where
  "duplicate_names uses = filter (\<lambda>(_, us). 1 < length us) (sort_key fst uses)"

fun sub_chain_configs :: "string \<Rightarrow> config \<Rightarrow> (chain_config \<times> string) list" where
  "sub_chain_configs name (TeeConfig chain behaviour) =
    (chain, name) # (case behaviour of Some (BSubchainOnMismatch m) \<Rightarrow> [(m, name @ ''.mismatch'')] | _ \<Rightarrow> [])"
| "sub_chain_configs name (ParallelMapConfig n chain _) = map (\<lambda>i. (chain, indexed_name name i)) [0..<n]"
| "sub_chain_configs name (BalanceConfig _ chain) = [(chain, name)]"
| "sub_chain_configs name (CacheConfig chain) = [(chain, name)]"
| "sub_chain_configs name _ = []"

lemma sub_chain_smaller:
  "(sub, nm) \<in> set (sub_chain_configs name c) \<Longrightarrow> size_list (size_prod (\<lambda>_. 0) size) sub < size c"
  by (cases "(name, c)" rule: sub_chain_configs.cases) (auto split: option.splits behavior_builder.splits)

definition transform_usage :: "string \<Rightarrow> nat \<Rightarrow> string \<Rightarrow> config \<Rightarrow> string" where
  "transform_usage path i name c = ''Transform['' @ show_nat i @ ''] '' @ typetag_name c @ '' named '' @ quoted name @ '' in '' @ path"

definition sub_chain_path :: "string \<Rightarrow> string \<Rightarrow> string \<Rightarrow> config \<Rightarrow> string" where
  "sub_chain_path path sub name c = path @ '' -> subchain '' @ quoted sub @ '' (from Transform '' @ typetag_name c
     @ '' named '' @ quoted name @ '')''"

function collect_chain_names :: "string \<Rightarrow> nat \<Rightarrow> chain_config \<Rightarrow> name_state \<Rightarrow> name_state" where
  "collect_chain_names path i [] st = st"
| "collect_chain_names path i ((name, c) # cs) st =
    collect_chain_names path (Suc i) cs
      (fold (\<lambda>(sub, nm) st.
          collect_chain_names (sub_chain_path path nm name c) 0 sub
            (register_chain nm (''chain '' @ quoted nm @ '' at '' @ sub_chain_path path nm name c) st))
        (sub_chain_configs name c)
        (register_transform name (transform_usage path i name c) st))"
  by pat_completeness auto
termination
  by (relation "measure (\<lambda>(_, _, cs, _). size_list (size_prod (\<lambda>_. 0) size) cs)") (auto dest: sub_chain_smaller)

definition collect_source_names :: "nat \<Rightarrow> source_config \<Rightarrow> name_state \<Rightarrow> name_state" where
  "collect_source_names index src st =
    (let name = src_name src; sn = ''source['' @ show_nat index @ ''] '' @ quoted name in
     collect_chain_names (sn @ '' chain '' @ quoted name) 0 (src_chain src)
       (register_chain name (''root chain for '' @ sn) (register_source name sn st)))"

definition collect_names :: "source_config list \<Rightarrow> name_state" where
  "collect_names srcs = fold (\<lambda>(i, src). collect_source_names i src) (enumerate 0 srcs)
     \<lparr>source_uses = [], transform_uses = [], chain_uses = []\<rparr>"

definition newline :: string where
  "newline = [CHR 0x0A]"

definition report_duplicates :: "string \<Rightarrow> (string \<times> string list) list \<Rightarrow> string" where
  "report_duplicates what uses = (case duplicate_names uses of
     [] \<Rightarrow> []
   | dups \<Rightarrow> ''Duplicate '' @ what @ '' names detected:'' @ newline
       @ concat (map (\<lambda>(name, us). ''  '' @ quoted name @ '' used by:'' @ newline
           @ concat (map (\<lambda>u. ''    '' @ u @ newline) us)) dups))"

fun join_lines :: "string list \<Rightarrow> string" where
  "join_lines [] = []"
| "join_lines [l] = l"
| "join_lines (l # ls) = l @ newline @ join_lines ls"

text \<open>The sources are all built, their errors collected.\<close>

fun build_sources ::
  "(sink_kind \<Rightarrow> unit result) \<Rightarrow> (string \<Rightarrow> unit result) \<Rightarrow> source_config list \<Rightarrow> nat list
     \<Rightarrow> string \<times> sink_kind chain_builder list" where
  "build_sources prep bind [] listeners = ([], [])"
| "build_sources prep bind (src # srcs) listeners = (case source_start prep bind src listeners of
     (Inr b, listeners') \<Rightarrow> (case build_sources prep bind srcs listeners' of (es, bs) \<Rightarrow> (es, b # bs))
   | (Inl errors, listeners') \<Rightarrow> (case build_sources prep bind srcs listeners' of (es, bs) \<Rightarrow>
       ((if errors = [] then [] else join_lines errors @ newline) @ es, bs)))"

definition run_chains ::
  "(sink_kind \<Rightarrow> unit result) \<Rightarrow> (string \<Rightarrow> unit result) \<Rightarrow> source_config list \<Rightarrow> nat list \<Rightarrow> sink_kind chain_builder list result" where
  "run_chains prep bind srcs listeners =
    (let st = collect_names srcs;
         names = report_duplicates ''source'' (source_uses st) @ report_duplicates ''transform'' (transform_uses st)
                   @ report_duplicates ''chain'' (chain_uses st) in
     case build_sources prep bind srcs listeners of (es, bs) \<Rightarrow>
       if names @ es = [] then Ok bs else Inl (Err (''Topology errors'' @ newline @ names @ es)))"

subsection \<open>Well-typed chains\<close>

text \<open>
  A chain is well typed for a protocol when each transform accepts the protocol that reaches it,
  in its sub-chains as well.
\<close>

inductive well_typed :: "message_type \<Rightarrow> chain_config \<Rightarrow> bool" and sub_typed :: "message_type \<Rightarrow> config \<Rightarrow> bool" where
  wt_nil: "well_typed up []"
| wt_cons: "accepts c up \<Longrightarrow> sub_typed up c \<Longrightarrow> well_typed (next_protocol c up) cs \<Longrightarrow> well_typed up ((name, c) # cs)"
| st_tee: "well_typed up chain \<Longrightarrow> (\<And>m. behaviour = Some (BSubchainOnMismatch m) \<Longrightarrow> well_typed up m) \<Longrightarrow>
    sub_typed up (TeeConfig chain behaviour)"
| st_parallel: "(n \<noteq> 0 \<Longrightarrow> well_typed up chain) \<Longrightarrow> sub_typed up (ParallelMapConfig n chain ordered)"
| st_balance: "well_typed up chain \<Longrightarrow> sub_typed up (BalanceConfig n chain)"
| st_cache: "well_typed Valkey chain \<Longrightarrow> sub_typed up (CacheConfig chain)"
| st_other: "sub_chain_configs [] c = [] \<Longrightarrow> (\<forall>n chain ordered. c \<noteq> ParallelMapConfig n chain ordered) \<Longrightarrow> sub_typed up c"

inductive_cases well_typed_ConsE: "well_typed up ((name, c) # cs)"
inductive_cases sub_typed_TeeE: "sub_typed up (TeeConfig chain behaviour)"
inductive_cases sub_typed_ParallelE: "sub_typed up (ParallelMapConfig n chain ordered)"
inductive_cases sub_typed_BalanceE: "sub_typed up (BalanceConfig n chain)"
inductive_cases sub_typed_CacheE: "sub_typed up (CacheConfig chain)"

text \<open>Building a chain succeeds exactly when it is well typed, if the protocol specific prep does.\<close>

lemma get_builders_typed:
  "get_builder prep up name c = Ok b \<Longrightarrow> sub_typed up c"
  "get_builders prep up cs = Ok bs \<Longrightarrow> well_typed up cs"
proof (induction prep up name c and prep up cs arbitrary: b and bs rule: get_builder_get_builders.induct)
  case (11 prep up name chain behaviour)
  show ?case
  proof (rule st_tee)
    show "well_typed up chain" using 11 by (auto simp: result)
    show "well_typed up m" if "behaviour = Some (BSubchainOnMismatch m)" for m
      using 11(1)[OF that refl] 11(3) that by (auto simp: result)
  qed
next
  case (12 prep up name n chain ordered)
  then show ?case by (auto simp: result intro!: st_parallel)
next
  case (13 prep up name n chain)
  then show ?case by (auto simp: result intro: st_balance)
next
  case (14 prep up name chain)
  then show ?case by (auto simp: result intro: st_cache)
next
  case (17 prep up name c cs)
  then show ?case by (auto simp: result split: if_splits intro: wt_cons)
qed (auto intro: wt_nil st_other)

lemma typed_get_builders:
  assumes "\<forall>k. prep k = Ok ()"
  shows "sub_typed up c \<Longrightarrow> \<exists>b. get_builder prep up name c = Ok b"
    and "well_typed up cs \<Longrightarrow> \<exists>bs. get_builders prep up cs = Ok bs"
  using assms
proof (induction prep up name c and prep up cs rule: get_builder_get_builders.induct)
  case (11 prep up name chain behaviour)
  then show ?case
    by (auto elim!: sub_typed_TeeE split: option.split behavior_builder.split)
next
  case (12 prep up name n chain ordered)
  then show ?case by (auto elim!: sub_typed_ParallelE)
next
  case (13 prep up name n chain)
  then show ?case by (auto elim!: sub_typed_BalanceE)
next
  case (14 prep up name chain)
  then show ?case by (auto elim!: sub_typed_CacheE)
next
  case (17 prep up name c cs)
  then show ?case by (auto elim!: well_typed_ConsE)
qed auto

subsection \<open>Unique names\<close>

text \<open>The names of all transforms of a chain, with those of its sub-chains, in the order they are registered.\<close>

function transform_names :: "chain_config \<Rightarrow> string list" where
  "transform_names [] = []"
| "transform_names ((name, c) # cs) =
    name # concat (map (\<lambda>(sub, nm). transform_names sub) (sub_chain_configs name c)) @ transform_names cs"
  by pat_completeness auto
termination
  by (relation "measure (size_list (size_prod (\<lambda>_. 0) size))") (auto dest: sub_chain_smaller)

definition uses :: "(string \<times> string list) list \<Rightarrow> string \<Rightarrow> nat" where
  "uses m name = (case map_of m name of None \<Rightarrow> 0 | Some us \<Rightarrow> length us)"

lemma uses_push_to [simp]: "uses (push_to k u m) name = uses m name + (if name = k then 1 else 0)"
  by (simp add: uses_def map_of_push_to split: option.split)

lemma duplicate_names_Nil:
  assumes "distinct (map fst m)"
  shows "duplicate_names m = [] \<longleftrightarrow> (\<forall>name. uses m name \<le> 1)"
proof -
  have "duplicate_names m = [] \<longleftrightarrow> (\<forall>(k, us) \<in> set m. length us \<le> 1)"
    by (auto simp: duplicate_names_def filter_empty_conv not_less)
  also have "\<dots> \<longleftrightarrow> (\<forall>name. uses m name \<le> 1)"
  proof
    assume all: "\<forall>(k, us) \<in> set m. length us \<le> 1"
    show "\<forall>name. uses m name \<le> 1"
      using all by (auto simp: uses_def dest: map_of_SomeD split: option.split)
  next
    assume all: "\<forall>name. uses m name \<le> 1"
    show "\<forall>(k, us) \<in> set m. length us \<le> 1"
    proof safe
      fix k us assume "(k, us) \<in> set m"
      then have "map_of m k = Some us" using assms by (simp add: map_of_eq_Some_iff)
      then show "length us \<le> 1" using all[rule_format, of k] by (simp add: uses_def)
    qed
  qed
  finally show ?thesis .
qed

lemma register_simps [simp]:
  "transform_uses (register_transform n u st) = push_to n u (transform_uses st)"
  "source_uses (register_transform n u st) = source_uses st"
  "transform_uses (register_chain n u st) = transform_uses st"
  "source_uses (register_chain n u st) = source_uses st"
  "transform_uses (register_source n u st) = transform_uses st"
  "source_uses (register_source n u st) = push_to n u (source_uses st)"
  by (simp_all add: register_transform_def register_chain_def register_source_def)

definition names_added :: "name_state \<Rightarrow> string list \<Rightarrow> name_state \<Rightarrow> bool" where
  "names_added st names st' \<longleftrightarrow>
     (distinct (map fst (transform_uses st)) \<longrightarrow> distinct (map fst (transform_uses st')))
   \<and> source_uses st' = source_uses st
   \<and> (\<forall>name. uses (transform_uses st') name = uses (transform_uses st) name + count_list names name)"

lemma names_added_refl: "names_added st [] st"
  and names_added_trans: "names_added st a st1 \<Longrightarrow> names_added st1 b st2 \<Longrightarrow> names_added st (a @ b) st2"
  and names_added_transform: "names_added st [n] (register_transform n u st)"
  and names_added_chain: "names_added (register_chain n u st) a st1 \<Longrightarrow> names_added st a st1"
  by (auto simp: names_added_def count_list_append distinct_push_to)

lemma collect_chain_names_added: "names_added st (transform_names cs) (collect_chain_names path i cs st)"
proof (induction path i cs st rule: collect_chain_names.induct)
  case (1 path i st)
  then show ?case by (simp add: names_added_refl)
next
  case (2 path i name c cs st)
  let ?f = "\<lambda>(sub, nm) st. collect_chain_names (sub_chain_path path nm name c) 0 sub
      (register_chain nm (''chain '' @ quoted nm @ '' at '' @ sub_chain_path path nm name c) st)"
  let ?st = "register_transform name (transform_usage path i name c) st"
  have step: "names_added st1 (transform_names sub) (?f (sub, nm) st1)" if "(sub, nm) \<in> set (sub_chain_configs name c)" for sub nm st1
    using 2(1)[OF that refl] by (auto intro: names_added_chain)
  have "names_added st1 (concat (map (\<lambda>(sub, nm). transform_names sub) xs)) (fold ?f xs st1)"
    if "set xs \<subseteq> set (sub_chain_configs name c)" for xs st1
    using that
  proof (induction xs arbitrary: st1)
    case Nil
    show ?case by (simp add: names_added_refl)
  next
    case (Cons x xs)
    obtain sub nm where x: "x = (sub, nm)" by fastforce
    have "names_added st1 (transform_names sub) (?f x st1)" using step[of sub nm st1] Cons(2) x by simp
    from names_added_trans[OF this Cons(1)] Cons(2) x show ?case by simp
  qed
  from names_added_trans[OF names_added_trans[OF names_added_transform this[OF subset_refl]] 2(2)]
  show ?case by simp
qed

definition topology_names :: "source_config list \<Rightarrow> string list" where
  "topology_names srcs = concat (map (\<lambda>src. transform_names (src_chain src)) srcs)"

lemma collect_names_uses:
  "distinct (map fst (transform_uses (collect_names srcs)))"
  "distinct (map fst (source_uses (collect_names srcs)))"
  "uses (transform_uses (collect_names srcs)) name = count_list (topology_names srcs) name"
  "uses (source_uses (collect_names srcs)) name = count_list (map src_name srcs) name"
proof -
  let ?f = "\<lambda>(i, src). collect_source_names i src"
  have "(distinct (map fst (transform_uses st)) \<longrightarrow> distinct (map fst (transform_uses (fold ?f (enumerate i srcs) st))))
      \<and> (distinct (map fst (source_uses st)) \<longrightarrow> distinct (map fst (source_uses (fold ?f (enumerate i srcs) st))))
      \<and> (\<forall>name. uses (transform_uses (fold ?f (enumerate i srcs) st)) name = uses (transform_uses st) name + count_list (topology_names srcs) name)
      \<and> (\<forall>name. uses (source_uses (fold ?f (enumerate i srcs) st)) name = uses (source_uses st) name + count_list (map src_name srcs) name)"
    for i st
  proof (induction srcs arbitrary: i st)
    case Nil
    show ?case by (simp add: topology_names_def)
  next
    case (Cons src srcs)
    let ?s1 = "register_chain (src_name src) (''root chain for '' @ ''source['' @ show_nat i @ ''] '' @ quoted (src_name src))
        (register_source (src_name src) (''source['' @ show_nat i @ ''] '' @ quoted (src_name src)) st)"
    have "names_added ?s1 (transform_names (src_chain src)) (collect_source_names i src st)"
      unfolding collect_source_names_def Let_def by (rule collect_chain_names_added)
    then show ?case using Cons[of "collect_source_names i src st" "Suc i"]
      by (auto simp: names_added_def topology_names_def count_list_append distinct_push_to)
  qed
  from this[of "\<lparr>source_uses = [], transform_uses = [], chain_uses = []\<rparr>" 0]
  show "distinct (map fst (transform_uses (collect_names srcs)))" "distinct (map fst (source_uses (collect_names srcs)))"
    "uses (transform_uses (collect_names srcs)) name = count_list (topology_names srcs) name"
    "uses (source_uses (collect_names srcs)) name = count_list (map src_name srcs) name"
    by (simp_all add: collect_names_def uses_def)
qed

lemma distinct_count_list: "distinct xs \<longleftrightarrow> (\<forall>x. count_list xs x \<le> 1)"
proof (induction xs)
  case (Cons a xs)
  have "(\<forall>x. count_list (a # xs) x \<le> 1) \<longleftrightarrow> count_list xs a = 0 \<and> (\<forall>x. count_list xs x \<le> 1)"
  proof safe
    assume all: "\<forall>x. count_list (a # xs) x \<le> 1"
    show "count_list xs a = 0" using all[rule_format, of a] by simp
    show "count_list xs x \<le> 1" for x using all[rule_format, of x] by (simp split: if_splits)
  qed auto
  then show ?case using Cons by (simp add: count_list_0_iff)
qed simp

lemma report_duplicates_Nil: "report_duplicates what m = [] \<longleftrightarrow> duplicate_names m = []"
  by (auto simp: report_duplicates_def split: list.split)

lemma names_unique:
  "report_duplicates what (transform_uses (collect_names srcs)) = [] \<longleftrightarrow> distinct (topology_names srcs)"
  "report_duplicates what (source_uses (collect_names srcs)) = [] \<longleftrightarrow> distinct (map src_name srcs)"
  using collect_names_uses[of srcs]
  by (simp_all add: report_duplicates_Nil duplicate_names_Nil distinct_count_list)

subsection \<open>An accepted topology\<close>

lemma source_start_ok:
  assumes "source_start prep bind src listeners = (Inr b, listeners')"
  shows "\<exists>bs. b = ChainBuilder (src_name src) bs \<and> get_builders prep (src_protocol src) (src_chain src) = Ok bs \<and> validate_chain b = []"
  using assms
  by (auto simp: source_start_def chain_get_builder_def Let_def result
      split: sum.splits err.splits option.splits if_splits)

lemma join_lines_nonempty: "join_lines errors @ newline \<noteq> []"
  by (simp add: newline_def)

lemma build_sources_ok:
  assumes "build_sources prep bind srcs listeners = ([], bs)"
  shows "list_all2 (\<lambda>src b. \<exists>ts. b = ChainBuilder (src_name src) ts
      \<and> get_builders prep (src_protocol src) (src_chain src) = Ok ts \<and> validate_chain b = []) srcs bs"
  using assms
proof (induction srcs arbitrary: listeners bs)
  case (Cons src srcs)
  obtain r l' where s: "source_start prep bind src listeners = (r, l')" by fastforce
  show ?case
  proof (cases r)
    case (Inl errors)
    have "errors \<noteq> []"
      using s Inl by (auto simp: source_start_def Let_def split: sum.splits err.splits option.splits if_splits)
    then show ?thesis using Cons(2) s Inl by (auto simp: newline_def split: prod.splits)
  next
    case (Inr b)
    with Cons s obtain bs' where "bs = b # bs'" "build_sources prep bind srcs l' = ([], bs')" by (auto split: prod.splits)
    then show ?thesis using Cons(1) source_start_ok[OF s[unfolded Inr]] by simp
  qed
qed simp

end
