(* ===== verification/Single_Sinks.thy ===== *)
theory Single_Sinks
  imports Transform_Contract
begin

text \<open>
  The sinks that speak to one server: \<^verbatim>\<open>ValkeySinkSingle\<close>, \<^verbatim>\<open>KafkaSinkSingle\<close>, \<^verbatim>\<open>CassandraSinkSingle\<close>
  and \<^verbatim>\<open>OpenSearchSinkSingle\<close> (\<^verbatim>\<open>src/shotover/src/transforms/*/sink_single.rs\<close>,
  \<^verbatim>\<open>transforms/opensearch/mod.rs\<close>).  The first three are clients of \<^verbatim>\<open>SinkConnection\<close>.

  The network is a parameter: whether connecting succeeds, and \<open>srv\<close>, what a wait for the server on
  a connection ends with.
\<close>

subsection \<open>Waiting for responses\<close>

datatype wait = Arrives messages | Closes | Expires

record network =
  nw_connect :: "unit result"
  nw_srv :: "sink_connection \<Rightarrow> wait"

definition conn_new :: sink_connection where
  "conn_new = \<lparr>in_rx = [], in_disconnected = False, out_tx = [], out_disconnected = False,
               closed_rx = None, conn_error = None, inserter = inserter_new\<rparr>"

definition ensure_connected :: "network \<Rightarrow> sink_connection option \<Rightarrow> sink_connection result" where
  "ensure_connected N c = (case c of Some c \<Rightarrow> Ok c | None \<Rightarrow> bind_result (nw_connect N) (\<lambda>_. Ok conn_new))"

text \<open>A duration is printed as a number here.\<close>

fun show_connection_error :: "connection_error \<Rightarrow> string" where
  "show_connection_error OtherSideClosed = ''The other side of this connection closed the connection''"
| "show_connection_error ShotoverClosed = ''Shotover closed the connection due to protocol requirements''"
| "show_connection_error (MessageDecode s) = ''Message decode error '' @ s"
| "show_connection_error (MessageEncode s) = ''Message encode error '' @ s"
| "show_connection_error (Io s) = ''IO error '' @ s"
| "show_connection_error (ReadTimeout n) = ''The other side of this connection did not respond within '' @ show_nat n"

text \<open>
  The receive loop: wait until \<open>counted\<close> of the responses reaches the number of requests.  \<open>polish\<close> is
  what the sink does to each new response.  \<open>timed\<close> says that a read timeout is set; a wait
  that expires without one never ends, and the loop may also go on for ever when the waits
  bring no counted response: then the value is \<open>None\<close>.  The responses received before a failure are
  returned as well.
\<close>

partial_function (option) recv_until ::
  "network \<Rightarrow> (message_id \<Rightarrow> message_id) \<Rightarrow> bool \<Rightarrow> (messages \<Rightarrow> nat) \<Rightarrow> (message \<Rightarrow> message) \<Rightarrow> nat \<Rightarrow> messages \<Rightarrow> sink_connection
     \<Rightarrow> (messages result \<times> messages \<times> sink_connection) option" where
  [code]: "recv_until N nid timed counted polish need responses c =
    (if need \<le> counted responses then Some (Ok responses, responses, c)
     else (let w = nw_srv N (snd (try_recv_into nid responses c));
               (r, c1) = recv_into nid (case w of Arrives b \<Rightarrow> Some b | _ \<Rightarrow> None) responses c in
       if w = Expires \<and> fst (try_recv_into nid responses c) = COk responses
       then (if timed then Some (Inl (Err ''deadline has elapsed''), responses, snd (try_recv_into nid responses c)) else None)
       else (case r of
           COk rs \<Rightarrow> recv_until N nid timed counted polish need
                      (responses @ map polish (drop (length responses) rs)) c1
         | CErr e \<Rightarrow> Some (Inl (Err (show_connection_error e)), responses, c1)
         | CPanic s \<Rightarrow> Some (Inl (Panic s), responses, c1))))"

definition send_requests ::
  "decoders \<Rightarrow> messages \<Rightarrow> sink_connection \<Rightarrow> unit result \<times> sink_connection" where
  "send_requests D ms c = (case conn_send D ms c of
     (COk u, c') \<Rightarrow> (Ok (), c')
   | (CErr e, c') \<Rightarrow> (Inl (Err (show_connection_error e)), c')
   | (CPanic s, c') \<Rightarrow> (Inl (Panic s), c'))"

subsection \<open>The Valkey sink\<close>

record valkey_sink_single =
  vs_connection :: "sink_connection option"
  vs_failed_requests :: nat

definition is_valkey_error :: "decoders \<Rightarrow> message \<Rightarrow> bool" where
  "is_valkey_error D m = (case fst (frame D m) of Some (FValkey (VError _)) \<Rightarrow> True | _ \<Rightarrow> False)"

definition count_errors :: "decoders \<Rightarrow> messages \<Rightarrow> nat" where
  "count_errors D rs = length (filter (is_valkey_error D) rs)"

text \<open>An error while checking for responses without requests is ignored.\<close>

definition valkey_single_transform ::
  "network \<Rightarrow> decoders \<Rightarrow> (message_id \<Rightarrow> message_id) \<Rightarrow> chain_state \<Rightarrow> valkey_sink_single
     \<Rightarrow> (messages result \<times> chain_state \<times> valkey_sink_single) option" where
  "valkey_single_transform N D nid cs s = (case ensure_connected N (vs_connection s) of
     Inl e \<Rightarrow> Some (Inl e, cs, s)
   | Inr c \<Rightarrow>
      if requests cs = []
      then (case try_recv_into nid [] c of
          (COk rs, c1) \<Rightarrow> Some (Ok (map (\<lambda>m. snd (frame D m)) rs), cs,
             s\<lparr>vs_connection := Some c1, vs_failed_requests := vs_failed_requests s + count_errors D rs\<rparr>)
        | (CErr e, c1) \<Rightarrow> Some (Ok [], cs, s\<lparr>vs_connection := Some c1\<rparr>)
        | (CPanic p, c1) \<Rightarrow> Some (Inl (Panic p), cs, s\<lparr>vs_connection := Some c1\<rparr>))
      else (case send_requests D (requests cs) c of
          (Inl e, c1) \<Rightarrow> Some (Inl e, cs\<lparr>requests := []\<rparr>, s\<lparr>vs_connection := Some c1\<rparr>)
        | (Inr _, c1) \<Rightarrow>
           (case recv_until N nid False (\<lambda>rs. length (answered rs)) (\<lambda>m. snd (frame D m)) (length (requests cs)) [] c1 of
              None \<Rightarrow> None
            | Some (r, seen, c2) \<Rightarrow> Some (r, cs\<lparr>requests := []\<rparr>,
                s\<lparr>vs_connection := Some c2, vs_failed_requests := vs_failed_requests s + count_errors D seen\<rparr>))))"

subsection \<open>The Kafka sink\<close>

record kafka_sink_single =
  ks_address_port :: nat
  ks_connection :: "sink_connection option"
  ks_read_timeout :: bool

text \<open>
  Requests are given the broker's port (only \<^verbatim>\<open>LeaderAndIsr\<close> carries ports; what setting them does to
  its body is the parameter \<open>set_ports\<close>), responses the port of the source.
\<close>

definition rewrite_request_ports :: "decoders \<Rightarrow> (nat \<Rightarrow> opaque \<Rightarrow> opaque) \<Rightarrow> nat \<Rightarrow> message \<Rightarrow> message" where
  "rewrite_request_ports D set_ports p m = (case frame D m of
     (Some (FKafka (Request h (PlainRequest LeaderAndIsr body))), m') \<Rightarrow>
        invalidate_cache (set_frame (FKafka (Request h (PlainRequest LeaderAndIsr (set_ports p body)))) m')
   | (_, m') \<Rightarrow> m')"

definition rewrite_response_ports :: "decoders \<Rightarrow> nat \<Rightarrow> message \<Rightarrow> message" where
  "rewrite_response_ports D p m = (case frame D m of
     (Some (FKafka (Response v cid (FindCoordinatorR f))), m') \<Rightarrow>
        invalidate_cache (set_frame (FKafka (Response v cid (FindCoordinatorR
          (if v \<le> 3 then f\<lparr>fcr_port := int p\<rparr>
           else f\<lparr>fcr_coordinators := map (\<lambda>c. c\<lparr>co_port := int p\<rparr>) (fcr_coordinators f)\<rparr>)))) m')
   | (Some (FKafka (Response v cid (MetadataR md))), m') \<Rightarrow>
        invalidate_cache (set_frame (FKafka (Response v cid (MetadataR
          (md\<lparr>md_brokers := map (\<lambda>b. b\<lparr>rb_port := int p\<rparr>) (md_brokers md)\<rparr>)))) m')
   | (Some (FKafka (Response v cid (DescribeClusterR dc))), m') \<Rightarrow>
        invalidate_cache (set_frame (FKafka (Response v cid (DescribeClusterR
          (dc\<lparr>dc_brokers := map (\<lambda>b. b\<lparr>rb_port := int p\<rparr>) (dc_brokers dc)\<rparr>)))) m')
   | (_, m') \<Rightarrow> m')"

definition kafka_single_transform ::
  "network \<Rightarrow> decoders \<Rightarrow> (nat \<Rightarrow> opaque \<Rightarrow> opaque) \<Rightarrow> (message_id \<Rightarrow> message_id) \<Rightarrow> chain_state \<Rightarrow> kafka_sink_single
     \<Rightarrow> (messages result \<times> chain_state \<times> kafka_sink_single) option" where
  "kafka_single_transform N D set_ports nid cs s =
    (let port = snd (local_addr cs);
         done = \<lambda>r. (case r of Inr rs \<Rightarrow> Ok (map (rewrite_response_ports D port) rs) | Inl e \<Rightarrow> Inl e) in
     case ensure_connected N (ks_connection s) of
       Inl e \<Rightarrow> Some (Inl e, cs, s)
     | Inr c \<Rightarrow>
        if requests cs = []
        then (case try_recv_into nid [] c of
            (COk rs, c1) \<Rightarrow> Some (done (Ok rs), cs, s\<lparr>ks_connection := Some c1\<rparr>)
          | (CErr e, c1) \<Rightarrow> Some (Inl (Err (show_connection_error e)), cs, s\<lparr>ks_connection := Some c1\<rparr>)
          | (CPanic p, c1) \<Rightarrow> Some (Inl (Panic p), cs, s\<lparr>ks_connection := Some c1\<rparr>))
        else (case send_requests D (map (rewrite_request_ports D set_ports (ks_address_port s)) (requests cs)) c of
            (Inl e, c1) \<Rightarrow> Some (Inl e, cs\<lparr>requests := []\<rparr>, s\<lparr>ks_connection := Some c1\<rparr>)
          | (Inr _, c1) \<Rightarrow>
             (case recv_until N nid (ks_read_timeout s) length (\<lambda>m. m) (length (requests cs)) [] c1 of
                None \<Rightarrow> None
              | Some (r, _, c2) \<Rightarrow> Some (done r, cs\<lparr>requests := []\<rparr>, s\<lparr>ks_connection := Some c2\<rparr>))))"

subsection \<open>The Cassandra sink\<close>

record cassandra_sink_single =
  cs_version :: "nat option"
  cs_connection :: "sink_connection option"
  cs_failed_requests :: nat
  cs_read_timeout :: bool

definition extract_version :: "decoders \<Rightarrow> messages \<Rightarrow> nat option \<Rightarrow> nat option result" where
  "extract_version D ms v = (case v of
     Some _ \<Rightarrow> Ok v
   | None \<Rightarrow> (case ms of
       [] \<Rightarrow> Ok None
     | m # _ \<Rightarrow> (case message_metadata D m of
         Inr (MCassandra meta) \<Rightarrow> Ok (Some (cm_version meta))
       | Inl (Panic p) \<Rightarrow> Inl (Panic p)
       | _ \<Rightarrow> Inl (Err ''Failed to extract cassandra version from incoming message: Not a valid cassandra message''))))"

definition is_cassandra_error :: "decoders \<Rightarrow> message \<Rightarrow> bool" where
  "is_cassandra_error D m = (case message_metadata D m of Inr (MCassandra meta) \<Rightarrow> cm_opcode meta = OpError | _ \<Rightarrow> False)"

definition cassandra_finish ::
  "decoders \<Rightarrow> chain_state \<Rightarrow> cassandra_sink_single \<Rightarrow> messages result \<Rightarrow> sink_connection
     \<Rightarrow> (messages result \<times> chain_state \<times> cassandra_sink_single) option" where
  "cassandra_finish D cs s r c = Some (r, cs\<lparr>requests := []\<rparr>,
     s\<lparr>cs_connection := Some c, cs_failed_requests := cs_failed_requests s +
        (case r of Inr rs \<Rightarrow> length (filter (is_cassandra_error D) rs) | Inl _ \<Rightarrow> 0)\<rparr>)"

definition cassandra_single_transform ::
  "network \<Rightarrow> decoders \<Rightarrow> (message_id \<Rightarrow> message_id) \<Rightarrow> chain_state \<Rightarrow> cassandra_sink_single
     \<Rightarrow> (messages result \<times> chain_state \<times> cassandra_sink_single) option" where
  "cassandra_single_transform N D nid cs s = (case extract_version D (requests cs) (cs_version s) of
     Inl e \<Rightarrow> Some (Inl e, cs\<lparr>requests := []\<rparr>, s)
   | Inr None \<Rightarrow> Some (Ok [], cs\<lparr>requests := []\<rparr>, s)
   | Inr (Some v) \<Rightarrow>
      (let s1 = s\<lparr>cs_version := Some v\<rparr> in
       case ensure_connected N (cs_connection s) of
         Inl e \<Rightarrow> Some (Inl e, cs\<lparr>requests := []\<rparr>, s1)
       | Inr c \<Rightarrow>
          if requests cs = []
          then (case try_recv_into nid [] c of
              (COk rs, c1) \<Rightarrow> cassandra_finish D cs s1 (Ok rs) c1
            | (CErr e, c1) \<Rightarrow> cassandra_finish D cs s1 (Inl (Err (show_connection_error e))) c1
            | (CPanic p, c1) \<Rightarrow> cassandra_finish D cs s1 (Inl (Panic p)) c1)
          else (case send_requests D (requests cs) c of
              (Inl e, c1) \<Rightarrow> cassandra_finish D cs s1 (Inl e) c1
            | (Inr _, c1) \<Rightarrow>
               (case recv_until N nid (cs_read_timeout s) (\<lambda>rs. length (answered rs)) (\<lambda>m. m) (length (requests cs)) [] c1 of
                  None \<Rightarrow> None
                | Some (r, _, c2) \<Rightarrow> cassandra_finish D cs s1 r c2))))"

subsection \<open>The OpenSearch sink\<close>

text \<open>
  Requests go one at a time through a connection of \<^verbatim>\<open>util/cluster_connection_pool.rs\<close>, each answered on
  a channel of its own: \<open>reply\<close> is the outcome of sending one request and awaiting its answer.
\<close>

fun opensearch_exchange :: "(message \<Rightarrow> message result) \<Rightarrow> messages \<Rightarrow> messages result" where
  "opensearch_exchange reply [] = Ok []"
| "opensearch_exchange reply (m # ms) =
    bind_result (reply m) (\<lambda>r. bind_result (opensearch_exchange reply ms) (\<lambda>rs. Ok (r # rs)))"

definition opensearch_single_transform ::
  "unit result \<Rightarrow> (message \<Rightarrow> message result) \<Rightarrow> chain_state \<Rightarrow> bool \<Rightarrow> messages result \<times> chain_state \<times> bool" where
  "opensearch_single_transform connect reply cs connected =
    (if requests cs = [] then (Ok [], cs, connected)
     else (case (if connected then Ok () else connect) of
         Inl e \<Rightarrow> (Inl e, cs, False)
       | Inr _ \<Rightarrow> (opensearch_exchange reply (requests cs), cs\<lparr>requests := []\<rparr>, True)))"

end
