(* ===== verification/Single_Sink_Contract.thy ===== *)
theory Single_Sink_Contract
  imports Single_Sinks
begin

text \<open>
  The sinks with one server keep the contract of transforms when the server answers its requests
  in their order, and a call of them returns when the server answers at all.
\<close>

subsection \<open>The server\<close>

text \<open>
  What arrives on a connection answers the oldest outstanding requests that have an answer, in
  their order; \<open>q\<close> is the queue of outstanding requests, the last ones that were sent.
\<close>

definition server_ok :: "(sink_connection \<Rightarrow> wait) \<Rightarrow> bool" where
  "server_ok srv \<longleftrightarrow> (\<forall>c q b. in_rx c = [] \<longrightarrow> inserter c = inserter_abs q \<longrightarrow> suffix (map fst q) (map id (out_tx c)) \<longrightarrow>
     srv c = Arrives b \<longrightarrow> arrived_ok q b)"

definition keeps_ids :: "(message \<Rightarrow> message) \<Rightarrow> bool" where
  "keeps_ids f \<longleftrightarrow> (\<forall>m. id (f m) = id m \<and> request_id (f m) = request_id m)"

lemma sink_chan_new: "sink_chan conn_new []"
  by (auto simp: sink_chan_def conn_new_def inserter_new_def inserter_abs_def arrived_ok_def)

lemma try_recv_drained: "try_recv_into nid responses c = (COk rs, c') \<Longrightarrow> in_rx c' = []"
  by (auto simp: try_recv_into_def handle_disconnect_on_recv_def get_error_for_close_def Let_def
      split: option.splits sum.splits err.splits if_splits)

text \<open>A failed check for responses leaves the outstanding requests as they are.\<close>

lemma try_recv_error:
  assumes "sink_chan c ids" and r: "try_recv_into nid pre c = (CErr e, c')"
  shows "sink_chan c' ids"
proof (cases "conn_error c")
  case (Some x)
  then show ?thesis using assms by (simp add: try_recv_into_def)
next
  case None
  obtain q where q: "map fst q = ids" "inserter c = inserter_abs q" "arrived_ok q (concat (in_rx c))"
    using assms(1) by (auto simp: sink_chan_def)
  obtain res q' where a: "answer nid q (concat (in_rx c)) = (res, q')" by fastforce
  have p: "process_responses nid (pre @ concat (in_rx c)) (length pre) (inserter c) = Ok (pre @ res, inserter_abs q')"
    unfolding q(2)
    by (rule process_responses_answer[OF arrived_ok_requested[OF q(3)] _ a])
      (use q(3) in \<open>simp add: arrived_ok_def expects_real\<close>)
  have c': "inserter c' = inserter_abs q' \<and> in_rx c' = [] \<and> out_tx c' = out_tx c \<and> res = []"
    using r p None by (auto simp: try_recv_into_def handle_disconnect_on_recv_def get_error_for_close_def Let_def
        split: option.splits if_splits)
  then have "q' = q" using answer_ids[OF q(3) a] by simp
  then show ?thesis using c' q assms(1) by (auto simp: sink_chan_def arrived_ok_def)
qed

lemma recv_into_in_order:
  assumes chan: "sink_chan c ids" and srv: "server_ok srv"
    and r: "recv_into nid (case srv (snd (try_recv_into nid pre c)) of Arrives b \<Rightarrow> Some b | _ \<Rightarrow> None) pre c = (COk rs, c')"
  shows "\<exists>new. rs = pre @ new \<and> length new \<le> length ids
    \<and> map request_id new = map Some (take (length new) ids) \<and> sink_chan c' (drop (length new) ids)"
proof -
  obtain rs1 c1 where t: "try_recv_into nid pre c = (COk rs1, c1)"
    using r by (auto simp: recv_into_def split: prod.splits conn_result.splits)
  obtain new where n: "rs1 = pre @ new" "length new \<le> length ids"
    "map request_id new = map Some (take (length new) ids)" "sink_chan c1 (drop (length new) ids)"
    using sink_chan_recv[OF chan t] by auto
  show ?thesis
  proof (cases "new = []")
    case False
    then show ?thesis using r t n by (auto simp: recv_into_def)
  next
    case True
    then obtain b where b: "srv c1 = Arrives b"
      using r t n by (auto simp: recv_into_def fail_closed_def get_error_for_close_def split: wait.splits option.splits)
    obtain q where q: "map fst q = ids" "inserter c1 = inserter_abs q" "suffix ids (map id (out_tx c1))"
      using n True by (auto simp: sink_chan_def)
    have arr: "arrived_ok q b"
      using srv b try_recv_drained[OF t] q unfolding server_ok_def by blast
    obtain res q' where a: "answer nid q b = (res, q')" by fastforce
    have p: "process_responses nid b 0 (inserter c1) = Ok (res, inserter_abs q')"
      using process_responses_answer[OF arrived_ok_requested[OF arr] _ a, of "[]"] arr q(2)
      by (simp add: arrived_ok_def expects_real)
    have c': "rs = pre @ res" "c' = c1\<lparr>inserter := inserter_abs q'\<rparr>"
      using r t n True b p by (auto simp: recv_into_def)
    note ids = answer_ids[OF arr a]
    have "map fst q' = drop (length res) ids" using ids q(1) by (auto simp: drop_map)
    moreover have "suffix (drop (length res) ids) (map id (out_tx c'))"
      using q(3) c'(2) by (simp add: suffix_order.trans[OF suffix_drop])
    ultimately have "sink_chan c' (drop (length res) ids)"
      using c' try_recv_drained[OF t] by (auto simp: sink_chan_def arrived_ok_def)
    then show ?thesis using c'(1) ids q(1) by (auto simp: take_map)
  qed
qed

subsection \<open>The receive loop\<close>

text \<open>The responses \<open>new\<close> answer the oldest of the requests \<open>ids\<close>, in order; \<open>c'\<close> has the others outstanding.\<close>

definition received :: "message_id list \<Rightarrow> messages \<Rightarrow> sink_connection \<Rightarrow> bool" where
  "received ids new c' \<longleftrightarrow> length new \<le> length ids \<and> map request_id new = map Some (take (length new) ids)
     \<and> sink_chan c' (drop (length new) ids)"

lemma received_answered: "received ids new c' \<Longrightarrow> ids = answered new @ drop (length new) ids"
  by (auto simp: received_def dest: answered_all)

lemma received_append:
  assumes "received ids new c1" and "received (drop (length new) ids) later c'"
  shows "received ids (new @ later) c'"
proof -
  have "map Some (take (length new + length later) ids) =
      map Some (take (length new) ids) @ map Some (take (length later) (drop (length new) ids))"
    by (simp add: take_add)
  moreover have "drop (length later) (drop (length new) ids) = drop (length new + length later) ids" by (simp add: add.commute)
  ultimately show ?thesis using assms by (auto simp: received_def)
qed

lemma recv_until_in_order:
  assumes "recv_until N nid timed counted polish need responses c = Some (Ok rs, seen, c')"
    and "server_ok (nw_srv N)" and "keeps_ids polish" and "sink_chan c ids"
  shows "\<exists>new. rs = responses @ new \<and> need \<le> counted rs \<and> received ids new c'"
proof -
  define P where "P N nid timed counted polish need responses c y \<longleftrightarrow>
    (\<forall>ids rs seen c'. y = (Ok rs, seen, c') \<longrightarrow> server_ok (nw_srv N) \<longrightarrow> keeps_ids polish \<longrightarrow> sink_chan c ids \<longrightarrow>
      (\<exists>new. rs = responses @ new \<and> need \<le> counted rs \<and> received ids new c'))"
    for N :: network and nid :: "message_id \<Rightarrow> message_id" and timed :: bool and counted :: "messages \<Rightarrow> nat" and polish need responses c
      and y :: "messages result \<times> messages \<times> sink_connection"
  have "P N nid timed counted polish need responses c (Ok rs, seen, c')"
  proof (rule recv_until.raw_induct[where P = P, OF _ assms(1)], goal_cases)
    case (1 loop N nid timed counted polish need responses c y)
    note IH = 1(1) and eq = 1(2)
    show ?case unfolding P_def
    proof (intro allI impI)
      fix ids rs seen c' assume y: "y = (Ok rs, seen, c')" and srv: "server_ok (nw_srv N)" and ki: "keeps_ids polish" and chan: "sink_chan c ids"
      show "\<exists>new. rs = responses @ new \<and> need \<le> counted rs \<and> received ids new c'"
      proof (cases "need \<le> counted responses")
        case True
        then show ?thesis using eq y chan by (auto simp: received_def)
      next
        case False
        let ?w = "nw_srv N (snd (try_recv_into nid responses c))"
        obtain rs1 c1 where r: "recv_into nid (case ?w of Arrives b \<Rightarrow> Some b | _ \<Rightarrow> None) responses c = (COk rs1, c1)"
          and l: "loop N nid timed counted polish need (responses @ map polish (drop (length responses) rs1)) c1 = Some y"
          using eq y False by (auto simp: Let_def split: if_splits prod.splits conn_result.splits)
        obtain new where n: "rs1 = responses @ new" "length new \<le> length ids"
          "map request_id new = map Some (take (length new) ids)" "sink_chan c1 (drop (length new) ids)"
          using recv_into_in_order[OF chan srv r] by auto
        have "received ids (map polish new) c1" using n(2-4) ki by (simp add: received_def keeps_ids_def comp_def)
        moreover obtain later where "rs = (responses @ map polish new) @ later" "need \<le> counted rs" "received (drop (length new) ids) later c'"
          using IH[OF l] y srv ki n(1,4) unfolding P_def by auto
        ultimately show ?thesis using received_append[of ids "map polish new" c1 later c'] by (auto intro!: exI[of _ "map polish new @ later"])
      qed
    qed
  qed
  then show ?thesis using assms unfolding P_def by blast
qed

text \<open>
  The loop returns when every wait brings something: each turn either fails or answers at least one
  of the outstanding requests.
\<close>

definition server_answers :: "(sink_connection \<Rightarrow> wait) \<Rightarrow> bool" where
  "server_answers srv \<longleftrightarrow> (\<forall>c. srv c \<noteq> Expires \<and> srv c \<noteq> Arrives [])"

lemma answer_nonempty: "answer nid q (r # rs) = (res, q') \<Longrightarrow> res \<noteq> []"
  by (cases "(nid, q, r # rs)" rule: answer.cases) (auto split: prod.splits)

lemma recv_into_progress:
  assumes chan: "sink_chan c ids" and srv: "server_ok srv" "server_answers srv"
    and r: "recv_into nid (case srv (snd (try_recv_into nid pre c)) of Arrives b \<Rightarrow> Some b | _ \<Rightarrow> None) pre c = (COk rs, c')"
  shows "length pre < length rs"
proof -
  obtain rs1 c1 where t: "try_recv_into nid pre c = (COk rs1, c1)"
    using r by (auto simp: recv_into_def split: prod.splits conn_result.splits)
  obtain new where n: "rs1 = pre @ new" "sink_chan c1 (drop (length new) ids)"
    using sink_chan_recv[OF chan t] by auto
  show ?thesis
  proof (cases "new = []")
    case False
    then show ?thesis using r t n by (auto simp: recv_into_def)
  next
    case True
    then obtain b where b: "srv c1 = Arrives b"
      using r t n by (auto simp: recv_into_def fail_closed_def get_error_for_close_def split: wait.splits option.splits)
    obtain q where q: "map fst q = ids" "inserter c1 = inserter_abs q" "suffix ids (map id (out_tx c1))"
      using n True by (auto simp: sink_chan_def)
    have arr: "arrived_ok q b"
      using srv(1) b try_recv_drained[OF t] q unfolding server_ok_def by blast
    obtain res q' where a: "answer nid q b = (res, q')" by fastforce
    have "process_responses nid b 0 (inserter c1) = Ok (res, inserter_abs q')"
      using process_responses_answer[OF arrived_ok_requested[OF arr] _ a, of "[]"] arr q(2)
      by (simp add: arrived_ok_def expects_real)
    then have "rs = pre @ res" using r t n True b by (auto simp: recv_into_def)
    moreover have "b \<noteq> []" using srv(2) b by (auto simp: server_answers_def)
    ultimately show ?thesis using answer_nonempty a by (cases b) auto
  qed
qed

lemma recv_until_returns:
  assumes "server_ok (nw_srv N)" and "server_answers (nw_srv N)" and "keeps_ids polish"
    and counts: "\<And>rs new ids c'. received ids new c' \<Longrightarrow> counted (rs @ new) = counted rs + length new"
    and "sink_chan c ids" and "need \<le> counted responses + length ids"
  shows "\<exists>y. recv_until N nid timed counted polish need responses c = Some y"
  using assms(5,6)
proof (induction ids arbitrary: c responses rule: length_induct)
  case (1 ids)
  let ?w = "nw_srv N (snd (try_recv_into nid responses c))"
  obtain r c1 where r: "recv_into nid (case ?w of Arrives b \<Rightarrow> Some b | _ \<Rightarrow> None) responses c = (r, c1)" by fastforce
  have w: "?w \<noteq> Expires" using assms(2) by (simp add: server_answers_def)
  show ?case
  proof (cases "need \<le> counted responses")
    case True
    then show ?thesis by (simp add: recv_until.simps)
  next
    case False
    show ?thesis
    proof (cases r)
      case (COk rs)
      obtain new where n: "rs = responses @ new" "length new \<le> length ids"
        "map request_id new = map Some (take (length new) ids)" "sink_chan c1 (drop (length new) ids)"
        using recv_into_in_order[OF 1(2) assms(1) r[unfolded COk]] by auto
      have len: "0 < length new" using recv_into_progress[OF 1(2) assms(1,2) r[unfolded COk]] n(1) by simp
      have "received ids (map polish new) c1" using n(2-4) assms(3) by (simp add: received_def keeps_ids_def comp_def)
      from counts[OF this, of responses]
      have "need \<le> counted (responses @ map polish new) + length (drop (length new) ids)" using 1(3) n(2) by simp
      moreover have "length (drop (length new) ids) < length ids" using len n(2) unfolding length_drop by linarith
      ultimately obtain y where "recv_until N nid timed counted polish need (responses @ map polish new) c1 = Some y"
        using 1(1) n(4) by blast
      then show ?thesis using r COk n(1) False w by (cases y; subst recv_until.simps) (simp add: Let_def)
    next
      case (CErr e)
      then show ?thesis using r False w by (subst recv_until.simps) (simp add: Let_def)
    next
      case (CPanic s)
      then show ?thesis using r False w by (subst recv_until.simps) (simp add: Let_def)
    qed
  qed
qed

subsection \<open>The contract of the sinks\<close>

definition conn_chan :: "sink_connection option \<Rightarrow> message_id list \<Rightarrow> bool" where
  "conn_chan c ids = (case c of None \<Rightarrow> ids = [] | Some c \<Rightarrow> sink_chan c ids)"

text \<open>A call that does not return yields no responses.\<close>

definition returned :: "(messages result \<times> chain_state \<times> 's) option \<Rightarrow> chain_state \<Rightarrow> 's \<Rightarrow> messages result \<times> chain_state \<times> 's" where
  "returned out cs s = (case out of Some x \<Rightarrow> x | None \<Rightarrow> (Inl (Err ''waiting for the server''), cs, s))"

lemma ensure_connected_chan:
  "conn_chan c ids \<Longrightarrow> ensure_connected N c = Ok c1 \<Longrightarrow> sink_chan c1 ids"
  by (auto simp: conn_chan_def ensure_connected_def sink_chan_new result split: option.splits)

lemma exchange_in_order:
  assumes "sink_chan c ids" and "send_requests D ms c = (Ok u, c1)" and "server_ok (nw_srv N)" and "keeps_ids polish"
    and "recv_until N nid timed counted polish need [] c1 = Some (Ok rs, seen, c2)"
  shows "received (ids @ map id ms) rs c2"
proof -
  have "sink_chan c1 (ids @ map id ms)"
    using assms(2) sink_chan_send[OF assms(1)] by (auto simp: send_requests_def split: prod.splits conn_result.splits)
  from recv_until_in_order[OF assms(5,3,4) this] show ?thesis by auto
qed

lemma keeps_ids_frame: "keeps_ids (\<lambda>m. snd (frame D m))"
  and keeps_ids_self: "keeps_ids (\<lambda>m. m)"
  by (simp_all add: keeps_ids_def)

lemma keeps_ids_ports:
  "keeps_ids (rewrite_request_ports D set_ports p)" "keeps_ids (rewrite_response_ports D p)"
proof -
  have fr: "id m' = id m \<and> request_id m' = request_id m" if "frame D m = (f, m')" for m f m'
    using that frame_keeps(1,2)[of D m] by simp
  show "keeps_ids (rewrite_request_ports D set_ports p)"
    by (auto simp: keeps_ids_def rewrite_request_ports_def invalidate_cache_def set_frame_def dest: fr
        split: prod.split option.split frame.split kafka_frame.split request_body.split plain_request.split)
  show "keeps_ids (rewrite_response_ports D p)"
    by (auto simp: keeps_ids_def rewrite_response_ports_def invalidate_cache_def set_frame_def dest: fr
        split: prod.split option.split frame.split kafka_frame.split response_body.split)
qed

lemma received_contract:
  assumes "received ids rs c'" and "map request_id rs' = map request_id rs"
  shows "\<exists>left. accounted True ids (answered rs') left \<and> sink_chan c' left"
  using received_answered[OF assms(1)] assms answered_cong[OF assms(2)] by (auto simp: accounted_def received_def)

lemma try_recv_received:
  "sink_chan c ids \<Longrightarrow> try_recv_into nid [] c = (COk rs, c') \<Longrightarrow> received ids rs c'"
  using sink_chan_recv[of c ids nid "[]" rs c'] by (auto simp: received_def)

lemma valkey_single_contract:
  assumes srv: "server_ok (nw_srv N)"
  shows "transform_contract (accounted True) (\<lambda>cs s. returned (valkey_single_transform N D nid cs s) cs s)
    (\<lambda>s. conn_chan (vs_connection s))"
proof unfold_locales
  fix s ids cs rs cs' and s' :: valkey_sink_single
  assume chan: "conn_chan (vs_connection s) ids"
    and r: "returned (valkey_single_transform N D nid cs s) cs s = (Ok rs, cs', s')"
  obtain c where c: "ensure_connected N (vs_connection s) = Ok c"
    using r by (auto simp: returned_def valkey_single_transform_def split: sum.splits option.splits)
  note sc = ensure_connected_chan[OF chan c]
  have "\<exists>c' left. vs_connection s' = Some c' \<and> accounted True (ids @ map id (requests cs)) (answered rs) left \<and> sink_chan c' left"
  proof (cases "requests cs = []")
    case True
    obtain t c1 where t: "try_recv_into nid [] c = (t, c1)" by fastforce
    show ?thesis
    proof (cases t)
      case (COk rs1)
      then show ?thesis using r c True t received_contract[OF try_recv_received[OF sc t[unfolded COk]], of rs]
        by (auto simp: returned_def valkey_single_transform_def)
    next
      case (CErr e)
      then show ?thesis using r c True t try_recv_error[OF sc t[unfolded CErr]] acc.account_none
        by (auto simp: returned_def valkey_single_transform_def intro!: exI[of _ ids])
    next
      case (CPanic p)
      then show ?thesis using r c True t by (auto simp: returned_def valkey_single_transform_def)
    qed
  next
    case False
    obtain u c1 seen c2 where s: "send_requests D (requests cs) c = (Ok u, c1)"
      and w: "recv_until N nid False (\<lambda>rs. length (answered rs)) (\<lambda>m. snd (frame D m)) (length (requests cs)) [] c1 = Some (Ok rs, seen, c2)"
      and "vs_connection s' = Some c2"
      using r c False by (auto simp: returned_def valkey_single_transform_def split: prod.splits sum.splits option.splits)
    then show ?thesis using received_contract[OF exchange_in_order[OF sc s srv keeps_ids_frame w] refl] by auto
  qed
  then show "\<exists>left. accounted True (ids @ map id (requests cs)) (answered rs) left \<and> conn_chan (vs_connection s') left"
    by (auto simp: conn_chan_def)
qed

lemma kafka_single_contract:
  assumes srv: "server_ok (nw_srv N)"
  shows "transform_contract (accounted True) (\<lambda>cs s. returned (kafka_single_transform N D set_ports nid cs s) cs s)
    (\<lambda>s. conn_chan (ks_connection s))"
proof unfold_locales
  fix s ids cs rs cs' and s' :: kafka_sink_single
  assume chan: "conn_chan (ks_connection s) ids"
    and r: "returned (kafka_single_transform N D set_ports nid cs s) cs s = (Ok rs, cs', s')"
  obtain c where c: "ensure_connected N (ks_connection s) = Ok c"
    using r by (auto simp: returned_def kafka_single_transform_def Let_def split: sum.splits option.splits)
  note sc = ensure_connected_chan[OF chan c]
  let ?rw = "rewrite_response_ports D (snd (local_addr cs))"
  have ids: "map request_id (map ?rw rs1) = map request_id rs1" for rs1
    using keeps_ids_ports(2)[of D "snd (local_addr cs)"] by (simp add: keeps_ids_def comp_def)
  have "\<exists>c' left. ks_connection s' = Some c' \<and> accounted True (ids @ map id (requests cs)) (answered rs) left \<and> sink_chan c' left"
  proof (cases "requests cs = []")
    case True
    obtain rs1 c1 where t: "try_recv_into nid [] c = (COk rs1, c1)" and "rs = map ?rw rs1" "ks_connection s' = Some c1"
      using r c True by (auto simp: returned_def kafka_single_transform_def Let_def split: prod.splits conn_result.splits)
    then show ?thesis using received_contract[OF try_recv_received[OF sc t] ids] True by auto
  next
    case False
    let ?ms = "map (rewrite_request_ports D set_ports (ks_address_port s)) (requests cs)"
    obtain u c1 seen c2 rs1 where s: "send_requests D ?ms c = (Ok u, c1)"
      and w: "recv_until N nid (ks_read_timeout s) length (\<lambda>m. m) (length (requests cs)) [] c1 = Some (Ok rs1, seen, c2)"
      and "ks_connection s' = Some c2" and "rs = map ?rw rs1"
      using r c False
      by (auto simp: returned_def kafka_single_transform_def Let_def split: prod.splits sum.splits option.splits)
    moreover have ms: "map id ?ms = map id (requests cs)"
      using keeps_ids_ports(1) by (simp add: keeps_ids_def comp_def)
    ultimately show ?thesis
      using received_contract[OF exchange_in_order[OF sc s srv keeps_ids_self w, unfolded ms] ids] by blast
  qed
  then show "\<exists>left. accounted True (ids @ map id (requests cs)) (answered rs) left \<and> conn_chan (ks_connection s') left"
    by (auto simp: conn_chan_def)
qed

text \<open>The OpenSearch sink answers at once, if its connection labels each answer with its request.\<close>

lemma opensearch_single_contract:
  assumes "\<And>m r. reply m = Ok r \<Longrightarrow> request_id r = Some (id m)"
  shows "transform_contract (accounted ordered) (opensearch_single_transform connect reply) none_outstanding"
proof (rule answers_at_once)
  fix cs rs cs' and c c' :: bool assume "opensearch_single_transform connect reply cs c = (Ok rs, cs', c')"
  moreover have "opensearch_exchange reply ms = Ok out \<Longrightarrow> map request_id out = map Some (map id ms)" for ms out
    using assms by (induction ms arbitrary: out) (auto simp: result)
  ultimately show "map request_id rs = map Some (map id (requests cs))"
    by (auto simp: opensearch_single_transform_def split: if_splits sum.splits)
qed

text \<open>With a server that answers, a call of the Valkey sink returns.\<close>

lemma valkey_single_returns:
  assumes "server_ok (nw_srv N)" and "server_answers (nw_srv N)" and chan: "conn_chan (vs_connection s) ids"
  shows "\<exists>out. valkey_single_transform N D nid cs s = Some out"
proof (cases "ensure_connected N (vs_connection s)")
  case (Inl e)
  then show ?thesis by (simp add: valkey_single_transform_def)
next
  case (Inr c)
  note sc = ensure_connected_chan[OF chan Inr]
  obtain u c1 where s: "send_requests D (requests cs) c = (u, c1)" by fastforce
  have "\<exists>y. recv_until N nid False (\<lambda>rs. length (answered rs)) (\<lambda>m. snd (frame D m)) (length (requests cs)) [] c1 = Some y"
    if "u = Ok x" for x
  proof (rule recv_until_returns[OF assms(1,2) keeps_ids_frame])
    show "sink_chan c1 (ids @ map id (requests cs))"
      using s that sink_chan_send[OF sc] by (auto simp: send_requests_def split: prod.splits conn_result.splits)
    show "length (answered (rs @ new)) = length (answered rs) + length new" if "received out new c'" for rs new out c'
      using that answered_all[of new "take (length new) out"] by (simp add: received_def)
  qed simp
  then show ?thesis using Inr s
    by (auto simp: valkey_single_transform_def split: prod.split conn_result.split sum.split option.split)
qed

end
