(* ===== verification/Source_Task.thy ===== *)
theory Source_Task
  imports Transform_Contract
begin

text \<open>
  The connection to a client (\<^verbatim>\<open>Handler\<close> and \<^verbatim>\<open>PendingRequests\<close> of \<^verbatim>\<open>src/shotover/src/source_task.rs\<close>): the
  loop that hands the client's requests to the chain and the responses to the client, and the error
  responses for what is pending when the chain fails.

  The chain is a parameter: its state \<open>'c\<close> and \<open>run\<close>, one \<^verbatim>\<open>process_request\<close>.  The reader and writer
  tasks are the environment: what the loop's \<^verbatim>\<open>select!\<close> yields is a list of events, what was sent to
  the writer is \<open>out\<close>.
\<close>

subsection \<open>Pending requests\<close>

datatype pending_requests =
    Ordered "metadata result list"
  | Unordered "(message_id \<times> metadata result) list"
  | Unsupported

fun pending_new :: "message_type \<Rightarrow> pending_requests" where
  "pending_new Valkey = Ordered []"
| "pending_new Cassandra = Unordered []"
| "pending_new Kafka = Unsupported"
| "pending_new OpenSearch = Unsupported"
| "pending_new Dummy = Unsupported"

text \<open>The hash map of the unordered case is an association list; its order is that of the iteration.\<close>

fun add_pending :: "decoders \<Rightarrow> messages \<Rightarrow> pending_requests \<Rightarrow> pending_requests" where
  "add_pending D ms (Ordered ps) = Ordered (ps @ map (message_metadata D) ms)"
| "add_pending D ms (Unordered ps) = Unordered (fold (\<lambda>m. AList.update (id m) (message_metadata D m)) ms ps)"
| "add_pending D ms Unsupported = Unsupported"

fun remove_pending :: "messages \<Rightarrow> pending_requests \<Rightarrow> pending_requests" where
  "remove_pending rs (Ordered ps) =
    (let n = length (filter (\<lambda>r. request_id r \<noteq> None) rs) in Ordered (if length ps < n then [] else drop n ps))"
| "remove_pending rs (Unordered ps) =
    Unordered (fold (\<lambda>r ps. case request_id r of Some i \<Rightarrow> AList.delete i ps | None \<Rightarrow> ps) rs ps)"
| "remove_pending rs Unsupported = Unsupported"

definition internal_error :: "string \<Rightarrow> string \<Rightarrow> string" where
  "internal_error chain e = ''Internal shotover (or custom transform) bug (chain: '' @ chain @ ''): '' @ e"

definition to_error ::
  "(message_id \<Rightarrow> message_id) \<Rightarrow> string \<Rightarrow> nat \<Rightarrow> metadata result \<Rightarrow> message option" where
  "to_error nid e n md = (case md of
     Inl _ \<Rightarrow> None
   | Inr meta \<Rightarrow> (case to_error_response (nid n) meta e Internal of Inr m \<Rightarrow> Some m | Inl _ \<Rightarrow> None))"

fun to_errors :: "(message_id \<Rightarrow> message_id) \<Rightarrow> string \<Rightarrow> pending_requests \<Rightarrow> messages" where
  "to_errors nid e (Ordered ps) = List.map_filter (\<lambda>(n, p). to_error nid e n p) (enumerate 0 ps)"
| "to_errors nid e (Unordered ps) =
    List.map_filter (\<lambda>(i, p). map_option (set_request_id i) (to_error nid e i p)) ps"
| "to_errors nid e Unsupported = []"

subsection \<open>The handler\<close>

datatype close_reason = TransformRequested | ClientClosed | ShotoverShutdown

record 'c handler =
  h_chain :: 'c
  h_chain_name :: string
  h_pending :: pending_requests
  h_out :: "messages list"

text \<open>The surroundings of one turn: the ids of new messages and whether the writer task has ended.\<close>

record turn =
  tn_dec :: decoders
  tn_nid :: "message_id \<Rightarrow> message_id"
  tn_local_addr :: "opaque \<times> nat"
  tn_writer_gone :: bool

definition send_receive_chain ::
  "'c runner \<Rightarrow> turn \<Rightarrow> messages \<Rightarrow> 'c handler \<Rightarrow> close_reason option result \<times> 'c handler" where
  "send_receive_chain run T ms h =
    (let pending = add_pending (tn_dec T) ms (h_pending h) in
     case run (new_with_addr ms (tn_local_addr T)) (h_chain h) of (r, cs, c) \<Rightarrow>
     let h1 = h\<lparr>h_chain := c, h_pending := pending\<rparr> in
     case r of
       Inl (Panic s) \<Rightarrow> (Inl (Panic s), h1)
     | Inl (Err e) \<Rightarrow>
        (if tn_writer_gone T then (Inl (Err ''channel closed''), h1)
         else (Inl (Err e), h1\<lparr>h_out := h_out h @ [to_errors (tn_nid T) (internal_error (h_chain_name h) e) pending]\<rparr>))
     | Inr rs \<Rightarrow>
        (let h2 = h1\<lparr>h_pending := remove_pending rs pending\<rparr> in
         if rs \<noteq> [] \<and> tn_writer_gone T then (Ok (Some ClientClosed), h2)
         else (Ok (if close_client_connection cs then Some TransformRequested else None),
               if rs = [] then h2 else h2\<lparr>h_out := h_out h @ [rs]\<rparr>)))"

text \<open>
  What the \<^verbatim>\<open>select!\<close> of the loop yields: the shutdown signal, a forced run with the batches that were
  in the channel, batches of requests, or the end of the connection (idle for too long or closed).
\<close>

datatype event = ShutdownSignal | ForceRunChain "messages list" | Received messages "messages list" | NoMoreRequests

fun run_loop ::
  "'c runner \<Rightarrow> (turn \<times> event) list \<Rightarrow> 'c handler \<Rightarrow> close_reason result option \<times> 'c handler" where
  "run_loop run [] h = (None, h)"
| "run_loop run ((T, ev) # evs) h = (case ev of
     ShutdownSignal \<Rightarrow> (Some (Ok ShotoverShutdown), h)
   | NoMoreRequests \<Rightarrow> (Some (Ok ClientClosed), h)
   | ForceRunChain batches \<Rightarrow> (case send_receive_chain run T (concat batches) h of
       (Inl e, h') \<Rightarrow> (Some (Inl e), h')
     | (Inr (Some reason), h') \<Rightarrow> (Some (Ok reason), h')
     | (Inr None, h') \<Rightarrow> run_loop run evs h')
   | Received first batches \<Rightarrow> (case send_receive_chain run T (first @ concat batches) h of
       (Inl e, h') \<Rightarrow> (Some (Inl e), h')
     | (Inr (Some reason), h') \<Rightarrow> (Some (Ok reason), h')
     | (Inr None, h') \<Rightarrow> run_loop run evs h'))"

text \<open>\<^verbatim>\<open>Handler::run\<close>: the chain is flushed unless a transform failed or asked to close.\<close>

definition handler_run ::
  "'c runner \<Rightarrow> (turn \<times> event) list \<Rightarrow> 'c handler \<Rightarrow> unit result option \<times> 'c handler" where
  "handler_run run evs h = (case run_loop run evs h of
     (None, h') \<Rightarrow> (None, h')
   | (Some (Inl e), h') \<Rightarrow> (Some (Inl e), h')
   | (Some (Inr TransformRequested), h') \<Rightarrow> (Some (Ok ()), h')
   | (Some (Inr _), h') \<Rightarrow> (case run flush_state (h_chain h') of (r, _, c) \<Rightarrow>
       (case r of Inl (Panic s) \<Rightarrow> Some (Inl (Panic s)) | _ \<Rightarrow> Some (Ok ()), h'\<lparr>h_chain := c\<rparr>)))"

subsection \<open>Every request gets one response\<close>

definition event_requests :: "event \<Rightarrow> messages" where
  "event_requests ev = (case ev of
     ForceRunChain batches \<Rightarrow> concat batches | Received first batches \<Rightarrow> first @ concat batches | _ \<Rightarrow> [])"

lemma valkey_metadata: "message_type m = Valkey \<Longrightarrow> message_metadata D m = Ok MValkey"
  by (cases "inner m")
    (auto simp: message_type_def message_metadata_def split: frame.splits message_inner.splits dest: sym elim: get_type.elims)

lemma cassandra_pending_distinct:
  "distinct (map fst ps) \<Longrightarrow> distinct (map fst (fold (\<lambda>m. AList.update (id m) (md m)) ms ps))"
  by (induction ms arbitrary: ps) (auto simp: AList.distinct_update)

lemma valkey_errors: "length (to_errors nid e (Ordered (replicate n (Ok MValkey)))) = n"
proof -
  have "length (List.map_filter (\<lambda>(k, p). to_error nid e k p) (enumerate i (replicate n (Ok MValkey)))) = n" for i
    by (induction n arbitrary: i) (auto simp: map_filter_simps to_error_def to_error_response_def)
  then show ?thesis by simp
qed

lemma answered_count: "length (filter (\<lambda>r. request_id r \<noteq> None) rs) = length (answered rs)"
  by (induction rs) (auto split: option.splits)

text \<open>The pending requests of a Valkey connection are as many as the chain has not answered.\<close>

definition valkey_pending :: "message_id list \<Rightarrow> pending_requests" where
  "valkey_pending ids = Ordered (replicate (length ids) (Ok MValkey))"

lemma add_valkey_pending:
  assumes "\<forall>m \<in> set ms. message_type m = Valkey"
  shows "add_pending D ms (valkey_pending ids) = valkey_pending (ids @ map id ms)"
proof -
  have "map (message_metadata D) ms = replicate (length ms) (Ok MValkey)"
    using assms by (induction ms) (auto simp: valkey_metadata)
  then show ?thesis by (simp add: valkey_pending_def replicate_add)
qed

lemma remove_valkey_pending:
  "remove_pending rs (valkey_pending (answered rs @ left)) = valkey_pending left"
  unfolding valkey_pending_def remove_pending.simps answered_count Let_def by simp

lemma valkey_pending_errors: "length (to_errors nid e (valkey_pending ids)) = length ids"
  unfolding valkey_pending_def by (rule valkey_errors)

text \<open>One turn of the loop, with a client that is still there.\<close>

lemma turn_answers:
  assumes "transform_contract (accounted True) run chan" and "chan (h_chain h) ids" and p: "h_pending h = valkey_pending ids"
    and ms: "\<forall>m \<in> set ms. message_type m = Valkey" and w: "\<not> tn_writer_gone T"
    and r: "send_receive_chain run T ms h = (r, h')"
  shows "case r of
      Inr _ \<Rightarrow> \<exists>rs left. concat (h_out h') = concat (h_out h) @ rs \<and> ids @ map id ms = answered rs @ left
         \<and> h_pending h' = valkey_pending left \<and> chan (h_chain h') left
    | Inl (Err _) \<Rightarrow> \<exists>errs. concat (h_out h') = concat (h_out h) @ errs \<and> length errs = length (ids @ map id ms)
    | Inl (Panic _) \<Rightarrow> h_out h' = h_out h"
proof -
  obtain res cs c where run: "run (new_with_addr ms (tn_local_addr T)) (h_chain h) = (res, cs, c)" by (metis prod_cases3)
  note pend = add_valkey_pending[OF ms, of "tn_dec T" ids]
  show ?thesis
  proof (cases res)
    case (Inl e)
    then show ?thesis using r run p pend w
      by (cases e) (auto simp: send_receive_chain_def Let_def valkey_pending_errors)
  next
    case (Inr rs)
    obtain left where l: "ids @ map id ms = answered rs @ left" "chan c left"
      using transform_contract.step_accounts[OF assms(1,2) run[unfolded Inr]]
      by (auto simp: accounted_def new_with_addr_def)
    have "h_pending h' = valkey_pending left" "h_chain h' = c" "concat (h_out h') = concat (h_out h) @ rs" "isl r = False"
      using r run Inr p pend w l(1) remove_valkey_pending[of rs left] by (auto simp: send_receive_chain_def Let_def)
    then show ?thesis using l by (cases r) auto
  qed
qed

definition processed :: "nat \<Rightarrow> (turn \<times> event) list \<Rightarrow> message_id list" where
  "processed n evs = map id (concat (map (\<lambda>(T, ev). event_requests ev) (take n evs)))"

lemma processed_Suc [simp]: "processed (Suc n) ((T, ev) # evs) = map id (event_requests ev) @ processed n evs"
  and processed_0 [simp]: "processed 0 evs = []"
  by (simp_all add: processed_def)

definition failed :: "close_reason result option \<Rightarrow> bool" where
  "failed r \<longleftrightarrow> (\<exists>e. r = Some (Inl (Err e)))"

text \<open>
  The loop: what went to the client answers the first requests in their order and, if the chain
  failed, ends with as many error responses as there were requests without an answer.
\<close>

lemma run_loop_answers:
  assumes ct: "transform_contract (accounted True) run chan" and "chan (h_chain h) ids" and "h_pending h = valkey_pending ids"
    and "\<forall>(T, ev) \<in> set evs. \<not> tn_writer_gone T \<and> (\<forall>m \<in> set (event_requests ev). message_type m = Valkey)"
    and "run_loop run evs h = (r, h')"
  shows "\<exists>n outs errs left. n \<le> length evs \<and> (r = None \<longrightarrow> n = length evs)
    \<and> concat (h_out h') = concat (h_out h) @ outs @ errs \<and> ids @ processed n evs = answered outs @ left
    \<and> length errs = (if failed r then length left else 0)"
  using assms(2-)
proof (induction evs arbitrary: h ids)
  case Nil
  then show ?case by (auto simp: failed_def intro!: exI[of _ "0 :: nat"] exI[of _ "[]"])
next
  case (Cons tev evs)
  obtain T ev where t: "tev = (T, ev)" by fastforce
  show ?case
  proof (cases "ev = ShutdownSignal \<or> ev = NoMoreRequests")
    case True
    then have "r \<noteq> None" "\<not> failed r" "h' = h" using Cons(5) t by (auto simp: failed_def)
    then show ?thesis
      by (intro exI[of _ "0 :: nat"] exI[of _ "[]"] exI[of _ "[] :: messages"] exI[of _ ids]) simp
  next
    case False
    let ?ms = "event_requests ev"
    obtain x h1 where s: "send_receive_chain run T ?ms h = (x, h1)" by fastforce
    have loop: "run_loop run (tev # evs) h = (case x of
        Inl e \<Rightarrow> (Some (Inl e), h1) | Inr (Some reason) \<Rightarrow> (Some (Ok reason), h1) | Inr None \<Rightarrow> run_loop run evs h1)"
      using False s t by (cases ev) (auto simp: event_requests_def)
    have turn: "\<forall>m \<in> set ?ms. message_type m = Valkey" "\<not> tn_writer_gone T" using Cons(4) t by auto
    note ta = turn_answers[OF ct Cons(2,3) turn s]
    show ?thesis
    proof (cases x)
      case (Inl e)
      show ?thesis
      proof (cases e)
        case (Err m)
        with ta Inl obtain errs where "concat (h_out h1) = concat (h_out h) @ errs" "length errs = length (ids @ map id ?ms)" by auto
        moreover have "failed r" "r \<noteq> None" "h' = h1" using Cons(5) loop Inl Err by (auto simp: failed_def)
        ultimately have "Suc 0 \<le> length (tev # evs) \<and> (r = None \<longrightarrow> Suc 0 = length (tev # evs))
            \<and> concat (h_out h') = concat (h_out h) @ [] @ errs \<and> ids @ processed (Suc 0) (tev # evs) = answered [] @ ids @ map id ?ms
            \<and> length errs = (if failed r then length (ids @ map id ?ms) else 0)"
          using t by auto
        then show ?thesis by blast
      next
        case (Panic m)
        with ta Inl have "h_out h' = h_out h" "r \<noteq> None" "\<not> failed r" using Cons(5) loop by (auto simp: failed_def)
        then show ?thesis
          by (intro exI[of _ "0 :: nat"] exI[of _ "[]"] exI[of _ "[] :: messages"] exI[of _ ids]) simp
      qed
    next
      case (Inr y)
      with ta obtain rs left where l: "concat (h_out h1) = concat (h_out h) @ rs" "ids @ map id ?ms = answered rs @ left"
        "h_pending h1 = valkey_pending left" "chan (h_chain h1) left" by auto
      show ?thesis
      proof (cases y)
        case (Some reason)
        then have "r = Some (Ok reason)" "h' = h1" using Cons(5) loop Inr by auto
        then show ?thesis using l t
          by (intro exI[of _ "Suc 0"] exI[of _ rs] exI[of _ "[] :: messages"] exI[of _ left]) (simp add: failed_def)
      next
        case None
        then have "run_loop run evs h1 = (r, h')" using Cons(5) loop Inr by simp
        from Cons(1)[OF l(4,3) _ this] Cons(4) obtain n outs errs left' where
          n: "n \<le> length evs" "r = None \<longrightarrow> n = length evs" "concat (h_out h') = concat (h_out h1) @ outs @ errs"
            "left @ processed n evs = answered outs @ left'" "length errs = (if failed r then length left' else 0)" by auto
        have "ids @ map id ?ms @ processed n evs = answered rs @ left @ processed n evs"
          using l(2) by (metis append_assoc)
        then have "ids @ processed (Suc n) (tev # evs) = answered (rs @ outs) @ left'" using n(4) t by simp
        then show ?thesis using n l(1)
          by (intro exI[of _ "Suc n"] exI[of _ "rs @ outs"] exI[of _ errs] exI[of _ left']) simp
      qed
    qed
  qed
qed

end
