(* ===== verification/Chain_Theorems.thy ===== *)
theory Chain_Theorems
  imports Topology Single_Sink_Contract Source_Task
begin

text \<open>
  The properties of chains: from a configuration that is accepted to the responses a client gets.
\<close>

subsection \<open>Reachable chains\<close>

text \<open>The states of a chain: as it was built, and after each call.\<close>

inductive chain_reach :: "('b, 's) transform_chain \<Rightarrow> ('b, 's) transform_chain \<Rightarrow> bool" for tc0 where
  built: "chain_reach tc0 tc0"
| called: "chain_reach tc0 tc \<Longrightarrow> process_request P cs tc = (r, cs', tc') \<Longrightarrow> chain_reach tc0 tc'"

lemma transform_step_terminates:
  "transform_step P next c t cs = (r, cs', t', c') \<Longrightarrow> terminates t' = terminates t"
  by (cases t) (auto simp: transform_step_def as_transform_def terminal_def split: prod.splits)

lemma call_from_terminated:
  assumes "call_from P fin ms cs = (r, cs', ms')" and "terminated ms"
  shows "terminated ms'"
  using assms
proof (induction ms arbitrary: cs r cs' ms')
  case (Cons m ms)
  then obtain t' ms1 where t: "transform_step P (call_from P fin ms) ms (tm_transform m) cs = (r, cs', t', ms1)"
    and ms': "ms' = record_call r t' m # ms1" by (auto split: prod.splits)
  have len: "length ms1 = length ms" using transform_step_rest[OF t] call_from_length by auto
  show ?case
  proof (cases "ms = []")
    case True
    then show ?thesis using Cons(3) transform_step_terminates[OF t] ms' len by (simp add: terminated_def)
  next
    case False
    then have "terminated ms" using Cons(3) by (simp add: terminated_def)
    then have "terminated ms1" using transform_step_rest[OF t] Cons(1) by auto
    then show ?thesis using ms' by (auto simp: terminated_def)
  qed
qed (simp add: terminated_def)

lemma chain_reach_terminated:
  "chain_reach tc0 tc \<Longrightarrow> terminated (tc_chain tc0) \<Longrightarrow> terminated (tc_chain tc)"
proof (induction rule: chain_reach.induct)
  case (called tc P cs r cs' tc')
  then obtain ms where "call_from P end_of_chain (tc_chain tc) (cs\<lparr>chain_name := tc_name tc\<rparr>) = (r, cs', ms)" "tc_chain tc' = ms"
    by (auto simp: process_request_def call_next_transform_def Let_def split: prod.splits sum.splits err.splits)
  then show ?case using call_from_terminated called by blast
qed

lemma validated_terminated:
  assumes "validate_chain (ChainBuilder name ts) = []"
  shows "terminated (tc_chain (build_chain E sub mk (ChainBuilder name ts)))"
proof -
  have ts: "ts \<noteq> []" "validate_transforms ts = []" using assms by (auto split: if_splits)
  then have "is_terminating (snd (ts ! (length ts - 1)))" by (simp add: validate_transforms_Nil)
  then show ?thesis using ts(1)
    by (simp add: terminated_def build_chain_def last_map last_conv_nth case_prod_beta terminates_build)
qed

subsection \<open>Configuration\<close>

text \<open>
  C6: A topology that \<^verbatim>\<open>run_chains\<close> accepts has unique names of sources and of transforms, with those in
  sub-chains; every transform is given a protocol it accepts; and a chain built from it, however often
  it was called, never reaches the panic for a chain that does not end with a terminating transform.
\<close>

theorem accepted_topology_is_well_typed:
  assumes "run_chains prep bind srcs listeners = Ok bs"
  shows "distinct (map src_name srcs) \<and> distinct (topology_names srcs)
    \<and> list_all2 (\<lambda>src b. well_typed (src_protocol src) (src_chain src)
        \<and> (\<forall>tc P fin cs. chain_reach (build_chain E sub mk b :: ('b, 't) transform_chain) tc \<longrightarrow>
             call_next_transform P (tc_chain tc) cs = call_from P fin (tc_chain tc) cs)) srcs bs"
proof -
  obtain es where b: "build_sources prep bind srcs listeners = (es, bs)" and es: "es = []"
    and names: "report_duplicates ''source'' (source_uses (collect_names srcs)) = []"
      "report_duplicates ''transform'' (transform_uses (collect_names srcs)) = []"
    using assms by (auto simp: run_chains_def Let_def split: prod.splits if_splits)
  have "list_all2 (\<lambda>src b. well_typed (src_protocol src) (src_chain src)
      \<and> (\<forall>tc P fin cs. chain_reach (build_chain E sub mk b :: ('b, 't) transform_chain) tc \<longrightarrow>
           call_next_transform P (tc_chain tc) cs = call_from P fin (tc_chain tc) cs)) srcs bs"
    using build_sources_ok[OF b[unfolded es]]
  proof (rule list_all2_mono)
    fix src b assume "\<exists>ts. b = ChainBuilder (src_name src) ts \<and> get_builders prep (src_protocol src) (src_chain src) = Ok ts \<and> validate_chain b = []"
    then obtain ts where ts: "b = ChainBuilder (src_name src) ts" "get_builders prep (src_protocol src) (src_chain src) = Ok ts" "validate_chain b = []"
      by blast
    have "call_next_transform P (tc_chain tc) cs = call_from P fin (tc_chain tc) cs"
      if "chain_reach (build_chain E sub mk b :: ('b, 't) transform_chain) tc" for tc P fin cs
      using terminated_ignores_end[OF chain_reach_terminated[OF that]] validated_terminated ts(1,3)
      by (metis call_next_transform_def)
    then show "well_typed (src_protocol src) (src_chain src) \<and> (\<forall>tc P fin cs. chain_reach (build_chain E sub mk b :: ('b, 't) transform_chain) tc \<longrightarrow>
        call_next_transform P (tc_chain tc) cs = call_from P fin (tc_chain tc) cs)"
      using get_builders_typed(2)[OF ts(2)] by blast
  qed
  then show ?thesis using names by (simp add: names_unique)
qed

definition ex_topology :: "source_config list" where
  "ex_topology = [\<lparr>src_name = ''foo'', src_listen_addr = ''127.0.0.1:6379'', src_protocol = Valkey,
     src_chain = [(''debug'', PrinterConfig), (''tee'', TeeConfig [(''inner'', NullSinkConfig)] None), (''sink'', SinkConfig ValkeySinkSingle)]\<rparr>]"

lemma ex_topology_accepted: "\<exists>bs. run_chains (\<lambda>_. Ok ()) (\<lambda>_. Ok ()) ex_topology [] = Ok bs"
proof -
  have "distinct (topology_names ex_topology)" "distinct (map src_name ex_topology)"
    by (simp_all add: ex_topology_def topology_names_def)
  moreover have "report_duplicates ''chain'' (chain_uses (collect_names ex_topology)) = []"
    by (simp add: ex_topology_def report_duplicates_Nil duplicate_names_def collect_names_def collect_source_names_def
        register_chain_def register_transform_def register_source_def push_to_def filter_empty_conv Let_def)
  moreover have "\<exists>bs. build_sources (\<lambda>_. Ok ()) (\<lambda>_. Ok ()) ex_topology [] = ([], bs)"
    by (simp add: ex_topology_def source_start_def chain_get_builder_def accepts_def next_protocol_def Let_def
        position_errors_def indent_def titled_def listen_port_def parse_u16_def digits_value_def)
  ultimately show ?thesis by (auto simp: run_chains_def Let_def names_unique)
qed

theorem accepted_topology_is_well_typed_witness:
  "\<exists>bs. run_chains (\<lambda>_. Ok ()) (\<lambda>_. Ok ()) ex_topology [] = Ok bs \<and> distinct (topology_names ex_topology)
   \<and> well_typed Valkey (src_chain (hd ex_topology))"
proof -
  obtain bs where bs: "run_chains (\<lambda>_. Ok ()) (\<lambda>_. Ok ()) ex_topology [] = Ok bs"
    using ex_topology_accepted by blast
  have "distinct (topology_names ex_topology) \<and> list_all2 (\<lambda>src b. well_typed (src_protocol src) (src_chain src)) ex_topology bs"
    using accepted_topology_is_well_typed[OF bs, where E = E and sub = "\<lambda>_. ()" and mk = "\<lambda>_. ()"] by (auto elim: list_all2_mono)
  then show ?thesis using bs by (auto simp: ex_topology_def list_all2_Cons1)
qed

text \<open>Each transform of a sub-chain is registered once for each copy of the sub-chain.\<close>

lemma transform_names_sub:
  assumes "(name, c) \<in> set cs" and "distinct (transform_names cs)"
  shows "distinct (concat (map (\<lambda>(sub, nm). transform_names sub) (sub_chain_configs name c)))"
  using assms by (induction cs rule: transform_names.induct) auto

lemma transform_names_Nil: "transform_names cs = [] \<longleftrightarrow> cs = []"
  by (cases cs rule: transform_names.cases) auto

lemma parallel_names_repeat:
  assumes "(name, ParallelMapConfig n sub ordered) \<in> set cs" and "sub \<noteq> []" and "2 \<le> n"
  shows "\<not> distinct (transform_names cs)"
proof
  assume "distinct (transform_names cs)"
  from transform_names_sub[OF assms(1) this]
  have "distinct (concat (map (\<lambda>i. transform_names sub) [0..<n]))" by (simp add: comp_def)
  moreover have "[0..<n] = 0 # 1 # [2..<n]"
    using assms(3) by (simp add: upt_conv_Cons numeral_2_eq_2)
  ultimately have "set (transform_names sub) \<inter> set (transform_names sub) = {}" by auto
  then show False using assms(2) by (simp add: transform_names_Nil)
qed

text \<open>
  C34: A topology with a \<^verbatim>\<open>ParallelMap\<close> whose parallelism is two or more and whose sub-chain has a transform is
  never accepted: the names in the sub-chain are registered once for each copy of it and then reported
  as duplicates.
\<close>

theorem parallel_map_is_rejected:
  assumes "src \<in> set srcs" and "(name, ParallelMapConfig n sub ordered) \<in> set (src_chain src)"
    and "sub \<noteq> []" and "2 \<le> n"
  shows "\<exists>e. run_chains prep bind srcs listeners = Inl (Err e)"
proof -
  have "\<not> distinct (transform_names (src_chain src))" using parallel_names_repeat[OF assms(2-4)] .
  then have "\<not> distinct (topology_names srcs)"
    using assms(1) by (auto simp: topology_names_def in_set_conv_decomp)
  then have "report_duplicates ''transform'' (transform_uses (collect_names srcs)) \<noteq> []" by (simp add: names_unique)
  then show ?thesis by (auto simp: run_chains_def Let_def split: prod.split)
qed

definition ex_parallel :: source_config where
  "ex_parallel = \<lparr>src_name = ''foo'', src_listen_addr = ''127.0.0.1:6379'', src_protocol = Valkey,
     src_chain = [(''parallel'', ParallelMapConfig 2 [(''sink'', SinkConfig ValkeySinkSingle)] True)]\<rparr>"

theorem parallel_map_is_rejected_witness:
  "\<exists>e. run_chains (\<lambda>_. Ok ()) (\<lambda>_. Ok ()) [ex_parallel] [] = Inl (Err e)"
  by (rule parallel_map_is_rejected[of ex_parallel _ "''parallel''" 2 "[(''sink'', SinkConfig ValkeySinkSingle)]" True])
    (simp_all add: ex_parallel_def)

subsection \<open>Answers\<close>

lemma built_chain_outstanding:
  assumes "validate_chain (ChainBuilder name ts) = []" and "\<forall>(n, b) \<in> set ts. contract_builder ordered b"
    and "\<forall>b. schan (mk b) [] \<and> rok (mk b)" and "\<forall>cb. bchan (sub cb) []"
  shows "transform_chain_chan ordered bchan rok schan (build_chain E sub mk (ChainBuilder name ts)) []"
  using built_chain_chan[where schan = schan and mk = mk and rok = rok and bchan = bchan and sub = sub, OF _ _ assms(2-)] assms(1)
  by (auto simp: transform_chain_chan_def build_chain_def split: if_splits)


text \<open>A chain of the parameters' simplest kind: sinks and sub-chains send each request back.\<close>

definition ex_providers :: "chain_env \<Rightarrow> (unit, unit) providers" where
  "ex_providers E =
    \<lparr>pv_env = E, pv_run = (\<lambda>cs u. case loopback_transform cs of (r, cs') \<Rightarrow> (r, cs', u)), pv_sent = True,
     pv_before = (\<lambda>ms s. (Ok ms, s)), pv_after = (\<lambda>rs s. (Ok rs, s)),
     pv_sink = (\<lambda>cs u. case loopback_transform cs of (r, cs') \<Rightarrow> (r, cs', u))\<rparr>"

lemma ex_providers_ok: "providers_ok ordered none_outstanding (\<lambda>_. True) none_outstanding (ex_providers E)"
  unfolding providers_ok_def ex_providers_def
  using loopback_sink.transform_contract_axioms by auto

definition ex_request :: "message_id \<Rightarrow> message" where
  "ex_request i = \<lparr>inner = Modified (FValkey VNull), received_at = None, codec = CValkey, id = i, request_id = None\<rparr>"

definition ex_items :: "(string \<times> unit builder) list" where
  "ex_items = [(''printer'', PrinterBuilder), (''coalesce'', CoalesceBuilder \<lparr>cb_count = Some 2, cb_millis = None\<rparr>),
     (''tee'', TeeBuilder (ChainBuilder ''tee'' [(''null'', NullBuilder)]) BLogWarningOnMismatch RegularChain True), (''sink'', SinkBuilder ''S'' ())]"

definition ex_call :: "message_id \<Rightarrow> chain_state" where
  "ex_call i = new_with_addr [ex_request i] (0, 0)"

lemmas run_chain_simps =
  build_chain_def build_transform_def process_request_def call_next_transform_def transform_step_def as_transform_def
  terminal_def record_call_def note_size_def new_with_addr_def

lemmas run_transform_simps =
  printer_transform_def coalesce_transform_def coalesce_build_def wants_flush_def millis_due_def restart_clock_def
  loopback_transform_def set_request_id_def tee_build_def build_buffered_def tee_transform_def compare_chains_def
  join_chains_def buffered_process_request_def run_batch_def clone_state_def new_responses_def resolve_def
  message_eq_def pop_requestless_def

lemma ex_calls:
  "\<exists>out tc. run_calls (process_request (ex_providers E)) [ex_call 1, ex_call 2]
      (build_chain E (\<lambda>_. ()) (\<lambda>_. ()) (ChainBuilder ''chain'' ex_items)) = Some (out, tc) \<and> answered out = [1, 2]"
  by (simp add: ex_items_def ex_call_def ex_request_def ex_providers_def run_chain_simps run_transform_simps frame_cases Let_def)


text \<open>
  C4: A client of a Valkey source whose chain is validated, without \<^verbatim>\<open>RequestThrottling\<close>, and whose sinks and
  sub-chains keep their promise: what the handler sends to the client answers the first requests of
  the client, each once and in their order, besides responses that no request asked for; and
  when the chain fails the client gets as many error responses as it has requests without an answer.
\<close>

theorem client_is_answered_in_order:
  assumes "providers_ok True bchan rok schan P"
    and "validate_chain (ChainBuilder name ts) = []" and "\<forall>(n, b) \<in> set ts. contract_builder True b"
    and "\<forall>b. schan (mk b) [] \<and> rok (mk b)" and "\<forall>cb. bchan (sub cb) []"
    and "\<forall>(T, ev) \<in> set evs. \<not> tn_writer_gone T \<and> (\<forall>m \<in> set (event_requests ev). message_type m = Valkey)"
    and "run_loop (process_request P) evs \<lparr>h_chain = build_chain E sub mk (ChainBuilder name ts), h_chain_name = name,
           h_pending = pending_new Valkey, h_out = []\<rparr> = (r, h)"
  shows "\<exists>n outs errs left. n \<le> length evs \<and> (r = None \<longrightarrow> n = length evs)
    \<and> concat (h_out h) = outs @ errs \<and> processed n evs = answered outs @ left
    \<and> length errs = (if failed r then length left else 0)"
proof -
  have "transform_chain_chan True bchan rok schan (build_chain E sub mk (ChainBuilder name ts)) []"
    by (rule built_chain_outstanding[where schan = schan and mk = mk and rok = rok and bchan = bchan and sub = sub, OF assms(2-5)])
  from run_loop_answers[OF process_request_contract[OF assms(1)] _ _ assms(6,7), of "[]"] this
  show ?thesis by (simp add: valkey_pending_def)
qed

text \<open>A chain that ends in the Valkey sink, and a server that answers one request at a time.\<close>

definition valkey_providers :: "chain_env \<Rightarrow> network \<Rightarrow> (unit, valkey_sink_single) providers" where
  "valkey_providers E N =
    \<lparr>pv_env = E, pv_run = (\<lambda>cs u. case loopback_transform cs of (r, cs') \<Rightarrow> (r, cs', u)), pv_sent = True,
     pv_before = (\<lambda>ms s. (Ok ms, s)), pv_after = (\<lambda>rs s. (Ok rs, s)),
     pv_sink = (\<lambda>cs s. returned (valkey_single_transform N (ce_dec E) (ce_nid E) cs s) cs s)\<rparr>"

lemma valkey_providers_ok:
  "server_ok (nw_srv N) \<Longrightarrow>
    providers_ok True none_outstanding (\<lambda>_. True) (\<lambda>s. conn_chan (vs_connection s)) (valkey_providers E N)"
  unfolding providers_ok_def valkey_providers_def
  using loopback_sink.transform_contract_axioms valkey_single_contract by auto

definition ex_server :: "sink_connection \<Rightarrow> wait" where
  "ex_server c = (case out_tx c of
     [m] \<Rightarrow> if inserter c = \<lparr>dummy_requests = [], pending_requests_count = 1\<rparr>
            then Arrives [\<lparr>inner = Modified (FValkey VNull), received_at = None, codec = CValkey, id = 9, request_id = Some (id m)\<rparr>]
            else Closes
   | _ \<Rightarrow> Closes)"

lemma ex_server_ok: "server_ok ex_server"
proof -
  have "arrived_ok q [r]" if "inserter_abs q = \<lparr>dummy_requests = [], pending_requests_count = 1\<rparr>"
    and "suffix (map fst q) [i]" and "request_id r = Some i" for q r i
    using that by (cases q) (auto simp: inserter_abs_def arrived_ok_def real_ids_def suffix_Cons split: prod.splits if_splits)
  then show ?thesis by (auto simp: server_ok_def ex_server_def split: list.splits if_splits)
qed

definition ex_turn :: "chain_env \<Rightarrow> turn" where
  "ex_turn E = \<lparr>tn_dec = ce_dec E, tn_nid = ce_nid E, tn_local_addr = (0, 0), tn_writer_gone = False\<rparr>"

lemma ex_sink_answers:
  assumes "cs = \<lparr>requests = [ex_request i], local_addr = a, flush = False, close_client_connection = False, chain_name = nm\<rparr>"
  shows "\<exists>rs s'. valkey_single_transform \<lparr>nw_connect = Ok (), nw_srv = ex_server\<rparr> D nid cs \<lparr>vs_connection = None, vs_failed_requests = 0\<rparr>
    = Some (Ok rs, cs\<lparr>requests := []\<rparr>, s') \<and> map request_id rs = [Some i]"
  unfolding assms
  apply (simp add: valkey_single_transform_def ensure_connected_def send_requests_def conn_send_def process_requests_def response_is_dummy_def
      ex_request_def conn_new_def inserter_new_def message_type_def Let_def)
  apply (subst recv_until.simps)
  apply (simp add: try_recv_into_def recv_into_def ex_server_def process_responses_def Let_def)
  apply (subst recv_until.simps)
  apply (simp add: frame_cases)
  done

lemma ex_request_frame [simp]: "frame D (ex_request i) = (Some (FValkey VNull), ex_request i)"
  by (simp add: ex_request_def frame_cases)

lemma ex_client_runs:
  "\<exists>h. run_loop (process_request (valkey_providers E \<lparr>nw_connect = Ok (), nw_srv = ex_server\<rparr>))
      [(ex_turn E, Received [ex_request 1] [])]
      \<lparr>h_chain = build_chain E (\<lambda>_. ()) (\<lambda>_. \<lparr>vs_connection = None, vs_failed_requests = 0\<rparr>)
         (ChainBuilder ''c'' [(''p'', PrinterBuilder), (''s'', SinkBuilder ''S'' ())]),
       h_chain_name = ''c'', h_pending = pending_new Valkey, h_out = []\<rparr> = (None, h) \<and> answered (concat (h_out h)) = [1]"
  using ex_sink_answers[OF refl, of "ce_dec E" "ce_nid E" 1 "(0, 0)" "''c''"]
  by (auto simp: ex_turn_def valkey_providers_def send_receive_chain_def run_chain_simps printer_transform_def returned_def Let_def)

theorem client_is_answered_in_order_witness:
  "\<forall>E. \<exists>h left. run_loop (process_request (valkey_providers E \<lparr>nw_connect = Ok (), nw_srv = ex_server\<rparr>))
      [(ex_turn E, Received [ex_request 1] [])]
      \<lparr>h_chain = build_chain E (\<lambda>_. ()) (\<lambda>_. \<lparr>vs_connection = None, vs_failed_requests = 0\<rparr>)
         (ChainBuilder ''c'' [(''p'', PrinterBuilder), (''s'', SinkBuilder ''S'' ())]),
       h_chain_name = ''c'', h_pending = pending_new Valkey, h_out = []\<rparr> = (None, h)
    \<and> [1] = answered (concat (h_out h)) @ left"
proof
  fix E
  let ?evs = "[(ex_turn E, Received [ex_request 1] [])]"
  let ?h = "\<lparr>h_chain = build_chain E (\<lambda>_. ()) (\<lambda>_. \<lparr>vs_connection = None, vs_failed_requests = 0\<rparr>)
         (ChainBuilder ''c'' [(''p'', PrinterBuilder), (''s'', SinkBuilder ''S'' ())]),
       h_chain_name = ''c'', h_pending = pending_new Valkey, h_out = []\<rparr>"
  let ?run = "process_request (valkey_providers E \<lparr>nw_connect = Ok (), nw_srv = ex_server\<rparr>)"
  obtain h where h: "run_loop ?run ?evs ?h = (None, h)" using ex_client_runs by blast
  have "\<exists>n outs errs left. n \<le> length ?evs \<and> (None = (None :: close_reason result option) \<longrightarrow> n = length ?evs)
    \<and> concat (h_out h) = outs @ errs \<and> processed n ?evs = answered outs @ left
    \<and> length errs = (if failed None then length left else 0)"
    by (rule client_is_answered_in_order[OF valkey_providers_ok _ _ _ _ _ h])
      (simp_all add: ex_server_ok position_errors_def none_outstanding_def conn_chan_def ex_turn_def event_requests_def ex_request_def message_type_def)
  then have "\<exists>left. [1] = answered (concat (h_out h)) @ left"
    by (auto simp: failed_def processed_def event_requests_def ex_request_def)
  then show "\<exists>h left. run_loop ?run ?evs ?h = (None, h) \<and> [1] = answered (concat (h_out h)) @ left" using h by blast
qed

subsection \<open>Waiting for the server\<close>

lemma valkey_single_enough:
  assumes srv: "server_ok (nw_srv N)" and chan: "conn_chan (vs_connection s) ids"
    and r: "valkey_single_transform N D nid cs s = Some (Ok rs, cs', s')"
  shows "length (requests cs) \<le> length (answered rs)"
proof (cases "requests cs = []")
  case False
  obtain c u c1 seen c2 where c: "ensure_connected N (vs_connection s) = Ok c" and s: "send_requests D (requests cs) c = (Ok u, c1)"
    and w: "recv_until N nid False (\<lambda>rs. length (answered rs)) (\<lambda>m. snd (frame D m)) (length (requests cs)) [] c1 = Some (Ok rs, seen, c2)"
    using r False by (auto simp: valkey_single_transform_def split: prod.splits sum.splits option.splits)
  have "sink_chan c1 (ids @ map id (requests cs))"
    using s sink_chan_send[OF ensure_connected_chan[OF chan c]]
    by (auto simp: send_requests_def split: prod.splits conn_result.splits)
  from recv_until_in_order[OF w srv keeps_ids_frame this] show ?thesis by auto
qed simp

text \<open>
  C32: When the server answers what it was asked, a call of the Valkey sink returns; if it returns responses,
  they answer the oldest outstanding requests in order, at least as many as the call had requests.
\<close>

theorem valkey_sink_returns:
  assumes "server_ok (nw_srv N)" and "server_answers (nw_srv N)" and "conn_chan (vs_connection s) ids"
  shows "\<exists>r cs' s'. valkey_single_transform N D nid cs s = Some (r, cs', s')
    \<and> (case r of Inr rs \<Rightarrow> length (requests cs) \<le> length (answered rs)
          \<and> (\<exists>left. ids @ map id (requests cs) = answered rs @ left \<and> conn_chan (vs_connection s') left)
        | Inl _ \<Rightarrow> True)"
proof -
  obtain r cs' s' where v: "valkey_single_transform N D nid cs s = Some (r, cs', s')"
    using valkey_single_returns[OF assms] by (metis prod_cases3)
  moreover have "\<exists>left. ids @ map id (requests cs) = answered rs @ left \<and> conn_chan (vs_connection s') left"
    if "r = Ok rs" for rs
    using transform_contract.step_accounts[OF valkey_single_contract[OF assms(1)] assms(3), of D nid cs rs cs' s'] v that
    by (simp add: accounted_def returned_def)
  ultimately show ?thesis
    using valkey_single_enough[OF assms(1,3), of D nid cs _ cs' s'] by (auto split: sum.split)
qed

lemma ex_server_answers: "server_answers ex_server"
  by (simp add: server_answers_def ex_server_def split: list.split)

theorem valkey_sink_returns_witness:
  "\<forall>D nid. \<exists>r cs' s'. valkey_single_transform \<lparr>nw_connect = Ok (), nw_srv = ex_server\<rparr> D nid (ex_call 1) \<lparr>vs_connection = None, vs_failed_requests = 0\<rparr>
      = Some (r, cs', s') \<and> (case r of Inr rs \<Rightarrow> length (requests (ex_call 1)) \<le> length (answered rs)
          \<and> (\<exists>left. [] @ map id (requests (ex_call 1)) = answered rs @ left \<and> conn_chan (vs_connection s') left)
        | Inl _ \<Rightarrow> True)"
  by (intro allI valkey_sink_returns) (simp_all add: ex_server_ok ex_server_answers conn_chan_def)

end
