(* ===== verification/Transform_Theorems.thy ===== *)
theory Transform_Theorems
  imports Chain_Theorems
begin

text \<open>
  Properties of single transforms in a chain: when \<^verbatim>\<open>ParallelMap\<close> ends and what it answers, and the ways in
  which filtering twice, throttling, coalescing and comparing responses go wrong.
\<close>

subsection \<open>ParallelMap\<close>

lemma parallel_map_returns:
  "(\<exists>out. parallel_map_transform run arrival p cs = Some out) \<longleftrightarrow> pm_chains p \<noteq> [] \<or> requests cs = []"
proof (cases "pm_chains p = []")
  case True
  then show ?thesis
    using parallel_loop_stuck[of run _ "local_addr cs" "[]" "requests cs"] parallel_loop.simps[of run _ "local_addr cs" "[]" "[]" "[]"]
    by (fastforce simp: parallel_map_transform_def split: option.splits)
next
  case False
  obtain r bs where "parallel_loop run (if pm_ordered p then (\<lambda>rs. rs) else arrival) (local_addr cs) [] (pm_chains p) (requests cs) = Some (r, bs)"
    using parallel_loop_ends[OF False] by (metis surj_pair)
  then show ?thesis using False by (simp add: parallel_map_transform_def)
qed



subsection \<open>Filtering twice\<close>

lemma dummy_has_no_query_type:
  "get_query_type D (replace_with_dummy m) = (Inl (Panic ''not yet implemented''), replace_with_dummy m)"
  by (simp add: get_query_type_def replace_with_dummy_def frame_cases)

text \<open>
  A request that one \<^verbatim>\<open>QueryTypeFilter\<close> filters out makes a second one after it in the chain panic: the
  dummy that takes the place of the request has no query type.
\<close>

theorem second_filter_panics:
  assumes "tm_transform m1 = QueryTypeFilter f1" and "tm_transform m2 = QueryTypeFilter f2"
    and "requests cs = [m]" and "get_query_type (ce_dec (pv_env P)) m = (Ok t, m')" and "filter_out (qtf_filter f1) t"
    and "from_request_to_error_response (ce_dec (pv_env P)) (ce_nid (pv_env P) (id m')) m'
           ''Message was filtered out by shotover'' Rejected = Ok e"
  shows "fst (call_from P fin (m1 # m2 # ms) cs) = Inl (Panic ''not yet implemented'')"
proof -
  have "filter_requests (pv_env P) (qtf_filter f1) [m] (filtered_requests f1)
      = (Ok (), [replace_with_dummy m'], (filtered_requests f1)(id m' \<mapsto> e))"
    using assms(4-6) by simp
  moreover have "filter_requests (pv_env P) (qtf_filter f2) [replace_with_dummy m'] held
      = (Inl (Panic ''not yet implemented''), [replace_with_dummy m'], held)" for held
    by (simp add: dummy_has_no_query_type)
  ultimately show ?thesis
    using assms(1-3)
    by (simp add: transform_step_def as_transform_def filter_transform_def Let_def split: prod.split)
qed

definition ex_filter :: "(unit, unit) transform_and_metrics" where
  "ex_filter = \<lparr>tm_transform = QueryTypeFilter \<lparr>qtf_filter = AllowList [],
     filtered_requests = Map.empty\<rparr>, tm_name = ''f'', transform_total = 0, transform_failures = 0\<rparr>"

theorem second_filter_panics_witness:
  "\<forall>E fin ms. fst (call_from (ex_providers E) fin (ex_filter # ex_filter # ms) (ex_call 1)) = Inl (Panic ''not yet implemented'')"
proof (intro allI)
  fix E :: chain_env and fin ms
  obtain t where t: "get_query_type (ce_dec E) (ex_request 1) = (Ok t, ex_request 1)" by (simp add: get_query_type_def)
  obtain e where "from_request_to_error_response (ce_dec E) (ce_nid E (id (ex_request 1))) (ex_request 1)
      ''Message was filtered out by shotover'' Rejected = Ok e"
    by (simp add: from_request_to_error_response_def message_metadata_def ex_request_def to_error_response_def)
  then show "fst (call_from (ex_providers E) fin (ex_filter # ex_filter # ms) (ex_call 1)) = Inl (Panic ''not yet implemented'')"
    using second_filter_panics[of ex_filter _ ex_filter _ "ex_call 1" "ex_request 1" "ex_providers E" t "ex_request 1" e fin ms] t
    by (simp add: ex_filter_def ex_call_def new_with_addr_def ex_providers_def)
qed

subsection \<open>Throttling\<close>

lemma backpressureE:
  assumes "to_backpressure D nid m = Ok b"
  obtains meta where "message_metadata D m = Ok (MCassandra meta)" and "request_id b = None"
proof -
  obtain md where md: "message_metadata D m = Ok md" using assms by (auto simp: to_backpressure_def result)
  show thesis using assms md that by (cases md) (auto simp: to_backpressure_def from_frame_at_instant_def)
qed

lemma throttle_one:
  assumes "tc_chain tc = m1 # ms" and "tm_transform m1 = RequestThrottling t" and "throttled_requests t = Map.empty"
    and "cell_count (ce_dec (pv_env P)) m = Ok n" and "ce_check_n (pv_env P) (limiter t) n = (NotNow, l)"
    and "to_backpressure (ce_dec (pv_env P)) (ce_nid (pv_env P) (id m)) m = Ok b"
    and "call_from P end_of_chain ms ((new_with_addr [replace_with_dummy m] addr)\<lparr>chain_name := tc_name tc\<rparr>) = (Ok [d], cs, ms')"
    and "request_id d = Some (id m)"
  shows "\<exists>tc'. process_request P (new_with_addr [m] addr) tc = (Ok [b], cs, tc')"
proof -
  have "throttle_requests (pv_env P) [m] (limiter t) Map.empty = (Ok (), [replace_with_dummy m], l, [id m \<mapsto> b])"
    using assms(4-6) by simp
  moreover have "replace_responses [d] [id m \<mapsto> b] = ([b], Map.empty)" using assms(8) by simp
  ultimately show ?thesis using assms(1-3,7)
    by (simp add: process_request_def call_next_transform_def transform_step_def as_transform_def throttling_transform_def
        new_with_addr_def Let_def)
qed

text \<open>
  C35: A throttled request stays pending in the handler of its client although the client got the response:
  the response has no request id.  When the chain fails later, the client is sent an error response
  for the same request.
\<close>

theorem throttled_request_stays_pending:
  assumes "tc_chain (h_chain h) = m1 # ms" and "tm_transform m1 = RequestThrottling t" and "throttled_requests t = Map.empty"
    and "cell_count (ce_dec (pv_env P)) m = Ok n" and "ce_check_n (pv_env P) (limiter t) n = (NotNow, l)"
    and "to_backpressure (ce_dec (pv_env P)) (ce_nid (pv_env P) (id m)) m = Ok b"
    and "call_from P end_of_chain ms ((new_with_addr [replace_with_dummy m] (tn_local_addr T))\<lparr>chain_name := tc_name (h_chain h)\<rparr>)
           = (Ok [d], cs, ms')"
    and "request_id d = Some (id m)" and "h_pending h = Unordered ps" and "tn_dec T = ce_dec (pv_env P)" and "\<not> tn_writer_gone T"
  shows "\<exists>reason h'. send_receive_chain (process_request P) T [m] h = (Ok reason, h') \<and> h_out h' = h_out h @ [[b]] \<and> request_id b = None
    \<and> (\<forall>nid e. \<exists>r \<in> set (to_errors nid e (h_pending h')). request_id r = Some (id m))"
proof -
  obtain tc' where p: "process_request P (new_with_addr [m] (tn_local_addr T)) (h_chain h) = (Ok [b], cs, tc')"
    using throttle_one[OF assms(1-8)] by blast
  obtain meta where meta: "message_metadata (ce_dec (pv_env P)) m = Ok (MCassandra meta)" and b: "request_id b = None"
    using backpressureE[OF assms(6)] by blast
  let ?ps = "AList.update (id m) (message_metadata (tn_dec T) m) ps"
  have "(id m, Ok (MCassandra meta)) \<in> set ?ps"
    using meta assms(10) by (metis map_of_SomeD update_conv' fun_upd_same)
  then have "\<exists>r \<in> set (to_errors nid e (Unordered ?ps)). request_id r = Some (id m)" for nid e
    by (force simp: map_filter_def to_error_def to_error_response_def set_request_id_def image_iff)
  then show ?thesis using p b assms(9,11) by (simp add: send_receive_chain_def Let_def)
qed

definition ex_cassandra_request :: message where
  "ex_cassandra_request = \<lparr>inner = Modified (FCassandra \<lparr>cversion = 4, cstream_id = 1, ctracing = TRequest False, cwarnings = [],
     coperation = Prepare []\<rparr>), received_at = None, codec = CCassandra 0, id = 5, request_id = None\<rparr>"

definition ex_throttled :: "chain_env \<Rightarrow> (unit, unit) transform_chain handler" where
  "ex_throttled E = \<lparr>h_chain = build_chain E (\<lambda>_. ()) (\<lambda>_. ()) (ChainBuilder ''c'' [(''t'', ThrottlingBuilder 0 50), (''l'', LoopbackBuilder)] :: unit chain_builder),
     h_chain_name = ''c'', h_pending = pending_new Cassandra, h_out = []\<rparr>"

definition ex_limited :: "chain_env \<Rightarrow> chain_env" where
  "ex_limited E = E\<lparr>ce_check_n := \<lambda>l n. (NotNow, l)\<rparr>"

theorem throttled_request_stays_pending_witness:
  "\<forall>E. \<exists>reason h' b. send_receive_chain (process_request (ex_providers (ex_limited E))) (ex_turn E) [ex_cassandra_request] (ex_throttled E) = (Ok reason, h')
    \<and> h_out h' = [[b]] \<and> request_id b = None
    \<and> (\<forall>nid e. \<exists>r \<in> set (to_errors nid e (h_pending h')). request_id r = Some 5)"
proof
  fix E :: chain_env
  obtain b where b: "to_backpressure (ce_dec E) (ce_nid E 5) ex_cassandra_request = Ok b"
    by (simp add: to_backpressure_def message_metadata_def ex_cassandra_request_def)
  obtain d cs ms' where d: "call_from (ex_providers (ex_limited E)) end_of_chain (tl (tc_chain (h_chain (ex_throttled E))))
      ((new_with_addr [replace_with_dummy ex_cassandra_request] (tn_local_addr (ex_turn E)))\<lparr>chain_name := tc_name (h_chain (ex_throttled E))\<rparr>)
        = (Ok [d], cs, ms')" "request_id d = Some (id ex_cassandra_request)"
    by (simp add: ex_throttled_def run_chain_simps loopback_transform_def set_request_id_def replace_with_dummy_def)
  have "\<exists>reason h'. send_receive_chain (process_request (ex_providers (ex_limited E))) (ex_turn E) [ex_cassandra_request] (ex_throttled E) = (Ok reason, h')
    \<and> h_out h' = h_out (ex_throttled E) @ [[b]] \<and> request_id b = None
    \<and> (\<forall>nid e. \<exists>r \<in> set (to_errors nid e (h_pending h')). request_id r = Some (id ex_cassandra_request))"
    by (rule throttled_request_stays_pending[where ?m1.0 = "hd (tc_chain (h_chain (ex_throttled E)))" and t = "\<lparr>limiter = 0, max_requests_per_second = 50, throttled_requests = Map.empty\<rparr>" and n = 1,
          OF _ _ _ _ _ _ d])
      (use b in \<open>simp_all add: ex_throttled_def build_chain_def build_transform_def ex_providers_def ex_limited_def ex_turn_def cell_count_def
         ex_cassandra_request_def cassandra_cell_count_def\<close>)
  then show "\<exists>reason h' b. send_receive_chain (process_request (ex_providers (ex_limited E))) (ex_turn E) [ex_cassandra_request] (ex_throttled E) = (Ok reason, h')
    \<and> h_out h' = [[b]] \<and> request_id b = None
    \<and> (\<forall>nid e. \<exists>r \<in> set (to_errors nid e (h_pending h')). request_id r = Some 5)"
    by (auto simp: ex_throttled_def ex_cassandra_request_def)
qed

subsection \<open>Coalescing\<close>

text \<open>
  C36: While a client sends nothing, calls without a flush do not get past a \<^verbatim>\<open>Coalesce\<close> with an empty buffer:
  they return nothing and leave the rest of the chain as it is, whatever responses have arrived there.
\<close>

theorem coalesce_holds_back_responses:
  assumes "tc_chain tc = m # ms" and "tm_transform m = Coalesce k" and "buffer k = []"
    and "\<forall>cs \<in> set css. requests cs = [] \<and> \<not> flush cs"
  shows "\<exists>tc'. run_calls (process_request P) css tc = Some ([], tc') \<and> tl (tc_chain tc') = ms"
  using assms
proof (induction css arbitrary: tc m k)
  case Nil
  then show ?case by simp
next
  case (Cons cs css)
  let ?k = "restart_clock (ce_now (pv_env P)) (k\<lparr>buffer := buffer k\<rparr>)"
  have "\<exists>cs' tc' m'. process_request P cs tc = (Ok [], cs', tc') \<and> tc_chain tc' = m' # ms \<and> tm_transform m' = Coalesce ?k"
    using Cons(2-5)
    by (simp add: process_request_def call_next_transform_def transform_step_def as_transform_def coalesce_transform_def Let_def)
  then obtain cs' tc' m' where p: "process_request P cs tc = (Ok [], cs', tc')" "tc_chain tc' = m' # ms" "tm_transform m' = Coalesce ?k"
    by blast
  have "buffer ?k = []" using Cons(4) by (simp add: restart_clock_def)
  from Cons(1)[OF p(2,3) this] Cons(5) p(1) show ?case by auto
qed

definition ex_coalesced :: "chain_env \<Rightarrow> (unit, unit) transform_chain" where
  "ex_coalesced E = build_chain E (\<lambda>_. ()) (\<lambda>_. ())
     (ChainBuilder ''c'' [(''k'', CoalesceBuilder \<lparr>cb_count = Some 2, cb_millis = None\<rparr>), (''s'', SinkBuilder ''S'' ())])"

theorem coalesce_holds_back_responses_witness:
  "\<forall>E. \<exists>tc'. run_calls (process_request (ex_providers E)) [new_with_addr [] (0, 0), new_with_addr [] (0, 0)] (ex_coalesced E) = Some ([], tc')
    \<and> tl (tc_chain tc') = tl (tc_chain (ex_coalesced E))"
proof
  fix E
  show "\<exists>tc'. run_calls (process_request (ex_providers E)) [new_with_addr [] (0, 0), new_with_addr [] (0, 0)] (ex_coalesced E) = Some ([], tc')
    \<and> tl (tc_chain tc') = tl (tc_chain (ex_coalesced E))"
    by (rule coalesce_holds_back_responses[where m = "hd (tc_chain (ex_coalesced E))" and k = "coalesce_build E \<lparr>cb_count = Some 2, cb_millis = None\<rparr>"])
      (simp_all add: ex_coalesced_def build_chain_def build_transform_def new_with_addr_def)
qed

subsection \<open>Comparing responses\<close>

text \<open>
  A \<^verbatim>\<open>Tee\<close> that fails on a mismatch panics when the two responses to a Kafka request differ: there is no
  Kafka error response, and the attempt to make one is unwrapped.
\<close>

theorem tee_mismatch_panics_for_kafka:
  assumes "behavior t = FailOnMismatch" and "incoming t = InOrder [] []"
    and "join_chains run sent next t cs = (Ok ([a], [b]), cs', t', c')"
    and "request_id a \<noteq> None" and "request_id b \<noteq> None" and "\<not> message_eq a b"
    and "message_type a = Kafka" and "message_type b = Kafka"
  shows "fst (tee_transform E run sent next t cs) = Inl (Panic ''called Result::unwrap() on an Err value'')"
proof -
  have md: "message_metadata D m = Ok MKafka" if "message_type m = Kafka" for D m
    using that by (cases "inner m")
      (auto simp: message_type_def message_metadata_def split: frame.splits message_inner.splits dest: sym elim: get_type.elims)
  have "fail_mismatch E m o' u = Inl (Panic ''called Result::unwrap() on an Err value'')" if "message_type m = Kafka" for m o' u
    using md[of "snd (frame (ce_dec E) m)" "ce_dec E"] that
    by (simp add: fail_mismatch_def from_response_to_error_response_def to_error_response_def)
  then show ?thesis using assms
    by (auto simp: tee_transform_def compare_chains_def new_responses_def resolve_def split: result_source.split)
qed

definition ex_kafka_response :: "byte \<Rightarrow> message" where
  "ex_kafka_response x = \<lparr>inner = RawBytes [x] Kafka, received_at = None, codec = CKafka \<lparr>kc_request_header = None, kc_raw_sasl = False\<rparr>,
     id = 8, request_id = Some 1\<rparr>"

theorem tee_mismatch_panics_for_kafka_witness:
  "\<forall>E. fst (tee_transform E (\<lambda>cs u. (Ok [ex_kafka_response 0], cs, u)) True (\<lambda>cs. (Ok [ex_kafka_response 1], cs, ()))
      (tee_build () BFailOnMismatch RegularChain True) (ex_call 1)) = Inl (Panic ''called Result::unwrap() on an Err value'')"
proof
  fix E
  show "fst (tee_transform E (\<lambda>cs u. (Ok [ex_kafka_response 0], cs, u)) True (\<lambda>cs. (Ok [ex_kafka_response 1], cs, ()))
      (tee_build () BFailOnMismatch RegularChain True) (ex_call 1)) = Inl (Panic ''called Result::unwrap() on an Err value'')"
    by (rule tee_mismatch_panics_for_kafka[where a = "ex_kafka_response 0" and b = "ex_kafka_response 1"])
      (simp_all add: tee_build_def join_chains_def buffered_process_request_def build_buffered_def run_batch_def
        ex_kafka_response_def message_eq_def message_type_def)
qed

end
