(* ===== verification/Cassandra_Tokens.thy ===== *)
theory Cassandra_Tokens
  imports Generic_Values "HOL-Library.Word"
begin

text \<open>
  Token-aware routing for Cassandra: the Murmur3 partitioner
  (\<^verbatim>\<open>src/shotover/src/transforms/cassandra/sink_cluster/murmur.rs\<close>), the routing key of an \<^verbatim>\<open>EXECUTE\<close>
  (\<^verbatim>\<open>routing_key.rs\<close>) and the token ring (\<^verbatim>\<open>token_ring.rs\<close>).

  A \<^verbatim>\<open>Wrapping<i64>\<close> is a \<^verbatim>\<open>64 word\<close>; a token is its signed value.
\<close>

unbundle bit_operations_syntax

subsection \<open>The hasher\<close>

record murmur =
  total_len :: nat
  buf :: bytes
  hash1 :: "64 word"
  hash2 :: "64 word"

definition murmur_c1 :: "64 word" where
  "murmur_c1 = 0x87c37b91114253d5"

definition murmur_c2 :: "64 word" where
  "murmur_c2 = 0x4cf5ad432745937f"

definition murmur_new :: murmur where
  "murmur_new = \<lparr>total_len = 0, buf = replicate 16 0, hash1 = 0, hash2 = 0\<rparr>"

definition rotl64 :: "64 word \<Rightarrow> nat \<Rightarrow> 64 word" where
  "rotl64 v n = push_bit n v OR drop_bit (64 - n) v"

definition fmix :: "64 word \<Rightarrow> 64 word" where
  "fmix k =
    (let k = k XOR drop_bit 33 k; k = k * 0xff51afd7ed558ccd; k = k XOR drop_bit 33 k;
         k = k * 0xc4ceb9fe1a85ec53
     in k XOR drop_bit 33 k)"

definition hash_16_bytes :: "64 word \<Rightarrow> 64 word \<Rightarrow> murmur \<Rightarrow> murmur" where
  "hash_16_bytes k1 k2 m =
    (let a = rotl64 (hash1 m XOR (rotl64 (k1 * murmur_c1) 31 * murmur_c2)) 27;
         a = (a + hash2 m) * 5 + 0x52dce729;
         b = rotl64 (hash2 m XOR (rotl64 (k2 * murmur_c2) 33 * murmur_c1)) 31;
         b = (b + a) * 5 + 0x38495ab5
     in m\<lparr>hash1 := a, hash2 := b\<rparr>)"

text \<open>\<^verbatim>\<open>get_i64_le\<close> reads eight bytes, the lowest first.\<close>

definition get_i64_le :: "bytes \<Rightarrow> 64 word" where
  "get_i64_le bs = foldr (\<lambda>b v. ucast b + push_bit 8 v) (take 8 bs) 0"

definition fetch_16_bytes_from_buf :: "bytes \<Rightarrow> (64 word \<times> 64 word) \<times> bytes" where
  "fetch_16_bytes_from_buf bs = ((get_i64_le bs, get_i64_le (drop 8 bs)), drop 16 bs)"

definition copy_into :: "nat \<Rightarrow> bytes \<Rightarrow> bytes \<Rightarrow> bytes" where
  "copy_into at part bs = take at bs @ part @ drop (at + length part) bs"

text \<open>The loop of the fast path: whole blocks straight from the argument.\<close>

function hash_blocks :: "bytes \<Rightarrow> murmur \<Rightarrow> bytes \<times> murmur" where
  "hash_blocks part m =
    (if 16 \<le> length part
     then (case fetch_16_bytes_from_buf part of ((k1, k2), rest) \<Rightarrow> hash_blocks rest (hash_16_bytes k1 k2 m))
     else (part, m))"
  by pat_completeness auto
termination
  by (relation "measure (\<lambda>(part, m). length part)") (auto simp: fetch_16_bytes_from_buf_def)

declare hash_blocks.simps [simp del]

definition murmur_write :: "bytes \<Rightarrow> murmur \<Rightarrow> murmur" where
  "murmur_write pk_part m =
    (let buf_len = total_len m mod 16;
         m = m\<lparr>total_len := total_len m + length pk_part\<rparr>;
         (buf_len, pk_part, m) =
           (if 0 < buf_len \<and> 16 - buf_len \<le> length pk_part
            then (let to_write = min (16 - buf_len) (length pk_part);
                      filled = copy_into buf_len (take to_write pk_part) (buf m);
                      ((k1, k2), _) = fetch_16_bytes_from_buf filled
                  in (0, drop to_write pk_part, hash_16_bytes k1 k2 (m\<lparr>buf := filled\<rparr>)))
            else (buf_len, pk_part, m));
         (pk_part, m) = (if buf_len = 0 then hash_blocks pk_part m else (pk_part, m))
     in m\<lparr>buf := copy_into buf_len pk_part (buf m)\<rparr>)"

definition byte_at :: "bytes \<Rightarrow> nat \<Rightarrow> 64 word" where
  "byte_at bs i = scast (bs ! i)"

definition murmur_finish :: "murmur \<Rightarrow> int" where
  "murmur_finish m =
    (let buf_len = total_len m mod 16;
         k2 = fold (\<lambda>i k. k XOR push_bit ((i - 8) * 8) (byte_at (buf m) i)) (rev [8..<buf_len]) 0;
         b = (if 8 < buf_len then hash2 m XOR (rotl64 (k2 * murmur_c2) 33 * murmur_c1) else hash2 m);
         k1 = fold (\<lambda>i k. k XOR push_bit (i * 8) (byte_at (buf m) i)) (rev [0..<min 8 buf_len]) 0;
         a = (if 0 < buf_len then hash1 m XOR (rotl64 (k1 * murmur_c1) 31 * murmur_c2) else hash1 m);
         a = a XOR word_of_nat (total_len m);
         b = b XOR word_of_nat (total_len m);
         a = a + b; b = b + a;
         a = fmix a; b = fmix b;
         a = a + b; b = b + a
     in sint (ucast (push_bit 64 (scast b :: 128 word) OR scast a) :: 64 word))"

subsection \<open>Routing keys\<close>

text \<open>An index is an \<^verbatim>\<open>i16\<close>; a negative one is a \<^verbatim>\<open>usize\<close> beyond every list.\<close>

definition get_value :: "cql_value list \<Rightarrow> int \<Rightarrow> cql_value option" where
  "get_value values i = (if 0 \<le> i \<and> nat i < length values then Some (values ! nat i) else None)"

definition u16_be :: "nat \<Rightarrow> bytes" where
  "u16_be n = [word_of_nat (n div 256), word_of_nat (n mod 256)]"

fun write_composite :: "cql_value list \<Rightarrow> int list \<Rightarrow> murmur \<Rightarrow> murmur option" where
  "write_composite values [] m = Some m"
| "write_composite values (i # is) m = (case get_value values i of
     Some (VSome v) \<Rightarrow> write_composite values is
       (murmur_write [0] (murmur_write v (if length v < 65536 then murmur_write (u16_be (length v)) m else m)))
   | Some _ \<Rightarrow> write_composite values is m
   | None \<Rightarrow> None)"

definition serialize_routing_key_with_indexes :: "cql_value list \<Rightarrow> int list \<Rightarrow> int option" where
  "serialize_routing_key_with_indexes values pk_indexes = (case pk_indexes of
     [] \<Rightarrow> None
   | [i] \<Rightarrow> (case get_value values i of
       Some (VSome v) \<Rightarrow> Some (murmur_finish (murmur_write v murmur_new))
     | _ \<Rightarrow> None)
   | _ \<Rightarrow> map_option murmur_finish (write_composite values pk_indexes murmur_new))"

definition calculate_routing_key :: "int list \<Rightarrow> query_values \<Rightarrow> int option result" where
  "calculate_routing_key pk_indexes qv = (case qv of
     SimpleValues values \<Rightarrow> Ok (serialize_routing_key_with_indexes values pk_indexes)
   | NamedValues _ \<Rightarrow> Inl (Panic ''handle named''))"

subsection \<open>The hash of a byte string\<close>

text \<open>
  What the hasher computes, without a buffer: the blocks of sixteen bytes are mixed into a pair of
  words one after the other, then the rest, then the length.
\<close>

function blocks :: "bytes \<Rightarrow> bytes list" where
  "blocks bs = (if 16 \<le> length bs then take 16 bs # blocks (drop 16 bs) else [])"
  by pat_completeness auto
termination
  by (relation "measure length") auto

declare blocks.simps [simp del]

definition rest_of :: "bytes \<Rightarrow> bytes" where
  "rest_of bs = drop (16 * (length bs div 16)) bs"

definition mix_block :: "bytes \<Rightarrow> 64 word \<times> 64 word \<Rightarrow> 64 word \<times> 64 word" where
  "mix_block block = (\<lambda>(a, b).
    (let a' = (rotl64 (a XOR (rotl64 (get_i64_le block * murmur_c1) 31 * murmur_c2)) 27 + b) * 5 + 0x52dce729
     in (a', (rotl64 (b XOR (rotl64 (get_i64_le (drop 8 block) * murmur_c2) 33 * murmur_c1)) 31 + a') * 5 + 0x38495ab5)))"

text \<open>The bytes of the rest are signed, as in Cassandra's own partitioner.\<close>

fun signed_le :: "bytes \<Rightarrow> 64 word" where
  "signed_le [] = 0"
| "signed_le (b # bs) = scast b XOR push_bit 8 (signed_le bs)"

definition mix_rest :: "bytes \<Rightarrow> 64 word \<times> 64 word \<Rightarrow> 64 word \<times> 64 word" where
  "mix_rest r = (\<lambda>(a, b). (a XOR (rotl64 (signed_le (take 8 r) * murmur_c1) 31 * murmur_c2),
     b XOR (rotl64 (signed_le (drop 8 r) * murmur_c2) 33 * murmur_c1)))"

definition murmur_token :: "bytes \<Rightarrow> int" where
  "murmur_token bs =
    (let (a, b) = mix_rest (rest_of bs) (fold mix_block (blocks bs) (0, 0));
         n = word_of_nat (length bs);
         a = a XOR n; b = b XOR n;
         a = a + b; b = b + a
     in sint (fmix a + fmix b))"

lemma length_rest_of [simp]: "length (rest_of bs) = length bs mod 16"
  by (simp add: rest_of_def minus_mult_div_eq_mod)

lemma rest_of_short: "length bs < 16 \<Longrightarrow> rest_of bs = bs"
  by (simp add: rest_of_def)

lemma blocks_short: "length bs < 16 \<Longrightarrow> blocks bs = []"
  by (subst blocks.simps) simp

lemma blocks_step: "16 \<le> length bs \<Longrightarrow> blocks bs = take 16 bs # blocks (drop 16 bs)"
  by (subst blocks.simps) simp

lemma blocks_append: "16 dvd length xs \<Longrightarrow> blocks (xs @ ys) = blocks xs @ blocks ys"
proof (induction xs rule: blocks.induct)
  case (1 xs)
  show ?case
  proof (cases "16 \<le> length xs")
    case True
    then have "16 dvd length (drop 16 xs)" using 1(2) by (simp add: dvd_diff_nat)
    then show ?thesis using 1(1)[OF True] True by (simp add: blocks_step[of "xs @ ys"] blocks_step[of xs])
  next
    case False
    then have "xs = []" using 1(2) by (auto dest: dvd_imp_le)
    then show ?thesis by (simp add: blocks_short)
  qed
qed

lemma rest_of_append: "16 dvd length xs \<Longrightarrow> rest_of (xs @ ys) = rest_of ys"
  by (auto simp: rest_of_def div_add)

lemma split_rest: "\<exists>pre. bs = pre @ rest_of bs \<and> 16 dvd length pre"
  by (rule exI[of _ "take (16 * (length bs div 16)) bs"]) (simp add: rest_of_def min_absorb2)

subsection \<open>The hasher implements it\<close>

definition absorbed :: "bytes \<Rightarrow> murmur \<Rightarrow> bool" where
  "absorbed bs m \<longleftrightarrow> total_len m = length bs \<and> length (buf m) = 16
     \<and> (hash1 m, hash2 m) = fold mix_block (blocks bs) (0, 0) \<and> take (length bs mod 16) (buf m) = rest_of bs"

lemma absorbed_new: "absorbed [] murmur_new"
  by (simp add: absorbed_def murmur_new_def blocks_short rest_of_short)

lemma hash_16_bytes_mix:
  "hash_16_bytes (get_i64_le block) (get_i64_le (drop 8 block)) m =
    (case mix_block block (hash1 m, hash2 m) of (a, b) \<Rightarrow> m\<lparr>hash1 := a, hash2 := b\<rparr>)"
  by (simp add: hash_16_bytes_def mix_block_def Let_def)

lemma get_i64_le_take: "8 \<le> n \<Longrightarrow> get_i64_le (take n bs) = get_i64_le bs"
  by (simp add: get_i64_le_def min_absorb1)

lemma hash_blocks_fold:
  "hash_blocks part m =
    (rest_of part, case fold mix_block (blocks part) (hash1 m, hash2 m) of (a, b) \<Rightarrow> m\<lparr>hash1 := a, hash2 := b\<rparr>)"
proof (induction part m rule: hash_blocks.induct)
  case (1 part m)
  show ?case
  proof (cases "16 \<le> length part")
    case True
    have get: "get_i64_le (take 16 part) = get_i64_le part"
      "get_i64_le (drop 8 (take 16 part)) = get_i64_le (drop 8 part)"
      by (simp_all add: get_i64_le_take drop_take)
    have rest: "rest_of (drop 16 part) = rest_of part"
      using rest_of_append[of "take 16 part" "drop 16 part"] True by simp
    show ?thesis
      using 1[OF True] hash_16_bytes_mix[of "take 16 part" m] True
      by (simp add: hash_blocks.simps[of part] fetch_16_bytes_from_buf_def get rest blocks_step[of part]
          split: prod.splits)
  next
    case False
    then show ?thesis by (simp add: hash_blocks.simps[of part] rest_of_short blocks_short)
  qed
qed

lemma length_copy_into: "at + length part \<le> length bs \<Longrightarrow> length (copy_into at part bs) = length bs"
  by (simp add: copy_into_def)

lemma take_copy_into:
  "at + length part \<le> length bs \<Longrightarrow> n = at + length part \<Longrightarrow> take n (copy_into at part bs) = take at bs @ part"
  by (simp add: copy_into_def)

text \<open>The second and third phase of \<^verbatim>\<open>write\<close>, from an empty buffer.\<close>

lemma absorbed_from_empty:
  assumes "16 dvd length pre" and "length (buf m) = 16" and "total_len m = length (pre @ part)"
    and "(hash1 m, hash2 m) = fold mix_block (blocks pre) (0, 0)" and "hash_blocks part m = (r, m')"
  shows "absorbed (pre @ part) (m'\<lparr>buf := copy_into 0 r (buf m')\<rparr>)"
proof -
  have m': "m' = (case fold mix_block (blocks (pre @ part)) (0, 0) of (a, b) \<Rightarrow> m\<lparr>hash1 := a, hash2 := b\<rparr>)"
    and r: "r = rest_of (pre @ part)"
    using assms by (simp_all add: hash_blocks_fold blocks_append rest_of_append)
  have "length r < 16" by (simp add: r)
  then show ?thesis using assms(2,3) take_copy_into[of 0 r "buf m" "length r"]
    by (cases "fold mix_block (blocks (pre @ part)) (0, 0)")
      (simp add: absorbed_def m' length_copy_into flip: r, simp add: r)
qed

lemma murmur_write_keep:
  "0 < total_len m mod 16 \<Longrightarrow> \<not> 16 - total_len m mod 16 \<le> length part \<Longrightarrow>
    murmur_write part m = m\<lparr>total_len := total_len m + length part, buf := copy_into (total_len m mod 16) part (buf m)\<rparr>"
  by (simp add: murmur_write_def Let_def)

lemma murmur_write_start:
  "total_len m mod 16 = 0 \<Longrightarrow> hash_blocks part (m\<lparr>total_len := total_len m + length part\<rparr>) = (r, m') \<Longrightarrow>
    murmur_write part m = m'\<lparr>buf := copy_into 0 r (buf m')\<rparr>"
  by (simp add: murmur_write_def Let_def)

lemma murmur_write_fill:
  assumes "0 < total_len m mod 16" and "16 - total_len m mod 16 \<le> length part"
    and "copy_into (total_len m mod 16) (take (16 - total_len m mod 16) part) (buf m) = filled"
    and "hash_blocks (drop (16 - total_len m mod 16) part)
      (hash_16_bytes (get_i64_le filled) (get_i64_le (drop 8 filled))
        (m\<lparr>total_len := total_len m + length part, buf := filled\<rparr>)) = (r, m')"
  shows "murmur_write part m = m'\<lparr>buf := copy_into 0 r (buf m')\<rparr>"
  using assms by (simp add: murmur_write_def Let_def fetch_16_bytes_from_buf_def)

lemma absorbed_write:
  assumes "absorbed bs m"
  shows "absorbed (bs @ part) (murmur_write part m)"
proof -
  define t where "t = length bs mod 16"
  obtain pre where pre: "bs = pre @ rest_of bs" "16 dvd length pre" using split_rest by blast
  have t16: "t < 16" by (simp add: t_def)
  have m: "total_len m = length bs" "length (buf m) = 16"
    "(hash1 m, hash2 m) = fold mix_block (blocks pre) (0, 0)" "take t (buf m) = rest_of bs"
    using assms blocks_append[OF pre(2), of "rest_of bs"] pre(1)
    by (simp_all add: absorbed_def t_def blocks_short)
  consider (fill) "0 < t" "16 - t \<le> length part" | (keep) "0 < t" "t + length part < 16" | (start) "t = 0"
    by linarith
  then show ?thesis
  proof cases
    case fill
    define filled where "filled = rest_of bs @ take (16 - t) part"
    define m1 where "m1 = hash_16_bytes (get_i64_le filled) (get_i64_le (drop 8 filled))
      (m\<lparr>total_len := length bs + length part, buf := filled\<rparr>)"
    have cp: "copy_into t (take (16 - t) part) (buf m) = filled" and len: "length filled = 16"
      using fill t16 m(2,4) by (simp_all add: copy_into_def filled_def t_def)
    have split: "bs @ part = (pre @ filled) @ drop (16 - t) part" using pre(1) by (simp add: filled_def)
    have "(hash1 m1, hash2 m1) = fold mix_block (blocks (pre @ filled)) (0, 0)"
      using m(3) len pre(2) by (simp add: m1_def hash_16_bytes_mix blocks_append blocks_step[of filled] blocks_short split: prod.splits)
    moreover have "length (buf m1) = 16" "total_len m1 = length (bs @ part)"
      using len by (simp_all add: m1_def hash_16_bytes_def Let_def)
    moreover obtain r m' where h: "hash_blocks (drop (16 - t) part) m1 = (r, m')" by fastforce
    ultimately have "absorbed (bs @ part) (m'\<lparr>buf := copy_into 0 r (buf m')\<rparr>)"
      unfolding split by (intro absorbed_from_empty[OF _ _ _ _ h]) (simp_all add: pre(2) len)
    then show ?thesis
      using murmur_write_fill[of m part filled r m'] fill cp h by (simp add: m(1) t_def m1_def)
  next
    case keep
    have "blocks (bs @ part) = blocks pre" "rest_of (bs @ part) = rest_of bs @ part"
      using pre keep blocks_append[OF pre(2), of "rest_of bs @ part"] rest_of_append[OF pre(2), of "rest_of bs @ part"]
      by (simp_all add: blocks_short rest_of_short t_def flip: append.assoc)
    moreover have "length (bs @ part) mod 16 = t + length part"
      using keep mod_add_left_eq[of "length bs" 16 "length part"] by (simp add: t_def)
    ultimately show ?thesis
      using keep m take_copy_into[of t part "buf m"] murmur_write_keep[of m part]
      by (simp add: t_def[symmetric] absorbed_def length_copy_into)
  next
    case start
    then have "rest_of bs = []" by (simp add: t_def flip: length_0_conv)
    moreover obtain r m' where h: "hash_blocks part (m\<lparr>total_len := length bs + length part\<rparr>) = (r, m')" by fastforce
    ultimately have "absorbed (bs @ part) (m'\<lparr>buf := copy_into 0 r (buf m')\<rparr>)"
      using absorbed_from_empty[OF _ _ _ _ h, of bs] pre m by simp
    then show ?thesis using murmur_write_start[of m part r m'] start h m(1) by (simp add: t_def)
  qed
qed

lemma absorbed_writes: "absorbed bs m \<Longrightarrow> absorbed (bs @ concat parts) (fold murmur_write parts m)"
proof (induction parts arbitrary: bs m)
  case (Cons part parts)
  show ?case using Cons(1)[OF absorbed_write[OF Cons(2)]] by simp
qed simp

subsection \<open>The last step\<close>

lemma rotl64_0 [simp]: "rotl64 0 n = 0"
  by (simp add: rotl64_def)

lemma fold_rev_upt:
  "fold (\<lambda>i k. k XOR push_bit (i * 8) (byte_at bs i)) (rev [0..<n]) 0 = signed_le (take n bs)"
  if "n \<le> length bs"
  using that
proof (induction bs arbitrary: n)
  case (Cons b bs)
  show ?case
  proof (cases n)
    case (Suc k)
    have shift: "fold (\<lambda>i k. k XOR push_bit (8 + i * 8) (byte_at bs i)) is (push_bit 8 z) =
        push_bit 8 (fold (\<lambda>i k. k XOR push_bit (i * 8) (byte_at bs i)) is z)" for "is" z
    proof (induction "is" arbitrary: z)
      case (Cons i "is")
      show ?case using Cons[of "z XOR push_bit (i * 8) (byte_at bs i)"]
        by (simp add: push_bit_xor push_bit_push_bit)
    qed simp
    have "rev [0..<n] = map Suc (rev [0..<k]) @ [0]"
      by (simp add: Suc upt_conv_Cons map_Suc_upt del: upt_Suc flip: rev_map)
    then show ?thesis using Cons shift[of "rev [0..<k]" 0]
      by (simp add: Suc fold_map comp_def byte_at_def xor.commute)
  qed simp
qed simp

lemma fold_rev_upt8:
  "fold (\<lambda>i k. k XOR push_bit ((i - 8) * 8) (byte_at bs i)) (rev [8..<n]) 0 = signed_le (drop 8 (take n bs))"
  if "n \<le> length bs"
proof -
  have "[8..<n] = map (\<lambda>i. i + 8) [0..<n - 8]" using map_add_upt[of 8 "n - 8"] by (cases "8 \<le> n") simp_all
  then have "fold (\<lambda>i k. k XOR push_bit ((i - 8) * 8) (byte_at bs i)) (rev [8..<n]) 0 =
      fold (\<lambda>i k. k XOR push_bit (i * 8) (byte_at (drop 8 bs) i)) (rev [0..<n - 8]) 0"
    using that by (auto simp: rev_map fold_map comp_def byte_at_def add.commute intro!: fold_cong)
  then show ?thesis using fold_rev_upt[of "n - 8" "drop 8 bs"] that by (simp add: drop_take)
qed

lemma low_half: "(ucast (push_bit 64 (scast b :: 128 word) OR scast (a :: 64 word)) :: 64 word) = a"
proof (rule bit_word_eqI)
  fix n assume "n < LENGTH(64)"
  then show "bit (ucast (push_bit 64 (scast b :: 128 word) OR scast a) :: 64 word) n = bit a n"
    by (cases "n = 63") (auto simp: bit_unsigned_iff bit_or_iff bit_push_bit_iff bit_signed_iff min_def)
qed

lemma absorbed_finish:
  assumes "absorbed bs m"
  shows "murmur_finish m = murmur_token bs"
proof -
  define n where "n = length bs mod 16"
  have m: "total_len m = length bs" "(hash1 m, hash2 m) = fold mix_block (blocks bs) (0, 0)"
    "take n (buf m) = rest_of bs" "n \<le> length (buf m)" "min 8 n \<le> length (buf m)"
    using assms by (auto simp: absorbed_def n_def less_imp_le)
  have k: "signed_le (take (min 8 n) (buf m)) = signed_le (take 8 (rest_of bs))"
    "n = 0 \<Longrightarrow> signed_le (take 8 (rest_of bs)) = 0"
    "n \<le> 8 \<Longrightarrow> signed_le (drop 8 (rest_of bs)) = 0"
    using m(3) by (auto simp: n_def simp flip: m(3))
  show ?thesis
    using k(2,3)
    by (auto simp only: murmur_finish_def murmur_token_def mix_rest_def Let_def m(1) n_def[symmetric] fold_rev_upt[OF m(5)]
        fold_rev_upt8[OF m(4)] m(3) m(2)[symmetric] low_half k(1) prod.case mult_zero_left rotl64_0 xor.right_neutral not_less
        split: if_splits)
qed

end
