(* ===== verification/Cassandra_Nodes.thy ===== *)
theory Cassandra_Nodes
  imports Cassandra_Tokens Single_Sinks
begin

text \<open>
  The nodes of a Cassandra cluster as \<^verbatim>\<open>CassandraSinkCluster\<close> sees them
  (\<^verbatim>\<open>src/shotover/src/transforms/cassandra/sink_cluster/\<close>): connections with the stream ids that wait for
  an answer (\<^verbatim>\<open>connection.rs\<close>), nodes and the factory of their connections (\<^verbatim>\<open>node.rs\<close>), the token ring
  (\<^verbatim>\<open>token_ring.rs\<close>) and the pool that picks a node for a request (\<^verbatim>\<open>node_pool.rs\<close>).

  A \<^verbatim>\<open>&mut CassandraNode\<close> is an index into the nodes of the pool.  An operation that awaits
  the network is \<open>None\<close> when the wait never ends, and an error or a panic as everywhere
  else; a connection error that the caller handles is part of the value.
\<close>

subsection \<open>What the environment decides\<close>

record cassandra_env =
  cx_connect :: "socket_addr \<Rightarrow> unit result"
  cx_srv :: "sink_connection \<Rightarrow> wait"
  cx_decoders :: decoders
  cx_dummy_id :: "message_id \<Rightarrow> message_id"
  cx_response_id :: "int \<Rightarrow> message_id"
  cx_hash_order :: "int list \<Rightarrow> int list"
  cx_shuffle :: "opaque \<Rightarrow> nat list \<Rightarrow> nat list \<times> opaque"
  cx_show_addr :: "socket_addr \<Rightarrow> string"

text \<open>What the code relies on: iterating over a hash set and shuffling a vector are permutations.\<close>

definition env_ok :: "cassandra_env \<Rightarrow> bool" where
  "env_ok E \<longleftrightarrow> (\<forall>xs. mset (cx_hash_order E xs) = mset xs) \<and> (\<forall>g xs. mset (fst (cx_shuffle E g xs)) = mset xs)"

type_synonym 'a async = "'a result option"

definition bind_async :: "'a async \<Rightarrow> ('a \<Rightarrow> 'b async) \<Rightarrow> 'b async" where
  "bind_async m f = (case m of None \<Rightarrow> None | Some (Inl e) \<Rightarrow> Some (Inl e) | Some (Inr x) \<Rightarrow> f x)"

lemma bind_async_simps [simp]:
  "bind_async None f = None"
  "bind_async (Some (Inl e)) f = Some (Inl e)"
  "bind_async (Some (Inr x)) f = f x"
  by (simp_all add: bind_async_def)

lemma bind_async_Ok_iff [result]:
  "bind_async m f = Some (Inr y) \<longleftrightarrow> (\<exists>x. m = Some (Inr x) \<and> f x = Some (Inr y))"
  by (auto simp: bind_async_def split: option.splits sum.splits)

lemma bind_async_mono [partial_function_mono]:
  fixes A :: "('a \<Rightarrow> 'b option) \<Rightarrow> 'c async" and B :: "'c \<Rightarrow> ('a \<Rightarrow> 'b option) \<Rightarrow> 'd async"
  assumes "mono_option A" and "\<And>y. mono_option (\<lambda>f. B y f)"
  shows "mono_option (\<lambda>f. bind_async (A f) (\<lambda>y. B y f))"
proof -
  have "mono_option (\<lambda>f. case r of Inl e \<Rightarrow> Some (Inl e) | Inr y \<Rightarrow> B y f)" for r
    using assms(2) by (cases r) (simp_all add: option.const_mono)
  then have "mono_option (\<lambda>f. Option.bind (A f) (\<lambda>r. case r of Inl e \<Rightarrow> Some (Inl e) | Inr y \<Rightarrow> B y f))"
    by (rule bind_mono[OF assms(1)])
  moreover have "bind_async m k = Option.bind m (\<lambda>r. case r of Inl e \<Rightarrow> Some (Inl e) | Inr y \<Rightarrow> k y)"
    for m :: "'c async" and k :: "'c \<Rightarrow> 'd async"
    by (simp add: bind_async_def split: option.split sum.split)
  ultimately show ?thesis by simp
qed

subsection \<open>Connections\<close>

text \<open>The pending stream ids are a hash set: a list without repetitions, iterated in any order.\<close>

record cassandra_connection =
  cc_connection :: sink_connection
  cc_stream_ids :: "int list"

definition cassandra_connection_new :: "sink_connection \<Rightarrow> cassandra_connection" where
  "cassandra_connection_new c = \<lparr>cc_connection = c, cc_stream_ids = []\<rparr>"

definition cass_send ::
  "cassandra_env \<Rightarrow> messages \<Rightarrow> cassandra_connection \<Rightarrow> cassandra_connection result" where
  "cass_send E ms c =
    (case send_requests (cx_decoders E) ms (cc_connection c) of
       (Inl e, _) \<Rightarrow> Inl e
     | (Inr _, conn) \<Rightarrow> Ok \<lparr>cc_connection = conn,
         cc_stream_ids = fold (\<lambda>m ids. case stream_id m of Some i \<Rightarrow> List.insert i ids | None \<Rightarrow> ids) ms (cc_stream_ids c)\<rparr>)"

fun cass_process_responses :: "messages \<Rightarrow> int list \<Rightarrow> int list result" where
  "cass_process_responses [] ids = Ok ids"
| "cass_process_responses (r # rs) ids =
    (if request_id r \<noteq> None
     then (case stream_id r of
         None \<Rightarrow> Inl (Panic ''called Option::unwrap() on a None value'')
       | Some i \<Rightarrow> cass_process_responses rs (remove1 i ids))
     else cass_process_responses rs ids)"

definition pending_into_errors :: "cassandra_env \<Rightarrow> cassandra_connection \<Rightarrow> connection_error \<Rightarrow> nat \<Rightarrow> messages" where
  "pending_into_errors E c err v =
    map (\<lambda>i. from_frame (cx_response_id E i) (FCassandra (shotover_error i v (show_connection_error err))))
      (cx_hash_order E (cc_stream_ids c))"

text \<open>The boolean tells whether the connection still works.\<close>

definition cass_try_recv ::
  "cassandra_env \<Rightarrow> nat \<Rightarrow> messages \<Rightarrow> cassandra_connection \<Rightarrow> (messages \<times> bool \<times> cassandra_connection) result" where
  "cass_try_recv E v responses c =
    (case try_recv_into (cx_dummy_id E) responses (cc_connection c) of
       (COk rs, conn) \<Rightarrow>
         bind_result (cass_process_responses (drop (length responses) rs) (cc_stream_ids c))
           (\<lambda>ids. Ok (rs, True, \<lparr>cc_connection = conn, cc_stream_ids = ids\<rparr>))
     | (CErr e, conn) \<Rightarrow> Ok (responses @ pending_into_errors E c e v, False, c\<lparr>cc_connection := conn\<rparr>)
     | (CPanic p, _) \<Rightarrow> Inl (Panic p))"

definition cass_recv_into ::
  "cassandra_env \<Rightarrow> messages \<Rightarrow> sink_connection \<Rightarrow> (messages conn_result \<times> sink_connection) option" where
  "cass_recv_into E responses conn =
    (let w = cx_srv E (snd (try_recv_into (cx_dummy_id E) responses conn)) in
     if w = Expires \<and> fst (try_recv_into (cx_dummy_id E) responses conn) = COk responses then None
     else Some (recv_into (cx_dummy_id E) (case w of Arrives b \<Rightarrow> Some b | _ \<Rightarrow> None) responses conn))"

partial_function (option) recv_pending_loop ::
  "cassandra_env \<Rightarrow> nat \<Rightarrow> messages \<Rightarrow> cassandra_connection \<Rightarrow> (messages \<times> bool \<times> cassandra_connection) async" where
  [code]: "recv_pending_loop E v responses c =
    (if conn_pending_requests_count (cc_connection c) = 0 then Some (Ok (responses, True, c))
     else (case cass_recv_into E responses (cc_connection c) of
         None \<Rightarrow> None
       | Some (COk rs, conn) \<Rightarrow>
          bind_async (Some (cass_process_responses (drop (length responses) rs) (cc_stream_ids c)))
            (\<lambda>ids. recv_pending_loop E v rs \<lparr>cc_connection = conn, cc_stream_ids = ids\<rparr>)
       | Some (CErr e, conn) \<Rightarrow>
          Some (Ok (responses @ pending_into_errors E c e v, False, c\<lparr>cc_connection := conn\<rparr>))
       | Some (CPanic p, _) \<Rightarrow> Some (Inl (Panic p))))"

definition cass_recv_all_pending ::
  "cassandra_env \<Rightarrow> nat \<Rightarrow> messages \<Rightarrow> cassandra_connection \<Rightarrow> (messages \<times> bool \<times> cassandra_connection) async" where
  "cass_recv_all_pending E v responses c =
    (if conn_pending_requests_count (cc_connection c) = 0 then Some (cass_try_recv E v responses c)
     else recv_pending_loop E v responses c)"

subsection \<open>Nodes and the connection factory\<close>

record connection_factory =
  cf_init_handshake :: messages
  cf_use_message :: "message option"
  cf_version :: "nat option"
  cf_force_run_chain :: bool

definition factory_new :: connection_factory where
  "factory_new = \<lparr>cf_init_handshake = [], cf_use_message = None, cf_version = None, cf_force_run_chain = False\<rparr>"

definition factory_clone :: "connection_factory \<Rightarrow> connection_factory" where
  "factory_clone f = f\<lparr>cf_use_message := None, cf_force_run_chain := False\<rparr>"

text \<open>The timeouts, TLS settings and codec that \<^verbatim>\<open>new_with_same_config\<close> copies are not part of the model.\<close>

definition new_with_same_config :: "connection_factory \<Rightarrow> connection_factory" where
  "new_with_same_config f =
    \<lparr>cf_init_handshake = [], cf_use_message = None, cf_version = None, cf_force_run_chain = False\<rparr>"

fun send_handshake :: "cassandra_env \<Rightarrow> messages \<Rightarrow> sink_connection \<Rightarrow> sink_connection async" where
  "send_handshake E [] c = Some (Ok c)"
| "send_handshake E (m # ms) c = (case send_requests (cx_decoders E) [m] c of
     (Inl e, _) \<Rightarrow> Some (Inl e)
   | (Inr _, c1) \<Rightarrow> (case cass_recv_into E [] c1 of
       None \<Rightarrow> None
     | Some (COk _, c2) \<Rightarrow> send_handshake E ms c2
     | Some (CErr e, _) \<Rightarrow> Some (Inl (Err (show_connection_error e)))
     | Some (CPanic p, _) \<Rightarrow> Some (Inl (Panic p))))"

definition new_sink_connection ::
  "cassandra_env \<Rightarrow> connection_factory \<Rightarrow> socket_addr \<Rightarrow> sink_connection async" where
  "new_sink_connection E f addr =
    (if \<not> cf_force_run_chain f then Some (Inl (Panic ''called Option::unwrap() on a None value''))
     else (case cx_connect E addr of
         Inl (Panic p) \<Rightarrow> Some (Inl (Panic p))
       | Inl (Err e) \<Rightarrow> Some (Inl (Err ''Failed to create new connection''))
       | Inr _ \<Rightarrow> send_handshake E
           (cf_init_handshake f @ (case cf_use_message f of Some m \<Rightarrow> [m] | None \<Rightarrow> [])) conn_new))"

definition new_connection ::
  "cassandra_env \<Rightarrow> connection_factory \<Rightarrow> socket_addr \<Rightarrow> cassandra_connection async" where
  "new_connection E f addr =
    bind_async (new_sink_connection E f addr) (\<lambda>c. Some (Ok (cassandra_connection_new c)))"

definition push_handshake_message :: "decoders \<Rightarrow> message \<Rightarrow> connection_factory \<Rightarrow> connection_factory" where
  "push_handshake_message D m f =
    (if cf_version f = None
     then (case frame D m of
         (Some (FCassandra c), m') \<Rightarrow> f\<lparr>cf_version := Some (cversion c), cf_init_handshake := cf_init_handshake f @ [m']\<rparr>
       | (_, m') \<Rightarrow> f\<lparr>cf_init_handshake := cf_init_handshake f @ [m']\<rparr>)
     else f\<lparr>cf_init_handshake := cf_init_handshake f @ [m]\<rparr>)"

definition set_use_message :: "message \<Rightarrow> connection_factory \<Rightarrow> connection_factory" where
  "set_use_message m f = f\<lparr>cf_use_message := Some m\<rparr>"

definition set_force_run_chain :: "connection_factory \<Rightarrow> connection_factory" where
  "set_force_run_chain f = f\<lparr>cf_force_run_chain := True\<rparr>"

definition get_version :: "connection_factory \<Rightarrow> nat result" where
  "get_version f = (case cf_version f of
     Some v \<Rightarrow> Ok v
   | None \<Rightarrow> Inl (Err (''connection version could not be retrieved from the handshake because none of the ''
       @ show_nat (length (cf_init_handshake f)) @ '' messages in the handshake could be parsed'')))"

record cassandra_node =
  cn_address :: socket_addr
  cn_rack :: string
  cn_host_id :: uuid
  cn_is_up :: bool
  cn_outbound :: "cassandra_connection option"
  cn_tokens :: "int list"

definition node_new :: "socket_addr \<Rightarrow> string \<Rightarrow> int list \<Rightarrow> uuid \<Rightarrow> cassandra_node" where
  "node_new address rack tokens host_id =
    \<lparr>cn_address = address, cn_rack = rack, cn_host_id = host_id, cn_is_up = True, cn_outbound = None, cn_tokens = tokens\<rparr>"

definition node_clone :: "cassandra_node \<Rightarrow> cassandra_node" where
  "node_clone n = n\<lparr>cn_outbound := None\<rparr>"

definition report_issue :: "cassandra_node \<Rightarrow> cassandra_node" where
  "report_issue n = n\<lparr>cn_is_up := False, cn_outbound := None\<rparr>"

definition get_connection :: "cassandra_env \<Rightarrow> connection_factory \<Rightarrow> cassandra_node \<Rightarrow> cassandra_node async" where
  "get_connection E f n =
    (if cn_outbound n = None
     then bind_async (new_connection E f (cn_address n)) (\<lambda>c. Some (Ok (n\<lparr>cn_outbound := Some c\<rparr>)))
     else Some (Ok n))"

definition node_try_recv ::
  "cassandra_env \<Rightarrow> nat \<Rightarrow> messages \<Rightarrow> cassandra_node \<Rightarrow> (messages \<times> cassandra_node) result" where
  "node_try_recv E v responses n = (case cn_outbound n of
     None \<Rightarrow> Ok (responses, n)
   | Some c \<Rightarrow> bind_result (cass_try_recv E v responses c) (\<lambda>(rs, works, c').
       Ok (rs, if works then n\<lparr>cn_outbound := Some c'\<rparr> else report_issue n)))"

definition node_recv_all_pending ::
  "cassandra_env \<Rightarrow> nat \<Rightarrow> messages \<Rightarrow> cassandra_node \<Rightarrow> (messages \<times> cassandra_node) async" where
  "node_recv_all_pending E v responses n = (case cn_outbound n of
     None \<Rightarrow> Some (Ok (responses, n))
   | Some c \<Rightarrow> bind_async (cass_recv_all_pending E v responses c) (\<lambda>(rs, works, c').
       Some (Ok (rs, if works then n\<lparr>cn_outbound := Some c'\<rparr> else report_issue n))))"

subsection \<open>The token ring\<close>

datatype replication_strategy = SimpleStrategy | NetworkTopologyStrategy | LocalStrategy | UnknownStrategy

record keyspace_metadata =
  replication_factor :: nat
  strategy :: replication_strategy

record token_ring =
  ring_in :: "int list"
  ring_out :: "uuid list"

definition ring_pairs :: "cassandra_node list \<Rightarrow> (int \<times> uuid) list" where
  "ring_pairs ns = sort_key fst (concat (map (\<lambda>n. map (\<lambda>t. (t, cn_host_id n)) (cn_tokens n)) ns))"

definition token_ring_new :: "cassandra_node list \<Rightarrow> token_ring" where
  "token_ring_new ns = \<lparr>ring_in = map fst (ring_pairs ns), ring_out = map snd (ring_pairs ns)\<rparr>"

text \<open>\<^verbatim>\<open>slice::binary_search_by\<close> of the standard library: the loop halves the range that starts at \<open>base\<close>.\<close>

function search_loop :: "int list \<Rightarrow> int \<Rightarrow> nat \<Rightarrow> nat \<Rightarrow> nat" where
  "search_loop xs t base len =
    (if len \<le> 1 then base
     else let half = len div 2 in
       search_loop xs t (if t < xs ! (base + half) then base else base + half) (len - half))"
  by pat_completeness auto
termination
  by (relation "measure (\<lambda>(xs, t, base, len). len)") (auto simp: div_less_dividend)

declare search_loop.simps [simp del]

definition binary_search :: "int list \<Rightarrow> int \<Rightarrow> nat + nat" where
  "binary_search xs t =
    (if xs = [] then Inl 0
     else let base = search_loop xs t 0 (length xs) in
       if xs ! base = t then Inr base else Inl (if xs ! base < t then base + 1 else base))"

definition ring_range :: "token_ring \<Rightarrow> int \<Rightarrow> uuid list" where
  "ring_range r t =
    (let i = (case binary_search (ring_in r) t of Inr exact \<Rightarrow> exact | Inl first_greater \<Rightarrow> first_greater) in
     take (length (ring_out r)) (drop i (ring_out r) @ ring_out r))"

text \<open>The filter and \<^verbatim>\<open>take\<close> of \<^verbatim>\<open>iter_replica_nodes\<close>, which look at no more of the ring than they need.\<close>

fun replica_walk ::
  "cassandra_node list \<Rightarrow> bool \<Rightarrow> nat \<Rightarrow> string list \<Rightarrow> uuid list \<Rightarrow> uuid list result" where
  "replica_walk ns by_rack 0 racks_used hs = Ok []"
| "replica_walk ns by_rack (Suc k) racks_used [] = Ok []"
| "replica_walk ns by_rack (Suc k) racks_used (h # hs) =
    (if by_rack
     then (case find (\<lambda>n. cn_host_id n = h) ns of
         None \<Rightarrow> Inl (Panic ''called Option::unwrap() on a None value'')
       | Some n \<Rightarrow>
          if cn_rack n \<in> set racks_used then replica_walk ns by_rack (Suc k) racks_used hs
          else bind_result (replica_walk ns by_rack k (racks_used @ [cn_rack n]) hs) (\<lambda>r. Ok (h # r)))
     else bind_result (replica_walk ns by_rack k racks_used hs) (\<lambda>r. Ok (h # r)))"

definition iter_replica_nodes ::
  "token_ring \<Rightarrow> cassandra_node list \<Rightarrow> int \<Rightarrow> keyspace_metadata \<Rightarrow> uuid list result" where
  "iter_replica_nodes r ns token ks =
    replica_walk ns (strategy ks = NetworkTopologyStrategy) (replication_factor ks) [] (ring_range r token)"

subsection \<open>The node pool\<close>

record prepared_metadata =
  pm_pk_indexes :: "int list"
  pm_keyspace :: "string option"

datatype get_replica_err =
  NoPreparedMetadata | NoKeyspaceMetadata | NoNodeAvailable string | OtherReplicaErr string | NoRoutingKey

text \<open>\<^verbatim>\<open>prepared_metadata\<close> is shared by the instances of the transform: others may add to it between calls.\<close>

record node_pool =
  prepared :: "bytes \<Rightarrow> prepared_metadata option"
  keyspaces :: "string \<Rightarrow> keyspace_metadata option"
  token_map :: token_ring
  pool_nodes :: "cassandra_node list"
  out_of_rack_requests :: nat

definition pool_build :: "(bytes \<Rightarrow> prepared_metadata option) \<Rightarrow> nat \<Rightarrow> node_pool" where
  "pool_build shared counted =
    \<lparr>prepared = shared, keyspaces = Map.empty, token_map = token_ring_new [], pool_nodes = [], out_of_rack_requests = counted\<rparr>"

text \<open>The connection of an old node goes to the first new node with its host id that is up.\<close>

fun give_outbound :: "uuid \<Rightarrow> cassandra_connection \<Rightarrow> cassandra_node list \<Rightarrow> cassandra_node list" where
  "give_outbound h c [] = []"
| "give_outbound h c (n # ns) =
    (if cn_host_id n = h \<and> cn_is_up n then n\<lparr>cn_outbound := Some c\<rparr> # ns else n # give_outbound h c ns)"

definition update_nodes :: "cassandra_node list \<Rightarrow> node_pool \<Rightarrow> node_pool" where
  "update_nodes received p =
    (let new_nodes = fold (\<lambda>n ns. case cn_outbound n of Some c \<Rightarrow> give_outbound (cn_host_id n) c ns | None \<Rightarrow> ns)
           (pool_nodes p) (map node_clone received)
     in p\<lparr>pool_nodes := new_nodes, token_map := token_ring_new new_nodes\<rparr>)"

definition update_keyspaces :: "(string \<Rightarrow> keyspace_metadata option) \<Rightarrow> node_pool \<Rightarrow> node_pool" where
  "update_keyspaces received p = p\<lparr>keyspaces := received\<rparr>"

definition add_prepared_result :: "bytes \<Rightarrow> prepared_metadata \<Rightarrow> node_pool \<Rightarrow> node_pool" where
  "add_prepared_result i m p = p\<lparr>prepared := (prepared p)(i \<mapsto> m)\<rparr>"

text \<open>An error is one line here, whatever its chain of causes.\<close>

definition bullet_list_of_node_failures :: "cassandra_env \<Rightarrow> (socket_addr \<times> string) list \<Rightarrow> string" where
  "bullet_list_of_node_failures E errors =
    concat (map (\<lambda>(a, e). [CHR 0x0A] @ ''* '' @ cx_show_addr E a @ '':'' @ [CHR 0x0A] @ ''    - '' @ e) errors)"

text \<open>The nodes to try are given by their indexes; the outcome is an error or the index of a node that has a connection.\<close>

fun get_accessible_node ::
  "cassandra_env \<Rightarrow> connection_factory \<Rightarrow> (socket_addr \<times> string) list \<Rightarrow> nat list \<Rightarrow> cassandra_node list
     \<Rightarrow> ((string + nat) \<times> cassandra_node list) async" where
  "get_accessible_node E f errors [] ns =
    Some (Ok (Inl (''Attempted to open a connection to one of multiple nodes but all attempts failed:''
      @ bullet_list_of_node_failures E errors), ns))"
| "get_accessible_node E f errors (i # is) ns =
    (case get_connection E f (ns ! i) of
       None \<Rightarrow> None
     | Some (Inl (Panic p)) \<Rightarrow> Some (Inl (Panic p))
     | Some (Inl (Err e)) \<Rightarrow>
         get_accessible_node E f (errors @ [(cn_address (ns ! i), e)]) is (ns[i := report_issue (ns ! i)])
     | Some (Inr n) \<Rightarrow> Some (Ok (Inr i, ns[i := n])))"

definition indexes_of :: "('a \<Rightarrow> bool) \<Rightarrow> 'a list \<Rightarrow> nat list" where
  "indexes_of P xs = filter (\<lambda>i. P (xs ! i)) [0..<length xs]"

definition quoted :: "string \<Rightarrow> string" where
  "quoted s = [CHR 0x22] @ s @ [CHR 0x22]"

definition get_random_node_in_dc_rack ::
  "cassandra_env \<Rightarrow> connection_factory \<Rightarrow> string \<Rightarrow> opaque \<Rightarrow> node_pool
     \<Rightarrow> ((string + nat) \<times> opaque \<times> node_pool) async" where
  "get_random_node_in_dc_rack E f rack rng p =
    (let (order, rng') = cx_shuffle E rng (indexes_of (\<lambda>n. cn_is_up n \<and> cn_rack n = rack) (pool_nodes p)) in
     bind_async (get_accessible_node E f [] order (pool_nodes p)) (\<lambda>(r, ns).
       Some (Ok (case r of Inl _ \<Rightarrow> Inl (''Failed to open a connection to any nodes in the rack '' @ quoted rack) | Inr i \<Rightarrow> Inr i,
         rng', p\<lparr>pool_nodes := ns\<rparr>))))"

text \<open>Taking the connection of a node out of the pool.\<close>

definition take_outbound :: "nat \<Rightarrow> cassandra_node list \<Rightarrow> (cassandra_connection \<times> socket_addr \<times> cassandra_node list) result" where
  "take_outbound i ns = (case cn_outbound (ns ! i) of
     None \<Rightarrow> Inl (Panic ''it is set to Some by get_random_node_in_dc_rack'')
   | Some c \<Rightarrow> Ok (c, cn_address (ns ! i), ns[i := (ns ! i)\<lparr>cn_outbound := None\<rparr>]))"

definition get_random_owned_connection_in_dc_rack ::
  "cassandra_env \<Rightarrow> connection_factory \<Rightarrow> string \<Rightarrow> opaque \<Rightarrow> node_pool
     \<Rightarrow> ((string + cassandra_connection \<times> socket_addr) \<times> opaque \<times> node_pool) async" where
  "get_random_owned_connection_in_dc_rack E f rack rng p =
    bind_async (get_random_node_in_dc_rack E f rack rng p) (\<lambda>(r, rng', p'). case r of
       Inl e \<Rightarrow> Some (Ok (Inl e, rng', p'))
     | Inr i \<Rightarrow> Some (bind_result (take_outbound i (pool_nodes p')) (\<lambda>(c, a, ns).
         Ok (Inr (c, a), rng', p'\<lparr>pool_nodes := ns\<rparr>))))"

definition get_accessible_owned_connection ::
  "cassandra_env \<Rightarrow> connection_factory \<Rightarrow> cassandra_node list \<Rightarrow> (string + cassandra_connection \<times> socket_addr) async" where
  "get_accessible_owned_connection E f ns =
    bind_async (get_accessible_node E f [] [0..<length ns] ns) (\<lambda>(r, ns'). case r of
       Inl e \<Rightarrow> Some (Ok (Inl e))
     | Inr i \<Rightarrow> Some (bind_result (take_outbound i ns') (\<lambda>(c, a, _). Ok (Inr (c, a)))))"

definition swap :: "nat \<Rightarrow> nat \<Rightarrow> 'a list \<Rightarrow> 'a list" where
  "swap i j xs = xs[i := xs ! j, j := xs ! i]"

definition move_to_front :: "('a \<Rightarrow> bool) \<Rightarrow> 'a list \<Rightarrow> 'a list \<times> nat" where
  "move_to_front P xs =
    fold (\<lambda>i (ys, found). if P (ys ! i) then (swap i found ys, found + 1) else (ys, found)) [0..<length xs] (xs, 0)"

definition get_replica_node_in_dc ::
  "cassandra_env \<Rightarrow> execute_body \<Rightarrow> string \<Rightarrow> opaque \<Rightarrow> node_pool
     \<Rightarrow> ((get_replica_err + nat list) \<times> opaque \<times> node_pool) result" where
  "get_replica_node_in_dc E execute rack rng p = (case prepared p (execute_id execute) of
     None \<Rightarrow> Ok (Inl NoPreparedMetadata, rng, p)
   | Some metadata \<Rightarrow> (case Option.bind (pm_keyspace metadata) (keyspaces p) of
       None \<Rightarrow> Ok (Inl NoKeyspaceMetadata, rng, p)
     | Some ks \<Rightarrow> (case execute_values execute of
         None \<Rightarrow> Ok (Inl (OtherReplicaErr ''Execute body does not have query parameters''), rng, p)
       | Some vs \<Rightarrow> bind_result (calculate_routing_key (pm_pk_indexes metadata) vs) (\<lambda>key. case key of
           None \<Rightarrow> Ok (Inl NoRoutingKey, rng, p)
         | Some token \<Rightarrow>
            bind_result (iter_replica_nodes (token_map p) (pool_nodes p) token ks) (\<lambda>replicas.
            (let (order, rng') = cx_shuffle E rng
                   (indexes_of (\<lambda>n. cn_host_id n \<in> set replicas \<and> cn_is_up n) (pool_nodes p));
                 (preferred, in_rack) = move_to_front (\<lambda>i. cn_rack (pool_nodes p ! i) = rack) order
             in Ok (Inr preferred, rng',
                  if in_rack = 0 then p\<lparr>out_of_rack_requests := out_of_rack_requests p + 1\<rparr> else p)))))))"

definition get_replica_connection_in_dc ::
  "cassandra_env \<Rightarrow> connection_factory \<Rightarrow> execute_body \<Rightarrow> string \<Rightarrow> opaque \<Rightarrow> node_pool
     \<Rightarrow> ((get_replica_err + nat) \<times> opaque \<times> node_pool) async" where
  "get_replica_connection_in_dc E f execute rack rng p =
    bind_async (Some (get_replica_node_in_dc E execute rack rng p)) (\<lambda>(r, rng', p'). case r of
       Inl e \<Rightarrow> Some (Ok (Inl e, rng', p'))
     | Inr is \<Rightarrow> bind_async (get_accessible_node E f [] is (pool_nodes p')) (\<lambda>(acc, ns).
         Some (Ok (case acc of Inl _ \<Rightarrow> Inl (NoNodeAvailable ''Failed to open a connection to any replicas of a specific token'') | Inr i \<Rightarrow> Inr i,
           rng', p'\<lparr>pool_nodes := ns\<rparr>))))"

end
