(* ===== verification/Cassandra_Replicas.thy ===== *)
theory Cassandra_Replicas
  imports Cassandra_Nodes
begin

text \<open>
  Facts on the ring and the pool: the binary search starts the walk at the right token, the walk
  takes the first node of each rack, nodes of the own rack are tried first, and the hosts of
  the ring are always hosts of the pool.
\<close>

subsection \<open>The search\<close>

lemma search_loop_spec:
  assumes "sorted xs" and "0 < len" and "base + len \<le> length xs" and "base = 0 \<or> xs ! base \<le> t"
    and "\<And>i. base + len \<le> i \<Longrightarrow> i < length xs \<Longrightarrow> t < xs ! i" and "search_loop xs t base len = b"
  shows "b < length xs \<and> (b = 0 \<or> xs ! b \<le> t) \<and> (\<forall>i. b < i \<and> i < length xs \<longrightarrow> t < xs ! i)"
  using assms
proof (induction xs t base len rule: search_loop.induct)
  case (1 xs t base len)
  show ?case
  proof (cases "len \<le> 1")
    case True
    with 1 show ?thesis by (simp add: search_loop.simps[of xs t base len])
  next
    case False
    define half where "half = len div 2"
    have h: "0 < half" "half < len" "half \<le> len - half" using False by (auto simp: half_def)
    show ?thesis
    proof (cases "t < xs ! (base + half)")
      case True
      have "t < xs ! i" if "base + (len - half) \<le> i" "i < length xs" for i
        using sorted_nth_mono[OF 1(2), of "base + half" i] that h True by simp
      then show ?thesis
        using 1(1)[OF False half_def] 1(2-7) False True h
        by (simp add: search_loop.simps[of xs t base len] half_def[symmetric] Let_def)
    next
      case ge: False
      show ?thesis
        using 1(1)[OF False half_def] 1(2-7) False ge h
        by (simp add: search_loop.simps[of xs t base len] half_def[symmetric] Let_def)
    qed
  qed
qed

definition first_at_least :: "int list \<Rightarrow> int \<Rightarrow> nat" where
  "first_at_least xs t = length (filter (\<lambda>x. x < t) xs)"

lemma filter_less_take:
  assumes "b \<le> length xs" and "\<And>i. i < b \<Longrightarrow> P (xs ! i)" and "\<And>i. b \<le> i \<Longrightarrow> i < length xs \<Longrightarrow> \<not> P (xs ! i)"
  shows "filter P xs = take b xs"
proof -
  have "filter P xs = filter P (take b xs) @ filter P (drop b xs)" by (metis append_take_drop_id filter_append)
  moreover have "filter P (take b xs) = take b xs" using assms(1,2) by (auto simp: filter_id_conv in_set_conv_nth)
  moreover have "filter P (drop b xs) = []" using assms(1,3) by (auto simp: filter_empty_conv in_set_conv_nth)
  ultimately show ?thesis by simp
qed

lemma binary_search_index:
  assumes "sorted xs" and "distinct xs"
  shows "(case binary_search xs t of Inr i \<Rightarrow> i | Inl i \<Rightarrow> i) = first_at_least xs t"
proof (cases "xs = []")
  case True
  then show ?thesis by (simp add: binary_search_def first_at_least_def)
next
  case False
  define b where "b = search_loop xs t 0 (length xs)"
  have b: "b < length xs" "b = 0 \<or> xs ! b \<le> t" "\<And>i. b < i \<Longrightarrow> i < length xs \<Longrightarrow> t < xs ! i"
    using search_loop_spec[OF assms(1), of "length xs" 0 t b] False by (auto simp: b_def)
  have lt: "xs ! i < xs ! j" if "i < j" "j < length xs" for i j
    using assms that by (metis distinct_conv_nth less_le less_trans nat_neq_iff sorted_iff_nth_mono_less)
  have idx: "first_at_least xs t = c"
    if "c \<le> length xs" "\<And>i. i < c \<Longrightarrow> xs ! i < t" "\<And>i. c \<le> i \<Longrightarrow> i < length xs \<Longrightarrow> \<not> xs ! i < t" for c
    using filter_less_take[of c xs "\<lambda>x. x < t"] that by (simp add: first_at_least_def)
  consider "xs ! b = t" | "xs ! b < t" | "t < xs ! b" by linarith
  then show ?thesis
  proof cases
    case 1
    have "first_at_least xs t = b"
      by (rule idx) (use b lt 1 in \<open>auto simp: le_less dest: less_imp_le, metis less_asym\<close>)
    then show ?thesis using 1 False by (simp add: binary_search_def b_def Let_def)
  next
    case 2
    have "first_at_least xs t = Suc b"
    proof (rule idx)
      fix i assume "i < Suc b"
      then show "xs ! i < t" using lt[of i b] b(1) 2 by (cases "i = b") auto
    next
      fix i assume "Suc b \<le> i" "i < length xs"
      then show "\<not> xs ! i < t" using b(3)[of i] by simp
    qed (use b in simp)
    then show ?thesis using 2 False by (simp add: binary_search_def b_def Let_def)
  next
    case 3
    then have "b = 0" using b(2) by auto
    have "first_at_least xs t = 0"
    proof (rule idx)
      fix i assume "i < length xs"
      then show "\<not> xs ! i < t" using b(3)[of i] 3 \<open>b = 0\<close> by (cases "i = 0") auto
    qed simp_all
    then show ?thesis using 3 False \<open>b = 0\<close> by (simp add: binary_search_def b_def Let_def)
  qed
qed

subsection \<open>The walk\<close>

lemma sorted_ring_pairs: "sorted (map fst (ring_pairs ns))"
  by (simp add: ring_pairs_def)

lemma take_filter_sorted:
  assumes "sorted (map fst ps)"
  shows "take (length (filter (\<lambda>p. fst p < t) ps)) ps = filter (\<lambda>p. fst p < t) ps
    \<and> drop (length (filter (\<lambda>p. fst p < t) ps)) ps = filter (\<lambda>p. t \<le> fst p) ps"
  using assms
proof (induction ps)
  case (Cons p ps)
  show ?case
  proof (cases "fst p < t")
    case False
    then have "filter (\<lambda>p. fst p < t) ps = []" "filter (\<lambda>p. t \<le> fst p) ps = ps"
      using Cons(2) by (auto simp: filter_empty_conv filter_id_conv)
    then show ?thesis using False by simp
  qed (use Cons in auto)
qed simp

lemma ring_range_owners:
  assumes "distinct (map fst (ring_pairs ns))"
  shows "ring_range (token_ring_new ns) t =
    map snd (filter (\<lambda>p. t \<le> fst p) (ring_pairs ns)) @ map snd (filter (\<lambda>p. fst p < t) (ring_pairs ns))"
proof -
  define ps where "ps = ring_pairs ns"
  define k where "k = length (filter (\<lambda>p. fst p < t) ps)"
  have "first_at_least (map fst ps) t = k" by (simp add: first_at_least_def filter_map k_def comp_def)
  then have i: "(case binary_search (map fst ps) t of Inr i \<Rightarrow> i | Inl i \<Rightarrow> i) = k"
    using binary_search_index[of "map fst ps" t] assms sorted_ring_pairs[of ns] by (simp add: ps_def)
  have k: "k \<le> length ps" by (simp add: k_def)
  have "ring_range (token_ring_new ns) t = take (length ps) (drop k (map snd ps) @ map snd ps)"
    using i by (simp add: ring_range_def token_ring_new_def ps_def Let_def)
  also have "\<dots> = map snd (drop k ps) @ map snd (take k ps)"
    using k by (simp add: drop_map take_map)
  finally show ?thesis using take_filter_sorted[of ps t] sorted_ring_pairs[of ns] by (simp add: ps_def k_def)
qed

lemma ring_range_set: "set (ring_range r t) \<subseteq> set (ring_out r)"
  by (auto simp: ring_range_def Let_def dest!: in_set_takeD in_set_dropD)

fun first_of_each :: "('a \<Rightarrow> 'b) \<Rightarrow> 'b set \<Rightarrow> 'a list \<Rightarrow> 'a list" where
  "first_of_each f seen [] = []"
| "first_of_each f seen (x # xs) =
    (if f x \<in> seen then first_of_each f seen xs else x # first_of_each f (insert (f x) seen) xs)"

definition rack_of :: "cassandra_node list \<Rightarrow> uuid \<Rightarrow> string" where
  "rack_of ns h = cn_rack (the (find (\<lambda>n. cn_host_id n = h) ns))"

lemma replica_walk_racks:
  assumes "set hs \<subseteq> cn_host_id ` set ns"
  shows "replica_walk ns True k used hs = Ok (take k (first_of_each (rack_of ns) (set used) hs))"
  using assms
proof (induction ns "True" k used hs rule: replica_walk.induct)
  case (3 ns k used h hs)
  then obtain n where n: "find (\<lambda>n. cn_host_id n = h) ns = Some n"
    by (cases "find (\<lambda>n. cn_host_id n = h) ns") (auto simp: find_None_iff)
  then show ?case using 3 by (simp add: rack_of_def)
qed simp_all

lemma replica_walk_simple: "replica_walk ns False k used hs = Ok (take k hs)"
  by (induction ns "False" k used hs rule: replica_walk.induct) simp_all

lemma first_of_each_distinct:
  "distinct (map f (first_of_each f seen xs)) \<and> f ` set (first_of_each f seen xs) = f ` set xs - seen"
  by (induction f seen xs rule: first_of_each.induct) auto

lemma first_of_each_first:
  "x \<in> set (first_of_each f seen xs) \<Longrightarrow> \<exists>a b. xs = a @ x # b \<and> f x \<notin> f ` set a"
proof (induction f seen xs rule: first_of_each.induct)
  case (2 f seen y xs)
  show ?case
  proof (cases "x = y \<and> f y \<notin> seen")
    case True
    then show ?thesis by (intro exI[of _ "[]"] exI[of _ xs]) simp
  next
    case False
    define seen' where "seen' = (if f y \<in> seen then seen else insert (f y) seen)"
    have in': "x \<in> set (first_of_each f seen' xs)" using 2(3) False by (auto simp: seen'_def split: if_splits)
    then have "f x \<in> f ` set xs - seen'" using first_of_each_distinct[of f seen' xs] by (metis imageI)
    then have "f x \<noteq> f y" by (auto simp: seen'_def split: if_splits)
    moreover obtain a b where "xs = a @ x # b" "f x \<notin> f ` set a" using 2(1,2) in' by (auto simp: seen'_def split: if_splits)
    ultimately show ?thesis by (intro exI[of _ "y # a"] exI[of _ b]) simp
  qed
qed simp

lemma first_of_each_length: "length (first_of_each f {} xs) = card (f ` set xs)"
  using first_of_each_distinct[of f "{}" xs] by (metis Diff_empty distinct_card length_map list.set_map)

subsection \<open>Nodes of the own rack first\<close>

lemma mset_swap: "i < length xs \<Longrightarrow> j < length xs \<Longrightarrow> mset (swap i j xs) = mset xs"
  by (simp add: swap_def mset_swap)

lemma swap_nth:
  "i < length xs \<Longrightarrow> j < length xs \<Longrightarrow> k < length xs \<Longrightarrow>
    swap i j xs ! k = (if k = j then xs ! i else if k = i then xs ! j else xs ! k)"
  by (auto simp: swap_def nth_list_update)

definition in_front :: "('a \<Rightarrow> bool) \<Rightarrow> nat \<Rightarrow> 'a list \<Rightarrow> nat \<Rightarrow> bool" where
  "in_front P n ys k \<longleftrightarrow> k \<le> n \<and> (\<forall>i < k. P (ys ! i)) \<and> (\<forall>i. k \<le> i \<and> i < n \<longrightarrow> \<not> P (ys ! i))"

lemma in_front_step:
  assumes "in_front P n ys k" and "n < length ys"
  shows "P (ys ! n) \<Longrightarrow> in_front P (Suc n) (swap n k ys) (Suc k)" and "\<not> P (ys ! n) \<Longrightarrow> in_front P (Suc n) ys k"
  using assms by (auto simp: in_front_def swap_nth less_Suc_eq_le le_less)

lemma move_to_front_spec:
  assumes "move_to_front P xs = (ys, k)"
  shows "mset ys = mset xs" and "in_front P (length xs) ys k"
proof -
  define step where "step = (\<lambda>i (ys, found). if P (ys ! i) then (swap i found ys, found + 1) else (ys, found))"
  have "\<exists>ys k. fold step [0..<n] (xs, 0) = (ys, k) \<and> mset ys = mset xs \<and> in_front P n ys k" if "n \<le> length xs" for n
    using that
  proof (induction n)
    case (Suc n)
    then obtain ys k where ys: "fold step [0..<n] (xs, 0) = (ys, k)" "mset ys = mset xs" "in_front P n ys k" by auto
    have n: "n < length ys" "k < length ys" using ys(2,3) Suc(2) by (auto simp: in_front_def dest: mset_eq_length)
    show ?case using ys n in_front_step[OF ys(3) n(1)] by (auto simp: step_def mset_swap)
  qed (simp add: in_front_def)
  from this[of "length xs"] show "mset ys = mset xs" and "in_front P (length xs) ys k"
    using assms by (auto simp: move_to_front_def step_def)
qed

subsection \<open>Trying nodes\<close>

text \<open>What trying connections changes in a node: whether it counts as up, and its connection.\<close>

definition same_node :: "cassandra_node \<Rightarrow> cassandra_node \<Rightarrow> bool" where
  "same_node n n' \<longleftrightarrow> cn_address n' = cn_address n \<and> cn_rack n' = cn_rack n \<and> cn_host_id n' = cn_host_id n \<and> cn_tokens n' = cn_tokens n"

lemma same_node_refl [simp]: "same_node n n"
  by (simp add: same_node_def)

lemma same_node_trans: "same_node a b \<Longrightarrow> same_node b c \<Longrightarrow> same_node a c"
  by (simp add: same_node_def)

lemma same_nodes_trans: "list_all2 same_node a b \<Longrightarrow> list_all2 same_node b c \<Longrightarrow> list_all2 same_node a c"
  by (auto simp: list_all2_conv_all_nth) (metis same_node_trans)

lemma same_node_updates [simp]:
  "same_node n (n\<lparr>cn_outbound := o1\<rparr>)" "same_node n (report_issue n)" "same_node n (node_clone n)"
  by (simp_all add: same_node_def report_issue_def node_clone_def)

lemma get_connection_same: "get_connection E f n = Some (Ok n') \<Longrightarrow> same_node n n' \<and> cn_outbound n' \<noteq> None \<and> cn_is_up n' = cn_is_up n"
  by (auto simp: get_connection_def result split: if_splits)

lemma list_all2_same_update:
  "list_all2 same_node ns ns \<and> (same_node (ns ! i) n \<longrightarrow> list_all2 same_node ns (ns[i := n]))"
proof (intro conjI impI list_all2_all_nthI)
  fix j assume "same_node (ns ! i) n" "j < length ns"
  then show "same_node (ns ! j) (ns[i := n] ! j)" by (cases "j = i") auto
qed auto

lemma get_accessible_node_spec:
  assumes "get_accessible_node E f errors is ns = Some (Ok (r, ns'))" and "distinct is"
  shows "list_all2 same_node ns ns' \<and> (\<forall>j. j \<notin> set is \<longrightarrow> ns' ! j = ns ! j) \<and>
    (case r of
       Inl _ \<Rightarrow> \<forall>j \<in> set is. j < length ns \<longrightarrow> \<not> cn_is_up (ns' ! j)
     | Inr i \<Rightarrow> (\<exists>tried later. is = tried @ i # later \<and> (\<forall>j \<in> set tried. j < length ns \<longrightarrow> \<not> cn_is_up (ns' ! j))
         \<and> (\<forall>j \<in> set later. ns' ! j = ns ! j))
         \<and> (i < length ns \<longrightarrow> cn_outbound (ns' ! i) \<noteq> None \<and> cn_is_up (ns' ! i) = cn_is_up (ns ! i)))"
  using assms
proof (induction E f errors "is" ns rule: get_accessible_node.induct)
  case (1 E f errors ns)
  then show ?case by (auto simp: list_all2_same_update)
next
  case (2 E f errors i "is" ns)
  consider (up) n where "get_connection E f (ns ! i) = Some (Inr n)" | (down) e where "get_connection E f (ns ! i) = Some (Inl (Err e))"
    using 2(2) by (auto split: option.splits sum.splits err.splits)
  then show ?case
  proof cases
    case up
    then have eq: "r = Inr i" "ns' = ns[i := n]" using 2(2) by auto
    have "\<forall>j \<in> set is. ns' ! j = ns ! j" using 2(3) by (metis eq(2) distinct.simps(2) nth_list_update_neq)
    then have "\<exists>tried later. i # is = tried @ i # later \<and> (\<forall>j \<in> set tried. j < length ns \<longrightarrow> \<not> cn_is_up (ns' ! j))
        \<and> (\<forall>j \<in> set later. ns' ! j = ns ! j)" by (intro exI[of _ "[]"] exI[of _ "is"]) simp
    then show ?thesis
      using get_connection_same[OF up] list_all2_same_update[of ns i n] 2(3) by (auto simp: eq)
  next
    case down
    define ns1 where "ns1 = ns[i := report_issue (ns ! i)]"
    have ih: "list_all2 same_node ns1 ns' \<and> (\<forall>j. j \<notin> set is \<longrightarrow> ns' ! j = ns1 ! j) \<and>
      (case r of Inl _ \<Rightarrow> \<forall>j \<in> set is. j < length ns1 \<longrightarrow> \<not> cn_is_up (ns' ! j)
       | Inr i' \<Rightarrow> (\<exists>tried later. is = tried @ i' # later \<and> (\<forall>j \<in> set tried. j < length ns1 \<longrightarrow> \<not> cn_is_up (ns' ! j))
           \<and> (\<forall>j \<in> set later. ns' ! j = ns1 ! j))
           \<and> (i' < length ns1 \<longrightarrow> cn_outbound (ns' ! i') \<noteq> None \<and> cn_is_up (ns' ! i') = cn_is_up (ns1 ! i')))"
      unfolding ns1_def by (rule 2(1)[OF down]) (use 2(2,3) down in simp_all)
    have len: "length ns1 = length ns" by (simp add: ns1_def)
    have other: "ns1 ! j = ns ! j" if "j \<noteq> i" for j using that by (simp add: ns1_def)
    have this_down: "i < length ns \<longrightarrow> \<not> cn_is_up (ns' ! i)" using ih 2(3) by (auto simp: ns1_def report_issue_def)
    have same: "list_all2 same_node ns ns'"
      using same_nodes_trans[of ns ns1 ns'] list_all2_same_update[of ns i "report_issue (ns ! i)"] ih by (simp add: ns1_def)
    have rest: "\<forall>j. j \<notin> set (i # is) \<longrightarrow> ns' ! j = ns ! j" using ih other by auto
    show ?thesis
    proof (cases r)
      case (Inl e')
      then show ?thesis using ih len this_down same rest by auto
    next
      case (Inr i')
      then obtain tried later where t: "is = tried @ i' # later" "\<forall>j \<in> set tried. j < length ns \<longrightarrow> \<not> cn_is_up (ns' ! j)"
        "\<forall>j \<in> set later. ns' ! j = ns1 ! j" using ih len by auto
      have "i' \<noteq> i" "\<forall>j \<in> set later. j \<noteq> i" using t(1) 2(3) by auto
      have "\<exists>tried later. i # is = tried @ i' # later \<and> (\<forall>j \<in> set tried. j < length ns \<longrightarrow> \<not> cn_is_up (ns' ! j))
          \<and> (\<forall>j \<in> set later. ns' ! j = ns ! j)"
        by (intro exI[of _ "i # tried"] exI[of _ later])
          (use t this_down other \<open>\<forall>j \<in> set later. j \<noteq> i\<close> in auto)
      moreover have "i' < length ns \<longrightarrow> cn_outbound (ns' ! i') \<noteq> None \<and> cn_is_up (ns' ! i') = cn_is_up (ns ! i')"
        using ih Inr len other[OF \<open>i' \<noteq> i\<close>] by simp
      ultimately show ?thesis using same rest Inr by simp
    qed
  qed
qed

lemma set_ring_pairs: "set (ring_pairs ns) = {(t, cn_host_id n) | t n. n \<in> set ns \<and> t \<in> set (cn_tokens n)}"
  by (auto simp: ring_pairs_def)

lemma distinct_ring_pairs: "distinct (map fst (ring_pairs ns)) \<longleftrightarrow> distinct (concat (map cn_tokens ns))"
proof -
  define ps where "ps = concat (map (\<lambda>n. map (\<lambda>t. (t, cn_host_id n)) (cn_tokens n)) ns)"
  have "map fst ps = concat (map cn_tokens ns)" by (simp add: ps_def map_concat comp_def)
  moreover have "mset (map fst (sort_key fst ps)) = mset (map fst ps)" by (metis mset_map mset_sort)
  ultimately show ?thesis using mset_eq_imp_distinct_iff[of "map fst (sort_key fst ps)" "map fst ps"] by (simp add: ring_pairs_def ps_def)
qed

lemma first_of_each_subseq: "subseq (first_of_each f seen xs) xs"
  by (induction f seen xs rule: first_of_each.induct) auto

lemma subseq_take: "subseq (take n xs) xs"
proof (induction xs arbitrary: n)
  case (Cons x xs)
  then show ?case by (cases n) auto
qed simp

subsection \<open>The hosts of the ring are hosts of the pool\<close>

definition pool_ok :: "node_pool \<Rightarrow> bool" where
  "pool_ok p \<longleftrightarrow> set (ring_out (token_map p)) \<subseteq> cn_host_id ` set (pool_nodes p)"

lemma ring_hosts: "set (ring_out (token_ring_new ns)) \<subseteq> cn_host_id ` set ns"
  by (auto simp: token_ring_new_def set_ring_pairs)

lemma same_nodes_hosts: "list_all2 same_node ns ns' \<Longrightarrow> map cn_host_id ns' = map cn_host_id ns"
  by (induction ns ns' rule: list_all2_induct) (auto simp: same_node_def)

lemma pool_ok_same:
  assumes "pool_ok p" and "list_all2 same_node (pool_nodes p) (pool_nodes p')" and "token_map p' = token_map p"
  shows "pool_ok p'"
  using assms(1,3) arg_cong[OF same_nodes_hosts[OF assms(2)], of set] by (simp add: pool_ok_def)

lemma pool_ok_update_nodes: "pool_ok (update_nodes ns p)"
  using ring_hosts by (simp add: pool_ok_def update_nodes_def Let_def)

lemma pool_ok_build: "pool_ok (pool_build shared counted)"
  by (simp add: pool_ok_def pool_build_def token_ring_new_def ring_pairs_def)

text \<open>The replicas are always found, so that \<^verbatim>\<open>find(..).unwrap()\<close> does not panic.\<close>

lemma iter_replica_nodes_ok:
  assumes "set (ring_out r) \<subseteq> cn_host_id ` set ns"
  shows "\<exists>hs. iter_replica_nodes r ns t ks = Ok hs"
proof (cases "strategy ks = NetworkTopologyStrategy")
  case True
  have "set (ring_range r t) \<subseteq> cn_host_id ` set ns" using assms ring_range_set[of r t] by blast
  then show ?thesis using replica_walk_racks[of "ring_range r t" ns] True by (simp add: iter_replica_nodes_def)
next
  case False
  then show ?thesis by (simp add: iter_replica_nodes_def replica_walk_simple)
qed

subsection \<open>Choosing a replica\<close>

lemma set_indexes_of: "set (indexes_of P xs) = {i. i < length xs \<and> P (xs ! i)}"
  by (auto simp: indexes_of_def)

lemma distinct_indexes_of: "distinct (indexes_of P xs)"
  by (simp add: indexes_of_def)

lemma replica_nodes_spec:
  assumes "env_ok E" and "get_replica_node_in_dc E execute rack rng p = Ok (Inr is, rng', p')"
  obtains md ks vs token hs where
    "prepared p (execute_id execute) = Some md" "Option.bind (pm_keyspace md) (keyspaces p) = Some ks"
    "execute_values execute = Some vs" "calculate_routing_key (pm_pk_indexes md) vs = Ok (Some token)"
    "iter_replica_nodes (token_map p) (pool_nodes p) token ks = Ok hs"
    "set is = {i. i < length (pool_nodes p) \<and> cn_host_id (pool_nodes p ! i) \<in> set hs \<and> cn_is_up (pool_nodes p ! i)}"
    "distinct is" "\<exists>k. in_front (\<lambda>i. cn_rack (pool_nodes p ! i) = rack) (length is) is k"
    "pool_nodes p' = pool_nodes p" "token_map p' = token_map p"
proof -
  obtain md ks vs token hs where q: "prepared p (execute_id execute) = Some md" "Option.bind (pm_keyspace md) (keyspaces p) = Some ks"
    "execute_values execute = Some vs" "calculate_routing_key (pm_pk_indexes md) vs = Ok (Some token)"
    "iter_replica_nodes (token_map p) (pool_nodes p) token ks = Ok hs"
    using assms(2) by (auto simp: get_replica_node_in_dc_def result split: option.splits)
  define cand where "cand = indexes_of (\<lambda>n. cn_host_id n \<in> set hs \<and> cn_is_up n) (pool_nodes p)"
  obtain order rng1 where sh: "cx_shuffle E rng cand = (order, rng1)" by fastforce
  obtain ys k where mv: "move_to_front (\<lambda>i. cn_rack (pool_nodes p ! i) = rack) order = (ys, k)" by fastforce
  have eq: "is = ys" "pool_nodes p' = pool_nodes p" "token_map p' = token_map p"
    using assms(2) q sh mv by (auto simp: get_replica_node_in_dc_def cand_def split: if_splits)
  have "mset order = mset cand" using assms(1) sh unfolding env_ok_def by (metis fst_conv)
  then have ms: "mset ys = mset cand" using move_to_front_spec(1)[OF mv] by simp
  have "in_front (\<lambda>i. cn_rack (pool_nodes p ! i) = rack) (length ys) ys k"
    using move_to_front_spec[OF mv] by (metis mset_eq_length)
  moreover have "set ys = set cand" "distinct ys"
    using ms distinct_indexes_of[of _ "pool_nodes p"] by (auto simp: cand_def dest: mset_eq_setD mset_eq_imp_distinct_iff)
  ultimately show ?thesis using that[OF q] eq by (auto simp: cand_def set_indexes_of)
qed

end
