(* ===== verification/Cassandra_Rewrite.thy ===== *)
theory Cassandra_Rewrite
  imports Cassandra_Replicas
begin

text \<open>
  The rewriting of system tables and of \<^verbatim>\<open>PREPARE\<close> by \<^verbatim>\<open>CassandraSinkCluster\<close>
  (\<^verbatim>\<open>src/shotover/src/transforms/cassandra/sink_cluster/rewrite.rs\<close>) and the transform
  \<^verbatim>\<open>CassandraPeersRewrite\<close> (\<^verbatim>\<open>transforms/cassandra/peers_rewrite.rs\<close>).

  The CQL parser, the comparison of its names and of version strings, random ids and the debug
  formatting of foreign types are parameters.
\<close>

record cql =
  ident_eq :: "cql_identifier \<Rightarrow> cql_identifier \<Rightarrow> bool"
  fq_eq :: "fq_name \<Rightarrow> fq_name \<Rightarrow> bool"
  parse_identifier :: "string \<Rightarrow> cql_identifier"
  is_key_local :: "opaque list \<Rightarrow> bool"
  parse_ast :: "string \<Rightarrow> bool \<times> cassandra_statement list"
  show_fq :: "fq_name \<Rightarrow> string"
  version_lt :: "string \<Rightarrow> string \<Rightarrow> bool"
  new_v4 :: "nat \<Rightarrow> nat \<Rightarrow> uuid"
  new_id :: "messages \<Rightarrow> message_id"
  debug_error :: "string \<Rightarrow> error_type \<Rightarrow> string"
  debug_prepared :: "prepared_body \<Rightarrow> string"
  debug_value :: "generic_value option \<Rightarrow> string"

text \<open>A random id is none of those in use.\<close>

definition cql_ok :: "cql \<Rightarrow> bool" where
  "cql_ok C \<longleftrightarrow> (\<forall>ms. new_id C ms \<notin> id ` set ms)"

definition parse_statement_single :: "cql \<Rightarrow> string \<Rightarrow> cassandra_statement" where
  "parse_statement_single C text = (case parse_ast C text of
     (has_error, [s]) \<Rightarrow> if has_error then Unknown text else s
   | _ \<Rightarrow> Unknown text)"

subsection \<open>Rewriting the native port\<close>

record peers_rewrite =
  pr_port :: nat
  column_names_to_rewrite :: "(message_id \<times> cql_identifier list) list"

definition system_table :: "string \<Rightarrow> fq_name" where
  "system_table name = \<lparr>fq_keyspace = Some (Quoted ''system''), fq_table = Quoted name\<rparr>"

definition peer_table :: "cql \<Rightarrow> fq_name" where
  "peer_table C = \<lparr>fq_keyspace = Some (parse_identifier C ''system''), fq_table = parse_identifier C ''peers_v2''\<rparr>"

fun native_port_columns :: "cql \<Rightarrow> select_element list \<Rightarrow> cql_identifier list" where
  "native_port_columns C [] = []"
| "native_port_columns C (Column name alias # es) =
    (if ident_eq C name (parse_identifier C ''native_port'')
     then (case alias of Some a \<Rightarrow> a | None \<Rightarrow> name) # native_port_columns C es else native_port_columns C es)"
| "native_port_columns C (Star # es) = parse_identifier C ''native_port'' # native_port_columns C es"
| "native_port_columns C (Function _ # es) = native_port_columns C es"

definition extract_native_port_column :: "decoders \<Rightarrow> cql \<Rightarrow> message \<Rightarrow> cql_identifier list \<times> message" where
  "extract_native_port_column D C m = (case frame D m of
     (Some (FCassandra f), m') \<Rightarrow> (case coperation f of
         Query (Select s) _ \<Rightarrow> (if fq_eq C (peer_table C) (sel_table s) then native_port_columns C (sel_columns s) else [], m')
       | _ \<Rightarrow> ([], m'))
   | (_, m') \<Rightarrow> ([], m'))"

text \<open>\<^verbatim>\<open>row[i]\<close> panics when the row is shorter than the column specifications.\<close>

definition set_columns :: "nat list \<Rightarrow> generic_value \<Rightarrow> generic_value list \<Rightarrow> generic_value list result" where
  "set_columns is v row =
    (if \<exists>i \<in> set is. length row \<le> i then Inl (Panic ''index out of bounds'')
     else Ok (fold (\<lambda>i r. r[i := v]) is row))"

fun map_result :: "('a \<Rightarrow> 'b result) \<Rightarrow> 'a list \<Rightarrow> 'b list result" where
  "map_result f [] = Ok []"
| "map_result f (x # xs) = bind_result (f x) (\<lambda>y. bind_result (map_result f xs) (\<lambda>ys. Ok (y # ys)))"

definition rewrite_port :: "decoders \<Rightarrow> cql \<Rightarrow> cql_identifier list \<Rightarrow> nat \<Rightarrow> message \<Rightarrow> message result" where
  "rewrite_port D C names port m = (case frame D m of
     (Some (FCassandra f), m') \<Rightarrow> (case coperation f of
         Result (Rows rows md) \<Rightarrow>
          (let cols = indexes_of (\<lambda>col. \<exists>n \<in> set names. ident_eq C n (parse_identifier C col)) (col_specs md) in
           bind_result (map_result (set_columns cols (GInteger (int port) I32)) rows) (\<lambda>rows'.
             Ok (if cols = [] \<or> rows = [] then m'
                 else invalidate_cache (set_frame (FCassandra (f\<lparr>coperation := Result (Rows rows' md)\<rparr>)) m'))))
       | _ \<Rightarrow> Ok m')
   | (_, m') \<Rightarrow> Ok m')"

definition rewrite_status_event :: "decoders \<Rightarrow> nat \<Rightarrow> message \<Rightarrow> message" where
  "rewrite_status_event D port m = (case frame D m of
     (Some (FCassandra f), m') \<Rightarrow> (case coperation f of
         Event (StatusChange ty addr) \<Rightarrow>
           invalidate_cache (set_frame (FCassandra (f\<lparr>coperation := Event (StatusChange ty (addr\<lparr>sa_port := port\<rparr>))\<rparr>)) m')
       | _ \<Rightarrow> m')
   | (_, m') \<Rightarrow> m')"

fun note_columns :: "decoders \<Rightarrow> cql \<Rightarrow> messages \<Rightarrow> peers_rewrite \<Rightarrow> messages \<times> peers_rewrite" where
  "note_columns D C [] t = ([], t)"
| "note_columns D C (m # ms) t =
    (let (cols, m') = extract_native_port_column D C m;
         (ms', t') = note_columns D C ms
           (t\<lparr>column_names_to_rewrite := AList.update (id m') cols (column_names_to_rewrite t)\<rparr>)
     in (m' # ms', t'))"

fun rewrite_ports :: "decoders \<Rightarrow> cql \<Rightarrow> messages \<Rightarrow> peers_rewrite \<Rightarrow> (messages \<times> peers_rewrite) result" where
  "rewrite_ports D C [] t = Ok ([], t)"
| "rewrite_ports D C (r # rs) t =
    (let r1 = rewrite_status_event D (pr_port t) r in
     bind_result
       (case request_id r1 of
          None \<Rightarrow> Ok (r1, t)
        | Some i \<Rightarrow> (case map_of (column_names_to_rewrite t) i of
            None \<Rightarrow> Inl (Panic ''called Option::unwrap() on a None value'')
          | Some names \<Rightarrow>
              bind_result (rewrite_port D C names (pr_port t) r1) (\<lambda>r2.
                Ok (r2, t\<lparr>column_names_to_rewrite := AList.delete i (column_names_to_rewrite t)\<rparr>))))
       (\<lambda>(r2, t1). bind_result (rewrite_ports D C rs t1) (\<lambda>(rs', t'). Ok (r2 # rs', t'))))"

definition peers_rewrite_transform ::
  "decoders \<Rightarrow> cql \<Rightarrow> 'c rest \<Rightarrow> peers_rewrite \<Rightarrow> chain_state \<Rightarrow> (peers_rewrite, 'c) outcome" where
  "peers_rewrite_transform D C next t cs =
    (let (reqs, t1) = note_columns D C (requests cs) t in
     case next (cs\<lparr>requests := reqs\<rparr>) of
       (Inl e, cs', c') \<Rightarrow> (Inl e, cs', t1, c')
     | (Inr rs, cs', c') \<Rightarrow> (case rewrite_ports D C rs t1 of
           Inl e \<Rightarrow> (Inl e, cs', t1, c')
         | Inr (rs', t2) \<Rightarrow> (Ok rs', cs', t2, c')))"

subsection \<open>What the rewriter keeps\<close>

record cassandra_shotover_node =
  csn_address :: socket_addr
  csn_data_center :: string
  csn_rack :: string
  csn_host_id :: uuid

datatype message_or_id = CollectedMessage message | CollectedId message_id

datatype rewrite_table_ty = RLocal | RPeers | RPrepare nat

record table_to_rewrite =
  collected_messages :: "message_or_id list"
  table_ty :: rewrite_table_ty
  selects :: "select_element list"
  table_warnings :: "string list"

record message_rewriter =
  shotover_peers :: "cassandra_shotover_node list"
  local_shotover_node :: cassandra_shotover_node
  to_rewrite :: "table_to_rewrite list"
  prepare_destinations :: "(message_id \<times> uuid) list"

datatype batch_mode = Isolated | Pipelined

record node_info =
  ni_tokens :: "generic_value list"
  ni_schema_version :: uuid
  ni_release_version :: string
  ni_rack :: string
  ni_data_center :: string

subsection \<open>Requests\<close>

definition has_no_where_clause :: "cql \<Rightarrow> rewrite_table_ty \<Rightarrow> select_statement \<Rightarrow> bool" where
  "has_no_where_clause C ty s \<longleftrightarrow> sel_where s = [] \<or> ty = RLocal \<and> is_key_local C (sel_where s)"

definition system_table_ty :: "cql \<Rightarrow> fq_name \<Rightarrow> rewrite_table_ty option" where
  "system_table_ty C t =
    (if fq_eq C (system_table ''local'') t then Some RLocal
     else if fq_eq C (system_table ''peers'') t \<or> fq_eq C (system_table ''peers_v2'') t then Some RPeers
     else None)"

text \<open>The \<^verbatim>\<open>WHERE\<close> clause is cleared in the parsed frame; nothing tells the message that it was changed.\<close>

definition get_rewrite_table ::
  "decoders \<Rightarrow> cql \<Rightarrow> nat \<Rightarrow> message \<Rightarrow> table_to_rewrite option \<times> message" where
  "get_rewrite_table D C i m = (case frame D m of
     (Some (FCassandra f), m') \<Rightarrow> (case coperation f of
         Query (Select s) params \<Rightarrow> (case system_table_ty C (sel_table s) of
             None \<Rightarrow> (None, m')
           | Some ty \<Rightarrow>
               (Some \<lparr>collected_messages = [CollectedId (id m)], table_ty = ty, selects = sel_columns s,
                  table_warnings = (if has_no_where_clause C ty s then []
                    else [''WHERE clause on the query was ignored. Shotover does not support WHERE clauses on queries against ''
                          @ show_fq C (sel_table s)])\<rparr>,
                if has_no_where_clause C ty s then m'
                else set_frame (FCassandra (f\<lparr>coperation := Query (Select (s\<lparr>sel_where := []\<rparr>)) params\<rparr>)) m'))
       | Prepare _ \<Rightarrow>
           (Some \<lparr>collected_messages = [CollectedId (id m)], table_ty = RPrepare i, selects = [], table_warnings = []\<rparr>, m')
       | _ \<Rightarrow> (None, m'))
   | (_, m') \<Rightarrow> (None, m'))"

fun get_rewrite_tables ::
  "decoders \<Rightarrow> cql \<Rightarrow> nat \<Rightarrow> messages \<Rightarrow> table_to_rewrite list \<times> messages" where
  "get_rewrite_tables D C i [] = ([], [])"
| "get_rewrite_tables D C i (m # ms) =
    (let (t, m') = get_rewrite_table D C i m; (ts, ms') = get_rewrite_tables D C (Suc i) ms in
     (case t of Some t \<Rightarrow> t # ts | None \<Rightarrow> ts, m' # ms'))"

text \<open>The stream ids from 358 up to, but not including, \<^verbatim>\<open>i16::MAX\<close>.\<close>

definition get_unused_stream_id :: "messages \<Rightarrow> int result" where
  "get_unused_stream_id ms = (case find (\<lambda>i. Some (int i) \<notin> set (map stream_id ms)) [358..<32767] of
     Some i \<Rightarrow> Ok (int i)
   | None \<Rightarrow> Inl (Err ''Ran out of stream ids''))"

definition create_query :: "cql \<Rightarrow> messages \<Rightarrow> string \<Rightarrow> nat \<Rightarrow> message result" where
  "create_query C ms query v = bind_result (get_unused_stream_id ms) (\<lambda>sid.
     Ok (from_frame (new_id C ms) (FCassandra
       \<lparr>cversion = v, cstream_id = sid, ctracing = TRequest False, cwarnings = [],
        coperation = Query (parse_statement_single C query) 0\<rparr>)))"

definition peers_query :: string where
  "peers_query = ''SELECT rack, data_center, schema_version, tokens, release_version FROM system.peers''"

definition local_query :: string where
  "local_query = ''SELECT rack, data_center, schema_version, tokens, release_version FROM system.local''"

definition collect_id :: "message \<Rightarrow> table_to_rewrite \<Rightarrow> table_to_rewrite" where
  "collect_id m t = t\<lparr>collected_messages := collected_messages t @ [CollectedId (id m)]\<rparr>"

definition add_query ::
  "cql \<Rightarrow> nat \<Rightarrow> string \<Rightarrow> table_to_rewrite \<times> messages \<Rightarrow> (table_to_rewrite \<times> messages) result" where
  "add_query C v query = (\<lambda>(t, ms). bind_result (create_query C ms query v) (\<lambda>m. Ok (collect_id m t, ms @ [m])))"

text \<open>A \<^verbatim>\<open>PREPARE\<close> goes to the first node that is up, a copy of it to each of the others.\<close>

fun add_prepares ::
  "cql \<Rightarrow> nat \<Rightarrow> bool \<Rightarrow> cassandra_node list \<Rightarrow> (message_id \<times> uuid) list \<times> table_to_rewrite \<times> messages
     \<Rightarrow> (message_id \<times> uuid) list \<times> table_to_rewrite \<times> messages" where
  "add_prepares C i first [] s = s"
| "add_prepares C i first (n # ns) (dests, t, ms) =
    (if \<not> cn_is_up n then add_prepares C i first ns (dests, t, ms)
     else if first then add_prepares C i False ns (AList.update (id (ms ! i)) (cn_host_id n) dests, t, ms)
     else let m = clone_with_new_id (new_id C ms) (ms ! i) in
       add_prepares C i False ns (AList.update (id m) (cn_host_id n) dests, collect_id m t, ms @ [m]))"

text \<open>The connections that \<^verbatim>\<open>try_join_all\<close> opens concurrently are opened one after the other here.\<close>

fun open_connections ::
  "cassandra_env \<Rightarrow> connection_factory \<Rightarrow> uuid set \<Rightarrow> cassandra_node list \<Rightarrow> cassandra_node list async" where
  "open_connections E f hosts [] = Some (Ok [])"
| "open_connections E f hosts (n # ns) =
    bind_async (if cn_host_id n \<in> hosts then get_connection E f n else Some (Ok n)) (\<lambda>n'.
    bind_async (open_connections E f hosts ns) (\<lambda>ns'. Some (Ok (n' # ns'))))"

fun insert_extra ::
  "cassandra_env \<Rightarrow> cql \<Rightarrow> connection_factory \<Rightarrow> nat \<Rightarrow> table_to_rewrite list \<Rightarrow> batch_mode
     \<Rightarrow> messages \<Rightarrow> (message_id \<times> uuid) list \<Rightarrow> node_pool
     \<Rightarrow> (table_to_rewrite list \<times> batch_mode \<times> messages \<times> (message_id \<times> uuid) list \<times> node_pool) async" where
  "insert_extra E C f v [] mode ms dests p = Some (Ok ([], mode, ms, dests, p))"
| "insert_extra E C f v (t # ts) mode ms dests p =
    bind_async
      (case table_ty t of
         RLocal \<Rightarrow> Some (bind_result (add_query C v peers_query (t, ms)) (\<lambda>(t', ms'). Ok (t', ms', dests, p)))
       | RPeers \<Rightarrow> Some (bind_result (bind_result (add_query C v peers_query (t, ms)) (add_query C v local_query))
           (\<lambda>(t', ms'). Ok (t', ms', dests, p)))
       | RPrepare i \<Rightarrow>
          (case add_prepares C i True (pool_nodes p) (dests, t, ms) of (dests', t', ms') \<Rightarrow>
             bind_async (open_connections E f (snd ` set dests') (pool_nodes p)) (\<lambda>ns.
               Some (Ok (t', ms', dests', p\<lparr>pool_nodes := ns\<rparr>)))))
      (\<lambda>(t', ms', dests', p'). bind_async (insert_extra E C f v ts Isolated ms' dests' p')
        (\<lambda>(ts', rest). Some (Ok (t' # ts', rest))))"

definition rewrite_requests ::
  "cassandra_env \<Rightarrow> cql \<Rightarrow> connection_factory \<Rightarrow> nat \<Rightarrow> messages \<Rightarrow> node_pool \<Rightarrow> message_rewriter
     \<Rightarrow> (batch_mode \<times> messages \<times> node_pool \<times> message_rewriter) async" where
  "rewrite_requests E C f v ms p w =
    (let (ts, ms') = get_rewrite_tables (cx_decoders E) C 0 ms in
     bind_async (insert_extra E C f v ts Pipelined ms' (prepare_destinations w) p) (\<lambda>(ts', mode, ms2, dests, p').
       Some (Ok (mode, ms2, p', w\<lparr>to_rewrite := to_rewrite w @ ts', prepare_destinations := dests\<rparr>))))"

definition get_destination_for_prepare :: "message \<Rightarrow> message_rewriter \<Rightarrow> (uuid \<times> message_rewriter) result" where
  "get_destination_for_prepare m w = (case map_of (prepare_destinations w) (id m) of
     Some h \<Rightarrow> Ok (h, w\<lparr>prepare_destinations := AList.delete (id m) (prepare_destinations w)\<rparr>)
   | None \<Rightarrow> Inl (Panic ''internal error: entered unreachable code''))"

subsection \<open>System tables\<close>

datatype message_parse_error = ParseFailure string | CassandraError string

text \<open>A row holds rack, data center, schema version, tokens and release version; they are popped from its end.\<close>

definition parse_node_row :: "cql \<Rightarrow> generic_value list \<Rightarrow> message_parse_error + node_info" where
  "parse_node_row C row = (case row of
     [rack, data_center, schema_version, tokens, release_version] \<Rightarrow>
      (case release_version of
         GVarchar version \<Rightarrow> (case tokens of
           GList ts \<Rightarrow> (case schema_version of
             GUuid schema \<Rightarrow> (case data_center of
               GVarchar dc \<Rightarrow> (case rack of
                 GVarchar rk \<Rightarrow> Inr \<lparr>ni_tokens = ts, ni_schema_version = schema, ni_release_version = version,
                     ni_rack = rk, ni_data_center = dc\<rparr>
               | other \<Rightarrow> Inl (ParseFailure (''Expected rack to be a Varchar but was '' @ debug_value C (Some other))))
             | other \<Rightarrow> Inl (ParseFailure (''Expected data_center to be a Varchar but was '' @ debug_value C (Some other))))
           | other \<Rightarrow> Inl (ParseFailure (''Expected schema_version to be a Uuid but was '' @ debug_value C (Some other))))
         | other \<Rightarrow> Inl (ParseFailure (''Expected tokens to be a list but was '' @ debug_value C (Some other))))
       | other \<Rightarrow> Inl (ParseFailure (''Expected release_version to be a Varchar but was '' @ debug_value C (Some other))))
   | _ \<Rightarrow> Inl (ParseFailure (''expected 5 columns but was '' @ show_nat (length row))))"

fun parse_node_rows :: "cql \<Rightarrow> generic_value list list \<Rightarrow> message_parse_error + node_info list" where
  "parse_node_rows C [] = Inr []"
| "parse_node_rows C (row # rows) = (case parse_node_row C row of
     Inl e \<Rightarrow> Inl e
   | Inr n \<Rightarrow> (case parse_node_rows C rows of Inl e \<Rightarrow> Inl e | Inr ns \<Rightarrow> Inr (n # ns)))"

definition parse_system_nodes :: "decoders \<Rightarrow> cql \<Rightarrow> message \<Rightarrow> message_parse_error + node_info list" where
  "parse_system_nodes D C m = (case fst (frame D m) of
     Some (FCassandra f) \<Rightarrow> (case coperation f of
         Result (Rows rows _) \<Rightarrow> parse_node_rows C rows
       | Error text ty \<Rightarrow> Inl (CassandraError (''system.local returned error: '' @ debug_error C text ty))
       | op \<Rightarrow> Inl (ParseFailure (''system.local returned unexpected cassandra operation: '' @ quoted (operation_name op))))
   | _ \<Rightarrow> Inl (ParseFailure ''Failed to parse system.local response''))"

text \<open>
  The names of the columns as the client asked for them: the last alias of a column, else its own
  name.  Of several names that \<^verbatim>\<open>cql3_parser\<close> takes to be equal, the first counts.
\<close>

definition alias_step :: "cql \<Rightarrow> string list \<Rightarrow> select_element \<Rightarrow> (string \<Rightarrow> string) \<Rightarrow> string \<Rightarrow> string" where
  "alias_step C names e aliases = (case e of
     Column name (Some alias) \<Rightarrow>
      (case find (\<lambda>n. ident_eq C (Quoted n) name) names of
         Some n \<Rightarrow> aliases(n := (case alias of Quoted a \<Rightarrow> a | Unquoted a \<Rightarrow> a))
       | None \<Rightarrow> aliases)
   | _ \<Rightarrow> aliases)"

definition aliases_of :: "cql \<Rightarrow> string list \<Rightarrow> select_element list \<Rightarrow> string \<Rightarrow> string" where
  "aliases_of C names es = fold (alias_step C names) es (\<lambda>n. n)"

definition peers_columns :: "string list" where
  "peers_columns = [''data_center'', ''rack'', ''host_id'', ''native_address'', ''native_port'', ''preferred_ip'',
     ''preferred_port'', ''rpc_address'', ''peer'', ''peer_port'', ''release_version'', ''tokens'', ''schema_version'']"

definition local_columns :: "string list" where
  "local_columns = [''release_version'', ''tokens'', ''schema_version'', ''broadcast_address'', ''listen_address'',
     ''host_id'', ''rpc_address'', ''rpc_port'']"

text \<open>What a shotover node reports for the nodes of its rack: the lowest version, a schema version and all tokens.\<close>

fun merge_nodes ::
  "cql \<Rightarrow> nat \<Rightarrow> nat \<Rightarrow> node_info list \<Rightarrow> string \<Rightarrow> uuid option \<Rightarrow> generic_value list
     \<Rightarrow> string \<times> uuid option \<times> generic_value list" where
  "merge_nodes C j k [] version schema tokens = (version, schema, sort tokens)"
| "merge_nodes C j k (n # ns) version schema tokens =
    (let version1 = (if version = [] then ni_release_version n else version);
         version2 = (if version_lt C (ni_release_version n) version1 then ni_release_version n else version1);
         schema' = (case schema of
             Some s \<Rightarrow> if ni_schema_version n \<noteq> s then Some (new_v4 C j k) else Some s
           | None \<Rightarrow> Some (ni_schema_version n))
     in merge_nodes C j (Suc k) ns version2 schema' (tokens @ ni_tokens n))"

definition peer_cell ::
  "cql \<Rightarrow> (string \<Rightarrow> string) \<Rightarrow> cassandra_shotover_node \<Rightarrow> string \<times> uuid option \<times> generic_value list \<Rightarrow> uuid \<Rightarrow> string
     \<Rightarrow> generic_value" where
  "peer_cell C al peer merged random col = (case merged of (version, schema, tokens) \<Rightarrow>
     if col = al ''data_center'' then GVarchar (csn_data_center peer)
     else if col = al ''rack'' then GVarchar (csn_rack peer)
     else if col = al ''host_id'' then GUuid (csn_host_id peer)
     else if col = al ''preferred_ip'' \<or> col = al ''preferred_port'' then GNull
     else if col = al ''native_address'' then GInet (sa_ip (csn_address peer))
     else if col = al ''native_port'' then GInteger (int (sa_port (csn_address peer))) I32
     else if col = al ''peer'' \<or> col = al ''rpc_address'' then GInet (sa_ip (csn_address peer))
     else if col = al ''peer_port'' then GInteger 7000 I32
     else if col = al ''release_version'' then GVarchar version
     else if col = al ''tokens'' then GList tokens
     else if col = al ''schema_version'' then GUuid (case schema of Some s \<Rightarrow> s | None \<Rightarrow> random)
     else GNull)"

definition peer_row ::
  "cql \<Rightarrow> (string \<Rightarrow> string) \<Rightarrow> node_info list \<Rightarrow> string list \<Rightarrow> nat \<Rightarrow> cassandra_shotover_node \<Rightarrow> generic_value list" where
  "peer_row C al nodes cols j peer =
    (let own = filter (\<lambda>n. ni_data_center n = csn_data_center peer \<and> ni_rack n = csn_rack peer) nodes;
         merged = merge_nodes C j 0 own [] None []
     in map (\<lambda>(k, col). peer_cell C al peer merged (new_v4 C j (length nodes + k)) col) (List.enumerate 0 cols))"

definition rewrite_table_peers ::
  "decoders \<Rightarrow> cql \<Rightarrow> message_rewriter \<Rightarrow> table_to_rewrite \<Rightarrow> message \<Rightarrow> node_info list \<Rightarrow> string list \<Rightarrow> message result" where
  "rewrite_table_peers D C w t m nodes warnings = (case frame D m of
     (Some (FCassandra f), m') \<Rightarrow>
      (let al = aliases_of C peers_columns (selects t); f1 = f\<lparr>cwarnings := warnings\<rparr> in
       Ok (set_frame (FCassandra (case coperation f of
             Result (Rows rows md) \<Rightarrow>
               f1\<lparr>coperation := Result (Rows
                  (map (\<lambda>(j, peer). peer_row C al nodes (col_specs md) j peer) (List.enumerate 0 (shotover_peers w))) md)\<rparr>
           | _ \<Rightarrow> f1)) m'))
   | _ \<Rightarrow> Inl (Err ''Failed to parse system.local response''))"

text \<open>A cell of \<^verbatim>\<open>system.local\<close>; a cell of another type than expected stays as it is.\<close>

definition local_cell ::
  "cql \<Rightarrow> (string \<Rightarrow> string) \<Rightarrow> cassandra_shotover_node \<Rightarrow> node_info list \<Rightarrow> uuid \<Rightarrow> string \<Rightarrow> generic_value \<Rightarrow> generic_value" where
  "local_cell C al me peers random col v =
    (if col = al ''release_version''
     then (case v of
         GVarchar version \<Rightarrow>
           GVarchar (fold (\<lambda>n r. if version_lt C (ni_release_version n) r then ni_release_version n else r) peers version)
       | _ \<Rightarrow> v)
     else if col = al ''tokens''
     then (case v of GList ts \<Rightarrow> GList (sort (ts @ concat (map ni_tokens peers))) | _ \<Rightarrow> v)
     else if col = al ''schema_version''
     then (case v of GUuid s \<Rightarrow> if \<exists>n \<in> set peers. ni_schema_version n \<noteq> s then GUuid random else v | _ \<Rightarrow> v)
     else if col = al ''broadcast_address'' \<or> col = al ''listen_address''
     then (case v of GInet _ \<Rightarrow> GInet (sa_ip (csn_address me)) | _ \<Rightarrow> v)
     else if col = al ''host_id''
     then (case v of GUuid _ \<Rightarrow> GUuid (csn_host_id me) | _ \<Rightarrow> v)
     else if col = al ''rpc_address''
     then (case v of GInet a \<Rightarrow> if a \<noteq> V4 0 then GInet (sa_ip (csn_address me)) else v | _ \<Rightarrow> v)
     else if col = al ''rpc_port''
     then (case v of GInteger _ sz \<Rightarrow> GInteger (int (sa_port (csn_address me))) sz | _ \<Rightarrow> v)
     else v)"

text \<open>The cells beyond the column specifications, which \<^verbatim>\<open>zip\<close> does not reach, stay.\<close>

definition local_row ::
  "cql \<Rightarrow> (string \<Rightarrow> string) \<Rightarrow> cassandra_shotover_node \<Rightarrow> node_info list \<Rightarrow> string list \<Rightarrow> nat \<Rightarrow> generic_value list \<Rightarrow> generic_value list" where
  "local_row C al me peers cols j row =
    map (\<lambda>(k, v, col). local_cell C al me peers (new_v4 C j k) col v) (List.enumerate 0 (zip row cols))
      @ drop (length cols) row"

text \<open>An \<^verbatim>\<open>anyhow\<close> error with a context, as \<^verbatim>\<open>{:?}\<close> shows it.\<close>

definition debug_context :: "string \<Rightarrow> string \<Rightarrow> string" where
  "debug_context ctx cause = ctx @ [CHR 0x0A, CHR 0x0A] @ ''Caused by:'' @ [CHR 0x0A] @ ''    '' @ cause"

text \<open>\<^verbatim>\<open>from_response_to_error_response(..).expect(..)\<close>.\<close>

definition error_instead :: "cassandra_env \<Rightarrow> message \<Rightarrow> string \<Rightarrow> message result" where
  "error_instead E m text =
    (case from_response_to_error_response (cx_decoders E) (cx_response_id E 0) m text Internal of
       Inr r \<Rightarrow> Ok r
     | Inl (Panic p) \<Rightarrow> Inl (Panic p)
     | Inl (Err _) \<Rightarrow> Inl (Panic ''This must succeed because it is a cassandra message and we already know it to be parseable''))"

definition rewrite_table_local ::
  "cassandra_env \<Rightarrow> cql \<Rightarrow> message_rewriter \<Rightarrow> table_to_rewrite \<Rightarrow> message \<Rightarrow> message \<Rightarrow> string list \<Rightarrow> message result" where
  "rewrite_table_local E C w t m peers_response warnings =
    (case parse_system_nodes (cx_decoders E) C peers_response of
       Inl (CassandraError err) \<Rightarrow> error_instead E m (debug_context
         ''Shotover failed to generate system.local, an error occurred when an internal system.peers query was run.'' err)
     | Inl (ParseFailure err) \<Rightarrow> Inl (Err err)
     | Inr nodes \<Rightarrow>
        (let me = local_shotover_node w;
             peers = filter (\<lambda>n. ni_data_center n = csn_data_center me \<and> ni_rack n = csn_rack me) nodes;
             al = aliases_of C local_columns (selects t) in
         case frame (cx_decoders E) m of
           (Some (FCassandra f), m') \<Rightarrow> (case coperation f of
               Result (Rows rows md) \<Rightarrow>
                 Ok (set_frame (FCassandra (f\<lparr>cwarnings := warnings, coperation := Result (Rows
                   (map (\<lambda>(j, row). local_row C al me peers (col_specs md) j row) (List.enumerate 0 rows)) md)\<rparr>)) m')
             | _ \<Rightarrow> Ok m')
         | _ \<Rightarrow> Inl (Err ''Failed to parse system.local response'')))"

subsection \<open>Responses\<close>

definition get_warnings :: "decoders \<Rightarrow> message \<Rightarrow> string list" where
  "get_warnings D m = (case fst (frame D m) of Some (FCassandra f) \<Rightarrow> cwarnings f | _ \<Rightarrow> [])"

definition swap_remove :: "nat \<Rightarrow> 'a list \<Rightarrow> 'a list" where
  "swap_remove i xs = (if i = length xs - 1 then butlast xs else (butlast xs)[i := last xs])"

text \<open>Responses to the collected ids are moved out of the vector of responses.\<close>

fun collect_responses :: "message_or_id list \<Rightarrow> messages \<Rightarrow> message_or_id list \<times> messages" where
  "collect_responses [] rs = ([], rs)"
| "collect_responses (CollectedMessage m # cs) rs =
    (let (cs', rs') = collect_responses cs rs in (CollectedMessage m # cs', rs'))"
| "collect_responses (CollectedId i # cs) rs =
    (case find (\<lambda>k. request_id (rs ! k) = Some i) [0..<length rs] of
       Some k \<Rightarrow> (let (cs', rs') = collect_responses cs (swap_remove k rs) in (CollectedMessage (rs ! k) # cs', rs'))
     | None \<Rightarrow> (let (cs', rs') = collect_responses cs rs in (CollectedId i # cs', rs')))"

fun all_collected :: "message_or_id list \<Rightarrow> messages option" where
  "all_collected [] = Some []"
| "all_collected (CollectedMessage m # cs) = map_option (\<lambda>ms. m # ms) (all_collected cs)"
| "all_collected (CollectedId _ # cs) = None"

text \<open>The frames of the answers to a \<^verbatim>\<open>PREPARE\<close>: the prepared results and the warnings about other answers.\<close>

fun prepared_results :: "decoders \<Rightarrow> messages \<Rightarrow> (prepared_body list \<times> string list) result" where
  "prepared_results D [] = Ok ([], [])"
| "prepared_results D (m # ms) = (case fst (frame D m) of
     Some (FCassandra f) \<Rightarrow> (case coperation f of
         Result (Prepared p) \<Rightarrow> bind_result (prepared_results D ms) (\<lambda>(ps, ws). Ok (p # ps, ws))
       | Error _ _ \<Rightarrow> prepared_results D ms
       | op \<Rightarrow> bind_result (prepared_results D ms) (\<lambda>(ps, ws).
           Ok (ps, (''Shotover: Response to Prepare query was not a Prepared, was instead: '' @ operation_name op) # ws)))
   | Some _ \<Rightarrow> Inl (Panic ''Response to prepare was not cassandra message'')
   | None \<Rightarrow> bind_result (prepared_results D ms) (\<lambda>(ps, ws).
       Ok (ps, ''Shotover: Response to Prepare query was not parseable'' # ws)))"

definition is_prepared_result :: "decoders \<Rightarrow> message \<Rightarrow> bool" where
  "is_prepared_result D m = (case fst (frame D m) of
     Some (FCassandra f) \<Rightarrow> (case coperation f of Result (Prepared _) \<Rightarrow> True | _ \<Rightarrow> False)
   | _ \<Rightarrow> False)"

fun all_equal :: "'a list \<Rightarrow> bool" where
  "all_equal (x # y # xs) = (x = y \<and> all_equal (y # xs))"
| "all_equal _ = True"

definition rewrite_prepare :: "decoders \<Rightarrow> cql \<Rightarrow> messages \<Rightarrow> message result" where
  "rewrite_prepare D C ms = bind_result (prepared_results D ms) (\<lambda>(ps, ws).
    (let warnings = concat (map (get_warnings D) ms) @ ws
           @ (if all_equal ps then []
              else [''Shotover: Nodes did not return the same response to PREPARE statement ''
                    @ concat (map (\<lambda>p. CHR 0x0A # debug_prepared C p) ps)]);
         ms' = (case find (\<lambda>i. is_prepared_result D (ms ! i)) [0..<length ms] of
             Some i \<Rightarrow> swap 0 i ms
           | None \<Rightarrow> ms)
     in case ms' of
          [] \<Rightarrow> Inl (Panic ''index out of bounds'')
        | m # _ \<Rightarrow> (case frame D m of
            (Some (FCassandra f), m') \<Rightarrow> Ok (set_frame (FCassandra (f\<lparr>cwarnings := warnings\<rparr>)) m')
          | (_, m') \<Rightarrow> Ok m')))"

definition rewrite_peers ::
  "cassandra_env \<Rightarrow> cql \<Rightarrow> message_rewriter \<Rightarrow> table_to_rewrite \<Rightarrow> message \<Rightarrow> message \<Rightarrow> message \<Rightarrow> message result" where
  "rewrite_peers E C w t client_peers local_response peers_response =
    (let D = cx_decoders E;
         warnings = table_warnings t @ get_warnings D peers_response @ get_warnings D local_response @ get_warnings D client_peers in
     case parse_system_nodes D C peers_response of
       Inl (CassandraError err) \<Rightarrow> error_instead E client_peers (debug_context
         ''Shotover failed to generate system.peers, an error occurred when an internal system.peers query was run.'' err)
     | Inl (ParseFailure err) \<Rightarrow> Inl (Err err)
     | Inr nodes \<Rightarrow> (case parse_system_nodes D C local_response of
         Inl (CassandraError err) \<Rightarrow> error_instead E client_peers (debug_context
           ''Shotover failed to generate system.peers, an error occurred when an internal system.local query was run.'' err)
       | Inl (ParseFailure err) \<Rightarrow> Inl (Err err)
       | Inr others \<Rightarrow> bind_result (rewrite_table_peers D C w t client_peers (nodes @ others) warnings)
           (\<lambda>m. Ok (invalidate_cache m))))"

text \<open>
  The response made of the collected ones, which are popped from the end.  For \<^verbatim>\<open>system.peers\<close> the
  query for \<^verbatim>\<open>system.local\<close> was added last, so that what is called \<^verbatim>\<open>peers_response\<close> is its answer.
\<close>

definition rewrite_collected ::
  "cassandra_env \<Rightarrow> cql \<Rightarrow> message_rewriter \<Rightarrow> table_to_rewrite \<Rightarrow> messages \<Rightarrow> message result" where
  "rewrite_collected E C w t ms = (case table_ty t of
     RLocal \<Rightarrow> (case rev ms of
         peers_response # local_response # _ \<Rightarrow>
           bind_result (rewrite_table_local E C w t local_response peers_response
             (table_warnings t @ get_warnings (cx_decoders E) peers_response @ get_warnings (cx_decoders E) local_response))
             (\<lambda>m. Ok (invalidate_cache m))
       | _ \<Rightarrow> Inl (Panic ''called Option::unwrap() on a None value''))
   | RPeers \<Rightarrow> (case rev ms of
         peers_response # local_response # client_peers # _ \<Rightarrow> rewrite_peers E C w t client_peers local_response peers_response
       | _ \<Rightarrow> Inl (Panic ''called Option::unwrap() on a None value''))
   | RPrepare _ \<Rightarrow> rewrite_prepare (cx_decoders E) C ms)"

definition rewrite_response ::
  "cassandra_env \<Rightarrow> cql \<Rightarrow> message_rewriter \<Rightarrow> table_to_rewrite \<Rightarrow> messages
     \<Rightarrow> (table_to_rewrite option \<times> messages) result" where
  "rewrite_response E C w t rs =
    (let (cs, rs1) = collect_responses (collected_messages t) rs in
     case all_collected cs of
       None \<Rightarrow> Ok (Some (t\<lparr>collected_messages := cs\<rparr>), rs1)
     | Some ms \<Rightarrow> bind_result (rewrite_collected E C w t ms) (\<lambda>m. Ok (None, rs1 @ [m])))"

fun rewrite_tables ::
  "cassandra_env \<Rightarrow> cql \<Rightarrow> message_rewriter \<Rightarrow> table_to_rewrite list \<Rightarrow> messages
     \<Rightarrow> (table_to_rewrite list \<times> messages) result" where
  "rewrite_tables E C w [] rs = Ok ([], rs)"
| "rewrite_tables E C w (t # ts) rs =
    bind_result (rewrite_response E C w t rs) (\<lambda>(kept, rs1).
    bind_result (rewrite_tables E C w ts rs1) (\<lambda>(ts', rs2).
      Ok (case kept of Some t' \<Rightarrow> t' # ts' | None \<Rightarrow> ts', rs2)))"

definition rewrite_responses ::
  "cassandra_env \<Rightarrow> cql \<Rightarrow> messages \<Rightarrow> message_rewriter \<Rightarrow> (messages \<times> message_rewriter) result" where
  "rewrite_responses E C rs w =
    bind_result (rewrite_tables E C w (to_rewrite w) rs) (\<lambda>(ts, rs'). Ok (rs', w\<lparr>to_rewrite := ts\<rparr>))"

end
