(* ===== verification/Cassandra_Topology.thy ===== *)
theory Cassandra_Topology
  imports Cassandra_Rewrite
begin

text \<open>
  The task that watches the topology of a Cassandra cluster
  (\<^verbatim>\<open>src/shotover/src/transforms/cassandra/sink_cluster/topology.rs\<close>): it reads the nodes and
  keyspaces from the system tables, registers for events and publishes what they change.

  The parsing of a token and what the environment decides are parameters.  What the task
  sends on the two watch channels is recorded in the order it is sent; \<open>tk_open\<close> says that a
  receiver is left.
\<close>

record topology_env =
  te_env :: cassandra_env
  te_cql :: cql
  te_parse_token :: "string \<Rightarrow> int result"

record topology_task =
  tk_connection :: sink_connection
  tk_nodes :: "cassandra_node list"
  tk_sent_nodes :: "cassandra_node list list"
  tk_sent_keyspaces :: "(string \<times> keyspace_metadata) list list"
  tk_open :: bool

subsection \<open>Rows\<close>

definition pop :: "'a list \<Rightarrow> 'a option \<times> 'a list" where
  "pop xs = (if xs = [] then (None, []) else (Some (last xs), butlast xs))"

definition parse_tokens :: "topology_env \<Rightarrow> string \<Rightarrow> generic_value list \<Rightarrow> int list result" where
  "parse_tokens T wrong vs =
    map_result (\<lambda>v. case v of GVarchar s \<Rightarrow> te_parse_token T s | _ \<Rightarrow> Inl (Err wrong)) vs"

definition in_data_center :: "string \<Rightarrow> generic_value list \<Rightarrow> bool" where
  "in_data_center dc row = (case fst (pop row) of Some (GVarchar d) \<Rightarrow> d = dc | _ \<Rightarrow> False)"

definition local_node :: "topology_env \<Rightarrow> socket_addr \<Rightarrow> generic_value list \<Rightarrow> cassandra_node result" where
  "local_node T address row =
    (let row1 = snd (pop row); (host, row2) = pop row1; (ts, row3) = pop row2; (rk, _) = pop row3 in
     case host of
       Some (GUuid host_id) \<Rightarrow> (case ts of
         Some (GList list) \<Rightarrow> bind_result (parse_tokens T ''system.local.tokens value not a varchar'' list) (\<lambda>tokens.
           case rk of
             Some (GVarchar rack) \<Rightarrow> Ok (node_new address rack tokens host_id)
           | _ \<Rightarrow> Inl (Err ''system.local.rack not a varchar''))
       | _ \<Rightarrow> Inl (Err ''system.local.tokens not a list''))
     | _ \<Rightarrow> Inl (Err ''system.local.host_id not a uuid''))"

definition local_into_nodes ::
  "topology_env \<Rightarrow> string \<Rightarrow> socket_addr \<Rightarrow> message \<Rightarrow> cassandra_node list result" where
  "local_into_nodes T dc address m = (case fst (frame (cx_decoders (te_env T)) m) of
     Some (FCassandra f) \<Rightarrow> (case coperation f of
         Result (Rows rows _) \<Rightarrow> map_result (local_node T address) (filter (in_data_center dc) rows)
       | op \<Rightarrow> Inl (Err (''system.peers returned unexpected cassandra operation: '' @ operation_name op)))
   | _ \<Rightarrow> Inl (Err ''Failed to parse system.local response''))"

text \<open>A port is an \<^verbatim>\<open>i64\<close> that must fit a \<^verbatim>\<open>u16\<close>; \<^verbatim>\<open>system.peers\<close> has no port.\<close>

definition peer_node :: "topology_env \<Rightarrow> generic_value list \<Rightarrow> cassandra_node result" where
  "peer_node T row =
    (if length row \<noteq> 5 \<and> length row \<noteq> 6 then Inl (Err (''expected 5 or 6 columns but was '' @ show_nat (length row)))
     else let row1 = snd (pop row); (host, row2) = pop row1; (ts, row3) = pop row2; (rk, row4) = pop row3;
              (addr, row5) = pop row4; (prt, _) = pop row5 in
     case host of
       Some (GUuid host_id) \<Rightarrow> (case ts of
         Some (GList list) \<Rightarrow> bind_result (parse_tokens T ''system.peers(v2).tokens value not a varchar'' list) (\<lambda>tokens.
           case rk of
             Some (GVarchar rack) \<Rightarrow> (case addr of
               Some (GInet ip) \<Rightarrow>
                 bind_result (case prt of
                     None \<Rightarrow> Ok 9042
                   | Some (GInteger value _) \<Rightarrow>
                       (if 0 \<le> value \<and> value < 65536 then Ok (nat value)
                        else Inl (Err ''out of range integral type conversion attempted''))
                   | Some _ \<Rightarrow> Inl (Err ''system.peers(v2).port is not an integer''))
                   (\<lambda>port. Ok (node_new \<lparr>sa_ip = ip, sa_port = port\<rparr> rack tokens host_id))
             | _ \<Rightarrow> Inl (Err ''system.peers(v2).native_address not an inet''))
           | _ \<Rightarrow> Inl (Err ''system.peers(v2).rack not a varchar''))
       | _ \<Rightarrow> Inl (Err ''system.peers(v2).tokens not a list''))
     | _ \<Rightarrow> Inl (Err ''system.peers(v2).host_id not a uuid''))"

definition peers_into_nodes :: "topology_env \<Rightarrow> string \<Rightarrow> message \<Rightarrow> cassandra_node list result" where
  "peers_into_nodes T dc m = (case fst (frame (cx_decoders (te_env T)) m) of
     Some (FCassandra f) \<Rightarrow> (case coperation f of
         Result (Rows rows _) \<Rightarrow> map_result (peer_node T) (filter (in_data_center dc) rows)
       | Error text ty \<Rightarrow>
           Inl (Err (''system.peers or system.peers_v2 returned cassandra error: '' @ debug_error (te_cql T) text ty))
       | op \<Rightarrow> Inl (Err (''system.peers or system.peers_v2 returned unexpected cassandra operation: '' @ operation_name op)))
   | _ \<Rightarrow> Inl (Err ''Failed to parse system.peers or system.peers_v2 response''))"

subsection \<open>Keyspaces\<close>

definition digit :: "char \<Rightarrow> nat option" where
  "digit c = (let n = of_char c in if 48 \<le> n \<and> n \<le> 57 then Some (n - 48) else None)"

fun digits :: "nat \<Rightarrow> string \<Rightarrow> nat option" where
  "digits acc [] = Some acc"
| "digits acc (c # cs) = (case digit c of
     None \<Rightarrow> None
   | Some d \<Rightarrow> (let n = 10 * acc + d in if n < 2 ^ 64 then digits n cs else None))"

text \<open>\<^verbatim>\<open>usize::from_str\<close>: decimal digits, maybe behind a plus sign.\<close>

definition usize_from_str :: "string \<Rightarrow> nat option" where
  "usize_from_str s =
    (let ds = (case s of CHR ''+'' # cs \<Rightarrow> cs | _ \<Rightarrow> s) in if ds = [] then None else digits 0 ds)"

definition replication_of :: "string \<Rightarrow> (generic_value \<times> generic_value) list \<Rightarrow> keyspace_metadata result" where
  "replication_of dc entries = (case map_of entries (GVarchar ''class'') of
     None \<Rightarrow> Inl (Err ''replication strategy map should have a class field'')
   | Some (GVarchar name) \<Rightarrow>
      (if name = ''org.apache.cassandra.locator.SimpleStrategy'' \<or> name = ''SimpleStrategy''
       then (case map_of entries (GVarchar ''replication_factor'') of
           None \<Rightarrow> Inl (Err ''SimpleStrategy in replication strategy map does not have a replication factor'')
         | Some (GVarchar rf) \<Rightarrow> (case usize_from_str rf of
             None \<Rightarrow> Inl (Err ''Could not parse replication factor as an integer'')
           | Some n \<Rightarrow> Ok \<lparr>replication_factor = n, strategy = SimpleStrategy\<rparr>)
         | Some _ \<Rightarrow> Inl (Err ''SimpleStrategy replication factor should be a varchar ''))
       else if name = ''org.apache.cassandra.locator.NetworkTopologyStrategy'' \<or> name = ''NetworkTopologyStrategy''
       then (case map_of (filter (\<lambda>e. fst e \<noteq> GVarchar ''class'') entries) (GVarchar dc) of
           None \<Rightarrow> Ok \<lparr>replication_factor = 0, strategy = NetworkTopologyStrategy\<rparr>
         | Some (GVarchar rf) \<Rightarrow> (case usize_from_str rf of
             None \<Rightarrow> Inl (Err ''Could not parse replication factor as an integer'')
           | Some n \<Rightarrow> Ok \<lparr>replication_factor = n, strategy = NetworkTopologyStrategy\<rparr>)
         | Some _ \<Rightarrow> Inl (Err ''NetworkTopologyStrategy replication factor should be a varchar''))
       else if name = ''org.apache.cassandra.locator.LocalStrategy'' \<or> name = ''LocalStrategy''
       then Ok \<lparr>replication_factor = 1, strategy = LocalStrategy\<rparr>
       else Ok \<lparr>replication_factor = 1, strategy = UnknownStrategy\<rparr>)
   | Some _ \<Rightarrow> Inl (Err ''class field should be a varchar''))"

definition build_keyspace :: "string \<Rightarrow> generic_value list \<Rightarrow> (string \<times> keyspace_metadata) result" where
  "build_keyspace dc row =
    (let (rep, row1) = pop row in
     case rep of
       Some (GMap entries) \<Rightarrow> bind_result (replication_of dc entries) (\<lambda>md.
         case fst (pop row1) of
           Some (GVarchar name) \<Rightarrow> Ok (name, md)
         | _ \<Rightarrow> Inl (Err ''system_schema_keyspaces.name should be a varchar''))
     | _ \<Rightarrow> Inl (Err ''replication strategy should be a map''))"

definition into_keyspaces :: "topology_env \<Rightarrow> string \<Rightarrow> message \<Rightarrow> (string \<times> keyspace_metadata) list result" where
  "into_keyspaces T dc m = (case fst (frame (cx_decoders (te_env T)) m) of
     Some (FCassandra f) \<Rightarrow> (case coperation f of
         Result (Rows rows _) \<Rightarrow> map_result (build_keyspace dc) rows
       | op \<Rightarrow> Inl (Err (''keyspace query returned unexpected cassandra operation: '' @ operation_name op)))
   | _ \<Rightarrow> Inl (Err ''Failed to parse keyspace query response''))"

subsection \<open>Queries\<close>

text \<open>The answer is the last response to a request; what else arrives is an event.\<close>

fun split_events :: "messages \<Rightarrow> message option \<Rightarrow> messages \<Rightarrow> message option \<times> messages" where
  "split_events [] result events = (result, events)"
| "split_events (r # rs) result events =
    (if request_id r \<noteq> None then split_events rs (Some r) events else split_events rs result (events @ [r]))"

partial_function (option) await_response ::
  "cassandra_env \<Rightarrow> messages \<Rightarrow> sink_connection \<Rightarrow> (message \<times> messages \<times> sink_connection) async" where
  [code]: "await_response E events c = (case cass_recv_into E [] c of
     None \<Rightarrow> None
   | Some (COk rs, c') \<Rightarrow> (case split_events rs None events of
         (Some r, events') \<Rightarrow> Some (Ok (r, events', c'))
       | (None, events') \<Rightarrow> await_response E events' c')
   | Some (CErr e, _) \<Rightarrow> Some (Inl (Err (show_connection_error e)))
   | Some (CPanic p, _) \<Rightarrow> Some (Inl (Panic p)))"

definition send_recv ::
  "cassandra_env \<Rightarrow> sink_connection \<Rightarrow> message \<Rightarrow> (message \<times> messages \<times> sink_connection) async" where
  "send_recv E c m = (case send_requests (cx_decoders E) [m] c of
     (Inl e, _) \<Rightarrow> Some (Inl e)
   | (Inr _, c') \<Rightarrow> await_response E [] c')"

definition task_request :: "topology_env \<Rightarrow> nat \<Rightarrow> int \<Rightarrow> cassandra_operation \<Rightarrow> message" where
  "task_request T v sid op = from_frame (cx_response_id (te_env T) sid) (FCassandra
     \<lparr>cversion = v, cstream_id = sid, ctracing = TRequest False, cwarnings = [], coperation = op\<rparr>)"

definition task_query :: "topology_env \<Rightarrow> nat \<Rightarrow> int \<Rightarrow> string \<Rightarrow> message" where
  "task_query T v sid query = task_request T v sid (Query (parse_statement_single (te_cql T) query) 0)"

definition query_keyspaces ::
  "topology_env \<Rightarrow> string \<Rightarrow> nat \<Rightarrow> sink_connection
     \<Rightarrow> ((string \<times> keyspace_metadata) list \<times> messages \<times> sink_connection) async" where
  "query_keyspaces T dc v c =
    bind_async (send_recv (te_env T) c (task_query T v 0 ''SELECT keyspace_name, replication FROM system_schema.keyspaces''))
      (\<lambda>(r, events, c'). Some (bind_result (into_keyspaces T dc r) (\<lambda>ks. Ok (ks, events, c'))))"

definition query_local ::
  "topology_env \<Rightarrow> string \<Rightarrow> socket_addr \<Rightarrow> nat \<Rightarrow> sink_connection \<Rightarrow> (cassandra_node list \<times> sink_connection) async" where
  "query_local T dc address v c =
    bind_async (send_recv (te_env T) c (task_query T v 1 ''SELECT rack, tokens, host_id, data_center FROM system.local''))
      (\<lambda>(r, _, c'). Some (bind_result (local_into_nodes T dc address r) (\<lambda>ns. Ok (ns, c'))))"

definition is_peers_v2_does_not_exist_error :: "decoders \<Rightarrow> message \<Rightarrow> bool" where
  "is_peers_v2_does_not_exist_error D m = (case fst (frame D m) of
     Some (FCassandra f) \<Rightarrow> (case coperation f of Error _ ty \<Rightarrow> ty = Invalid | _ \<Rightarrow> False)
   | _ \<Rightarrow> False)"

definition query_peers ::
  "topology_env \<Rightarrow> string \<Rightarrow> nat \<Rightarrow> sink_connection \<Rightarrow> (cassandra_node list \<times> sink_connection) async" where
  "query_peers T dc v c =
    bind_async (send_recv (te_env T) c (task_query T v 0
        ''SELECT native_port, native_address, rack, tokens, host_id, data_center FROM system.peers_v2''))
      (\<lambda>(r, _, c1).
        bind_async
          (if is_peers_v2_does_not_exist_error (cx_decoders (te_env T)) r
           then bind_async (send_recv (te_env T) c1 (task_query T v 0
                  ''SELECT peer, rack, tokens, host_id, data_center FROM system.peers''))
                (\<lambda>(r2, _, c2). Some (Ok (r2, c2)))
           else Some (Ok (r, c1)))
          (\<lambda>(r', c'). Some (bind_result (peers_into_nodes T dc r') (\<lambda>ns. Ok (ns, c')))))"

definition fetch_current_nodes ::
  "topology_env \<Rightarrow> string \<Rightarrow> socket_addr \<Rightarrow> nat \<Rightarrow> sink_connection \<Rightarrow> (cassandra_node list \<times> sink_connection) async" where
  "fetch_current_nodes T dc address v c =
    bind_async (query_local T dc address v c) (\<lambda>(ns, c1).
    bind_async (query_peers T dc v c1) (\<lambda>(ms, c2). Some (Ok (ns @ ms, c2))))"

definition register_for_events :: "topology_env \<Rightarrow> nat \<Rightarrow> sink_connection \<Rightarrow> sink_connection async" where
  "register_for_events T v c =
    bind_async (send_recv (te_env T) c (task_request T v 0 (Register 0))) (\<lambda>(r, _, c'). Some
      (case fst (frame (cx_decoders (te_env T)) r) of
         Some (FCassandra f) \<Rightarrow> (case coperation f of
             Ready _ \<Rightarrow> Ok c'
           | op \<Rightarrow> Inl (Err (''Expected Cassandra to respond to a Register with a Ready. Instead it responded with '' @ operation_name op)))
       | _ \<Rightarrow> Inl (Err ''Failed to parse cassandra message'')))"

subsection \<open>The task\<close>

text \<open>A step ends the task, the boolean is \<open>False\<close>, when nobody receives what it sends.\<close>

definition send_nodes :: "cassandra_node list \<Rightarrow> topology_task \<Rightarrow> bool \<times> topology_task" where
  "send_nodes ns k =
    (tk_open k, if tk_open k then k\<lparr>tk_nodes := ns, tk_sent_nodes := tk_sent_nodes k @ [map node_clone ns]\<rparr>
                else k\<lparr>tk_nodes := ns\<rparr>)"

definition send_keyspaces :: "(string \<times> keyspace_metadata) list \<Rightarrow> topology_task \<Rightarrow> bool \<times> topology_task" where
  "send_keyspaces ks k =
    (tk_open k, if tk_open k then k\<lparr>tk_sent_keyspaces := tk_sent_keyspaces k @ [ks]\<rparr> else k)"

definition carry_over_down :: "cassandra_node list \<Rightarrow> cassandra_node list \<Rightarrow> cassandra_node list" where
  "carry_over_down old new =
    map (\<lambda>n. if \<exists>m \<in> set old. \<not> cn_is_up m \<and> cn_address n = cn_address m then n\<lparr>cn_is_up := False\<rparr> else n) new"

definition set_status :: "socket_addr \<Rightarrow> bool \<Rightarrow> cassandra_node list \<Rightarrow> cassandra_node list" where
  "set_status addr up ns = map (\<lambda>n. if cn_address n = addr then n\<lparr>cn_is_up := up\<rparr> else n) ns"

definition handle_event ::
  "topology_env \<Rightarrow> string \<Rightarrow> socket_addr \<Rightarrow> nat \<Rightarrow> server_event \<Rightarrow> topology_task \<Rightarrow> (bool \<times> messages \<times> topology_task) async" where
  "handle_event T dc address v e k = (case e of
     TopologyChange NewNode _ \<Rightarrow>
       bind_async (fetch_current_nodes T dc address v (tk_connection k)) (\<lambda>(new_nodes, c).
         case send_nodes (carry_over_down (tk_nodes k) new_nodes) (k\<lparr>tk_connection := c\<rparr>) of (b, k') \<Rightarrow> Some (Ok (b, [], k')))
   | TopologyChange RemovedNode addr \<Rightarrow>
       (case send_nodes (filter (\<lambda>n. cn_address n \<noteq> addr) (tk_nodes k)) k of (b, k') \<Rightarrow> Some (Ok (b, [], k')))
   | TopologyChange OtherTopologyChange _ \<Rightarrow> Some (Inl (Panic ''internal error: entered unreachable code''))
   | StatusChange ty addr \<Rightarrow>
       (if ty = OtherStatusChange \<and> (\<exists>n \<in> set (tk_nodes k). cn_address n = addr)
        then Some (Inl (Panic ''internal error: entered unreachable code''))
        else case send_nodes (set_status addr (ty = Up) (tk_nodes k)) k of (b, k') \<Rightarrow> Some (Ok (b, [], k')))
   | SchemaChange _ \<Rightarrow>
       bind_async (query_keyspaces T dc v (tk_connection k)) (\<lambda>(ks, extra_events, c).
         case send_keyspaces ks (k\<lparr>tk_connection := c\<rparr>) of (b, k') \<Rightarrow> Some (Ok (b, extra_events, k')))
   | OtherEvent _ \<Rightarrow> Some (Inl (Panic ''internal error: entered unreachable code'')))"

text \<open>One pass over the events that have arrived; events that came with an answer are left for the next pass.\<close>

fun handle_events ::
  "topology_env \<Rightarrow> string \<Rightarrow> socket_addr \<Rightarrow> nat \<Rightarrow> messages \<Rightarrow> messages \<Rightarrow> topology_task
     \<Rightarrow> (bool \<times> messages \<times> topology_task) async" where
  "handle_events T dc address v [] extra k = Some (Ok (True, extra, k))"
| "handle_events T dc address v (m # ms) extra k = (case fst (frame (cx_decoders (te_env T)) m) of
     Some (FCassandra f) \<Rightarrow> (case coperation f of
         Event e \<Rightarrow> bind_async (handle_event T dc address v e k) (\<lambda>(b, more_events, k').
           if b then handle_events T dc address v ms (extra @ more_events) k' else Some (Ok (False, extra @ more_events, k')))
       | _ \<Rightarrow> handle_events T dc address v ms extra k)
   | _ \<Rightarrow> handle_events T dc address v ms extra k)"

definition topology_start ::
  "topology_env \<Rightarrow> string \<Rightarrow> socket_addr \<Rightarrow> connection_factory \<Rightarrow> bool \<Rightarrow> (bool \<times> topology_task) async" where
  "topology_start T dc address f is_open =
    bind_async (Some (get_version f)) (\<lambda>v.
    bind_async (new_connection (te_env T) (set_force_run_chain f) address) (\<lambda>cc.
    bind_async (fetch_current_nodes T dc address v (cc_connection cc)) (\<lambda>(ns, c1).
    (let k0 = \<lparr>tk_connection = c1, tk_nodes = [], tk_sent_nodes = [], tk_sent_keyspaces = [], tk_open = is_open\<rparr>;
         (b1, k1) = send_nodes ns k0 in
     if \<not> b1 then Some (Ok (False, k1))
     else bind_async (query_keyspaces T dc v c1) (\<lambda>(ks, _, c2).
       (let (b2, k2) = send_keyspaces ks (k1\<lparr>tk_connection := c2\<rparr>) in
        if \<not> b2 then Some (Ok (False, k2))
        else bind_async (register_for_events T v c2) (\<lambda>c3. Some (Ok (True, k2\<lparr>tk_connection := c3\<rparr>)))))))))"

text \<open>The loop: events that are left are handled at once, else the next batch is awaited.\<close>

partial_function (option) topology_loop ::
  "topology_env \<Rightarrow> string \<Rightarrow> socket_addr \<Rightarrow> nat \<Rightarrow> messages \<Rightarrow> topology_task \<Rightarrow> topology_task async" where
  [code]: "topology_loop T dc address v events k =
    (if events = []
     then (if \<not> tk_open k then Some (Ok k)
           else (case cass_recv_into (te_env T) [] (tk_connection k) of
               None \<Rightarrow> None
             | Some (COk rs, c) \<Rightarrow>
                bind_async (handle_events T dc address v rs [] (k\<lparr>tk_connection := c\<rparr>)) (\<lambda>(b, extra, k').
                  if b then topology_loop T dc address v extra k' else Some (Ok k'))
             | Some (CErr e, _) \<Rightarrow> Some (Inl (Err ''topology control connection was closed''))
             | Some (CPanic p, _) \<Rightarrow> Some (Inl (Panic p))))
     else bind_async (handle_events T dc address v events [] k) (\<lambda>(b, extra, k').
       if b then topology_loop T dc address v extra k' else Some (Ok k')))"

definition topology_task_process ::
  "topology_env \<Rightarrow> string \<Rightarrow> socket_addr \<Rightarrow> connection_factory \<Rightarrow> bool \<Rightarrow> topology_task async" where
  "topology_task_process T dc address f is_open =
    bind_async (topology_start T dc address f is_open) (\<lambda>(b, k).
      if b then bind_async (Some (get_version f)) (\<lambda>v. topology_loop T dc address v [] k) else Some (Ok k))"

text \<open>
  Handshakes arrive on a channel; the counter of attempts is set to zero for each of them.  The
  result is the task that shut down cleanly, or nothing when the channel was closed or the task gave up.
\<close>

record task_connection_info =
  ti_factory :: connection_factory
  ti_address :: socket_addr

fun create_topology_task ::
  "topology_env \<Rightarrow> string \<Rightarrow> bool \<Rightarrow> task_connection_info list \<Rightarrow> topology_task option async" where
  "create_topology_task T dc is_open [] = Some (Ok None)"
| "create_topology_task T dc is_open (info # infos) =
    (let attempts = 0 in
     case topology_task_process T dc (ti_address info) (ti_factory info) is_open of
       None \<Rightarrow> None
     | Some (Inl (Panic p)) \<Rightarrow> Some (Inl (Panic p))
     | Some (Inl (Err _)) \<Rightarrow>
        (let attempts = attempts + 1 in
         if (3 :: nat) < attempts then Some (Ok None) else create_topology_task T dc is_open infos)
     | Some (Inr k) \<Rightarrow> Some (Ok (Some k)))"

end
