(* ===== verification/Cassandra_Sink.thy ===== *)
theory Cassandra_Sink
  imports Cassandra_Topology
begin

text \<open>
  \<^verbatim>\<open>CassandraSinkCluster\<close> (\<^verbatim>\<open>src/shotover/src/transforms/cassandra/sink_cluster/mod.rs\<close>): the handshake, the
  control connection, the routing of requests and the collection of responses.

  The watch channels of the topology task are the fields \<open>nodes_rx\<close> and \<open>keyspaces_rx\<close>: a value that
  was not looked at yet.  An
  error ends the connection to the client, and the state of the sink with it.
\<close>

record cassandra_sink =
  contact_points :: "string list"
  factory :: connection_factory
  rewriter :: message_rewriter
  control_connection :: "cassandra_connection option"
  control_connection_address :: "socket_addr option"
  init_handshake_complete :: bool
  sink_version :: "nat option"
  failed_requests :: nat
  pool :: node_pool
  nodes_rx :: "cassandra_node list option"
  keyspaces_rx :: "(string \<Rightarrow> keyspace_metadata option) option"
  sink_rng :: opaque
  handshake_tx :: "task_connection_info list"

text \<open>
  What only the sink needs of the environment: the addresses of a host name, whether the topology
  task still lives, and the node list that it sends when the sink waits for one.
\<close>

record sink_env =
  se_env :: cassandra_env
  se_cql :: cql
  se_lookup_host :: "string \<Rightarrow> socket_addr list result"
  se_task_lives :: bool
  se_nodes :: "cassandra_node list option"

definition sink_build ::
  "string list \<Rightarrow> connection_factory \<Rightarrow> message_rewriter \<Rightarrow> (bytes \<Rightarrow> prepared_metadata option) \<Rightarrow> nat \<Rightarrow> nat
     \<Rightarrow> cassandra_node list option \<Rightarrow> (string \<Rightarrow> keyspace_metadata option) option \<Rightarrow> opaque \<Rightarrow> task_connection_info list
     \<Rightarrow> cassandra_sink" where
  "sink_build points f w shared counted failed nodes kss rng handshakes =
    \<lparr>contact_points = points, factory = set_force_run_chain (new_with_same_config f), rewriter = w,
     control_connection = None, control_connection_address = None, init_handshake_complete = False,
     sink_version = None, failed_requests = failed, pool = pool_build shared counted,
     nodes_rx = nodes, keyspaces_rx = kss, sink_rng = rng, handshake_tx = handshakes\<rparr>"

subsection \<open>Kinds of requests\<close>

definition query_of :: "decoders \<Rightarrow> message \<Rightarrow> cassandra_statement option \<times> message" where
  "query_of D m = (case frame D m of
     (Some (FCassandra f), m') \<Rightarrow> (case coperation f of Query q _ \<Rightarrow> (Some q, m') | _ \<Rightarrow> (None, m'))
   | (_, m') \<Rightarrow> (None, m'))"

definition is_ddl_statement :: "decoders \<Rightarrow> message \<Rightarrow> bool" where
  "is_ddl_statement D m = (case fst (query_of D m) of
     Some (CreateAggregate _) \<Rightarrow> True | Some (CreateFunction _) \<Rightarrow> True | Some (CreateIndex _) \<Rightarrow> True
   | Some (CreateKeyspace _) \<Rightarrow> True | Some (CreateMaterializedView _) \<Rightarrow> True | Some (CreateRole _) \<Rightarrow> True
   | Some (CreateTable _) \<Rightarrow> True | Some (CreateTrigger _) \<Rightarrow> True | Some (CreateType _) \<Rightarrow> True
   | Some (CreateUser _) \<Rightarrow> True | Some (AlterKeyspace _) \<Rightarrow> True | Some (AlterMaterializedView _) \<Rightarrow> True
   | Some (AlterRole _) \<Rightarrow> True | Some (AlterTable _) \<Rightarrow> True | Some (AlterType _) \<Rightarrow> True
   | Some (AlterUser _) \<Rightarrow> True | _ \<Rightarrow> False)"

definition is_use_statement :: "decoders \<Rightarrow> message \<Rightarrow> bool" where
  "is_use_statement D m = (case fst (query_of D m) of Some (Use _) \<Rightarrow> True | _ \<Rightarrow> False)"

definition system_keyspaces :: "cql_identifier list" where
  "system_keyspaces = [Quoted ''system'', Quoted ''system_schema'', Quoted ''system_distributed'']"

definition is_system_query :: "decoders \<Rightarrow> cql \<Rightarrow> message \<Rightarrow> bool" where
  "is_system_query D C m = (case fst (query_of D m) of
     Some (Select s) \<Rightarrow> (case fq_keyspace (sel_table s) of
         Some ks \<Rightarrow> \<exists>x \<in> set system_keyspaces. ident_eq C x ks
       | None \<Rightarrow> False)
   | _ \<Rightarrow> False)"

definition is_prepare_message :: "decoders \<Rightarrow> message \<Rightarrow> bool" where
  "is_prepare_message D m = (case fst (frame D m) of
     Some (FCassandra f) \<Rightarrow> (case coperation f of Prepare _ \<Rightarrow> True | _ \<Rightarrow> False)
   | _ \<Rightarrow> False)"

definition get_execute_message :: "decoders \<Rightarrow> message \<Rightarrow> (execute_body \<times> cassandra_metadata) option" where
  "get_execute_message D m = (case fst (frame D m) of
     Some (FCassandra f) \<Rightarrow> (case coperation f of
         Execute b \<Rightarrow> Some (b, \<lparr>cm_version = cversion f, cm_stream_id = cstream_id f, cm_opcode = OpExecute\<rparr>)
       | _ \<Rightarrow> None)
   | _ \<Rightarrow> None)"

definition get_prepared_result_message :: "decoders \<Rightarrow> message \<Rightarrow> (bytes \<times> prepared_metadata) option" where
  "get_prepared_result_message D m = (case fst (frame D m) of
     Some (FCassandra f) \<Rightarrow> (case coperation f of
         Result (Prepared p) \<Rightarrow> Some (prepared_id p, \<lparr>pm_pk_indexes = prepared_pk_indexes p, pm_keyspace = prepared_keyspace p\<rparr>)
       | _ \<Rightarrow> None)
   | _ \<Rightarrow> None)"

definition send_error_in_response_to_metadata :: "cassandra_env \<Rightarrow> cassandra_metadata \<Rightarrow> string \<Rightarrow> message" where
  "send_error_in_response_to_metadata E md error =
    from_frame (cx_response_id E (cm_stream_id md)) (FCassandra (shotover_error (cm_stream_id md) (cm_version md) error))"

definition send_error_in_response_to_message :: "cassandra_env \<Rightarrow> message \<Rightarrow> string \<Rightarrow> message result" where
  "send_error_in_response_to_message E m error = (case message_metadata (cx_decoders E) m of
     Inr (MCassandra md) \<Rightarrow> Ok (send_error_in_response_to_metadata E md error)
   | Inl (Panic p) \<Rightarrow> Inl (Panic p)
   | _ \<Rightarrow> Inl (Err ''Expected message to be of type cassandra''))"

definition dummy_answer :: "cassandra_env \<Rightarrow> message \<Rightarrow> message" where
  "dummy_answer E m = set_request_id (id m) (from_frame (cx_dummy_id E (id m)) FDummy)"

definition set_control_connection :: "cassandra_connection \<Rightarrow> socket_addr \<Rightarrow> cassandra_sink \<Rightarrow> cassandra_sink" where
  "set_control_connection c a s = s\<lparr>control_connection := Some c, control_connection_address := Some a\<rparr>"

subsection \<open>Routing\<close>

definition control_send :: "cassandra_env \<Rightarrow> message \<Rightarrow> cassandra_sink \<Rightarrow> cassandra_sink result" where
  "control_send E m s = (case control_connection s of
     None \<Rightarrow> Inl (Panic ''called Option::unwrap() on a None value'')
   | Some c \<Rightarrow> bind_result (cass_send E [m] c) (\<lambda>c'. Ok (s\<lparr>control_connection := Some c'\<rparr>)))"

definition node_send :: "cassandra_env \<Rightarrow> nat \<Rightarrow> message \<Rightarrow> node_pool \<Rightarrow> node_pool result" where
  "node_send E i m p = (case cn_outbound (pool_nodes p ! i) of
     None \<Rightarrow> Inl (Panic ''it is set to Some by get_accessible_node'')
   | Some c \<Rightarrow> bind_result (cass_send E [m] c) (\<lambda>c'.
       Ok (p\<lparr>pool_nodes := (pool_nodes p)[i := (pool_nodes p ! i)\<lparr>cn_outbound := Some c'\<rparr>]\<rparr>)))"

text \<open>After a \<^verbatim>\<open>USE\<close> every connection to a node is closed, when its pending responses have arrived.\<close>

fun close_nodes ::
  "cassandra_env \<Rightarrow> nat \<Rightarrow> messages \<Rightarrow> cassandra_node list \<Rightarrow> (messages \<times> cassandra_node list) async" where
  "close_nodes E v rs [] = Some (Ok (rs, []))"
| "close_nodes E v rs (n # ns) =
    bind_async
      (case cn_outbound n of
         None \<Rightarrow> Some (Ok (rs, n))
       | Some c \<Rightarrow> bind_async (cass_recv_all_pending E v rs c) (\<lambda>(rs', works, _).
           if works then Some (Ok (rs', n\<lparr>cn_outbound := None\<rparr>)) else Some (Inl (Err ''Failed to recv_all_pending''))))
      (\<lambda>(rs1, n'). bind_async (close_nodes E v rs1 ns) (\<lambda>(rs2, ns'). Some (Ok (rs2, n' # ns'))))"

definition route_use ::
  "cassandra_env \<Rightarrow> nat \<Rightarrow> message \<Rightarrow> messages \<Rightarrow> cassandra_sink \<Rightarrow> (messages \<times> cassandra_sink) async" where
  "route_use E v m rs s =
    bind_async (Some (control_send E m (s\<lparr>factory := set_use_message m (factory s)\<rparr>))) (\<lambda>s1.
    bind_async (close_nodes E v rs (pool_nodes (pool s1))) (\<lambda>(rs', ns).
      Some (Ok (rs', s1\<lparr>pool := (pool s1)\<lparr>pool_nodes := ns\<rparr>\<rparr>))))"

definition route_prepare ::
  "cassandra_env \<Rightarrow> message \<Rightarrow> messages \<Rightarrow> cassandra_sink \<Rightarrow> (messages \<times> cassandra_sink) async" where
  "route_prepare E m rs s =
    bind_async (Some (get_destination_for_prepare m (rewriter s))) (\<lambda>(host, w).
    (let ns = pool_nodes (pool s) in
     case find (\<lambda>i. cn_host_id (ns ! i) = host) [0..<length ns] of
       None \<Rightarrow> Some (Inl (Err ''node has dissapeared''))
     | Some i \<Rightarrow> (case get_connection E (factory s) (ns ! i) of
         None \<Rightarrow> None
       | Some (Inl (Panic p)) \<Rightarrow> Some (Inl (Panic p))
       | Some (Inl (Err e)) \<Rightarrow>
           Some (bind_result (send_error_in_response_to_message E m e) (\<lambda>r. Ok (rs @ [r], s\<lparr>rewriter := w\<rparr>)))
       | Some (Inr n) \<Rightarrow>
           Some (bind_result (node_send E i m ((pool s)\<lparr>pool_nodes := ns[i := n]\<rparr>)) (\<lambda>p.
             Ok (rs, s\<lparr>rewriter := w, pool := p\<rparr>))))))"

text \<open>A random node of the rack; \<open>failed\<close> makes the error response when none can be reached.\<close>

definition route_random ::
  "cassandra_env \<Rightarrow> (string \<Rightarrow> message result) \<Rightarrow> message \<Rightarrow> messages \<Rightarrow> cassandra_sink \<Rightarrow> (messages \<times> cassandra_sink) async" where
  "route_random E failed m rs s =
    bind_async (get_random_node_in_dc_rack E (factory s) (csn_rack (local_shotover_node (rewriter s))) (sink_rng s) (pool s))
      (\<lambda>(r, rng, p). case r of
         Inl e \<Rightarrow> Some (bind_result (failed e) (\<lambda>resp. Ok (rs @ [resp], s\<lparr>sink_rng := rng, pool := p\<rparr>)))
       | Inr i \<Rightarrow> Some (bind_result (node_send E i m p) (\<lambda>p'. Ok (rs, s\<lparr>sink_rng := rng, pool := p'\<rparr>))))"

definition unprepared_error :: "cassandra_env \<Rightarrow> nat \<Rightarrow> cassandra_metadata \<Rightarrow> bytes \<Rightarrow> message" where
  "unprepared_error E v md qid = from_frame (cx_response_id E (cm_stream_id md)) (FCassandra
     \<lparr>cversion = v, cstream_id = cm_stream_id md, ctracing = TResponse None, cwarnings = [],
      coperation = Error
        ''Shotover does not have this query's metadata. Please re-prepare on this Shotover host before sending again.''
        (Unprepared qid)\<rparr>)"

definition route_execute ::
  "cassandra_env \<Rightarrow> nat \<Rightarrow> execute_body \<Rightarrow> cassandra_metadata \<Rightarrow> message \<Rightarrow> messages \<Rightarrow> cassandra_sink
     \<Rightarrow> (messages \<times> cassandra_sink) async" where
  "route_execute E v execute md m rs s =
    bind_async (get_replica_connection_in_dc E (factory s) execute (csn_rack (local_shotover_node (rewriter s))) (sink_rng s) (pool s))
      (\<lambda>(r, rng, p). (let s1 = s\<lparr>sink_rng := rng, pool := p\<rparr> in case r of
         Inr i \<Rightarrow> Some (bind_result (node_send E i m p) (\<lambda>p'. Ok (rs, s1\<lparr>pool := p'\<rparr>)))
       | Inl NoKeyspaceMetadata \<Rightarrow> route_random E (\<lambda>e. Ok (send_error_in_response_to_metadata E md e)) m rs s1
       | Inl NoRoutingKey \<Rightarrow> route_random E (\<lambda>e. Ok (send_error_in_response_to_metadata E md e)) m rs s1
       | Inl NoPreparedMetadata \<Rightarrow> Some (Ok (rs @ [unprepared_error E v md (execute_id execute)], s1))
       | Inl (NoNodeAvailable e) \<Rightarrow> Some (Ok (rs @ [send_error_in_response_to_metadata E md e], s1))
       | Inl (OtherReplicaErr e) \<Rightarrow> Some (Inl (Err e))))"

definition to_control :: "cassandra_env \<Rightarrow> cql \<Rightarrow> message \<Rightarrow> cassandra_sink \<Rightarrow> bool" where
  "to_control E C m s \<longleftrightarrow> pool_nodes (pool s) = [] \<or> \<not> init_handshake_complete s
     \<or> is_ddl_statement (cx_decoders E) m \<or> is_system_query (cx_decoders E) C m"

definition route_request ::
  "cassandra_env \<Rightarrow> cql \<Rightarrow> nat \<Rightarrow> message \<Rightarrow> messages \<Rightarrow> cassandra_sink \<Rightarrow> (messages \<times> cassandra_sink) async" where
  "route_request E C v m0 rs s =
    (let D = cx_decoders E;
         m = (if pool_nodes (pool s) = [] \<or> \<not> init_handshake_complete s then m0 else snd (frame D m0)) in
     if is_dummy m0 then Some (Ok (rs @ [dummy_answer E m0], s))
     else if to_control E C m0 s then Some (bind_result (control_send E m s) (\<lambda>s'. Ok (rs, s')))
     else if is_use_statement D m0 then route_use E v m rs s
     else if is_prepare_message D m0 then route_prepare E m rs s
     else (case get_execute_message D m0 of
         Some (execute, md) \<Rightarrow> route_execute E v execute md m rs s
       | None \<Rightarrow> route_random E (send_error_in_response_to_message E m) m rs s))"

fun route_requests ::
  "cassandra_env \<Rightarrow> cql \<Rightarrow> nat \<Rightarrow> messages \<Rightarrow> messages \<Rightarrow> cassandra_sink \<Rightarrow> (messages \<times> cassandra_sink) async" where
  "route_requests E C v [] rs s = Some (Ok (rs, s))"
| "route_requests E C v (m # ms) rs s =
    bind_async (route_request E C v m rs s) (\<lambda>(rs', s'). route_requests E C v ms rs' s')"

subsection \<open>Connections and the handshake\<close>

definition owned_connection_in_rack ::
  "cassandra_env \<Rightarrow> string \<Rightarrow> cassandra_sink \<Rightarrow> cassandra_sink async" where
  "owned_connection_in_rack E context s =
    bind_async (get_random_owned_connection_in_dc_rack E (factory s) (csn_rack (local_shotover_node (rewriter s))) (sink_rng s) (pool s))
      (\<lambda>(r, rng, p). case r of
         Inl _ \<Rightarrow> Some (Inl (Err context))
       | Inr (c, a) \<Rightarrow> Some (Ok (set_control_connection c a (s\<lparr>sink_rng := rng, pool := p\<rparr>))))"

text \<open>A new node list, and a new control connection when the node it goes to is not up any more.\<close>

definition observe_nodes :: "cassandra_env \<Rightarrow> cassandra_sink \<Rightarrow> cassandra_sink async" where
  "observe_nodes E s = (case nodes_rx s of
     None \<Rightarrow> Some (Ok s)
   | Some ns \<Rightarrow>
      (let s1 = s\<lparr>nodes_rx := None, pool := update_nodes ns (pool s)\<rparr> in
       case control_connection_address s of
         None \<Rightarrow> Some (Ok s1)
       | Some a \<Rightarrow>
          if \<exists>n \<in> set (pool_nodes (pool s1)). cn_address n = a \<and> cn_is_up n then Some (Ok s1)
          else owned_connection_in_rack E
            ''Failed to recreate control connection after control connection node went down'' s1))"

definition observe_keyspaces :: "cassandra_sink \<Rightarrow> cassandra_sink" where
  "observe_keyspaces s = (case keyspaces_rx s of
     None \<Rightarrow> s
   | Some kss \<Rightarrow> s\<lparr>keyspaces_rx := None, pool := update_keyspaces kss (pool s)\<rparr>)"

fun start_nodes :: "sink_env \<Rightarrow> string list \<Rightarrow> cassandra_node list result" where
  "start_nodes S [] = Ok []"
| "start_nodes S (point # points) = bind_result (se_lookup_host S point) (\<lambda>addrs. case addrs of
     [] \<Rightarrow> Inl (Panic ''called Option::unwrap() on a None value'')
   | a # _ \<Rightarrow> bind_result (start_nodes S points) (\<lambda>ns. Ok (node_new a [] [] 0 # ns)))"

definition ensure_control_connection :: "sink_env \<Rightarrow> cassandra_sink \<Rightarrow> cassandra_sink async" where
  "ensure_control_connection S s =
    (if control_connection s \<noteq> None then Some (Ok s)
     else if \<exists>n \<in> set (pool_nodes (pool s)). cn_is_up n \<and> cn_rack n = csn_rack (local_shotover_node (rewriter s))
     then owned_connection_in_rack (se_env S) ''Failed to create initial control connection from current node pool'' s
     else bind_async (Some (start_nodes S (contact_points s))) (\<lambda>ns.
       bind_async (get_accessible_owned_connection (se_env S) (factory s) ns) (\<lambda>r. case r of
         Inl _ \<Rightarrow> Some (Inl (Err ''Failed to create initial control connection from initial contact points''))
       | Inr (c, a) \<Rightarrow> Some (Ok (set_control_connection c a s)))))"

text \<open>The messages of the handshake are recorded, to be replayed on new connections.\<close>

definition is_handshake_request :: "decoders \<Rightarrow> message \<Rightarrow> bool" where
  "is_handshake_request D m = (case fst (frame D m) of
     Some (FCassandra f) \<Rightarrow> (case coperation f of Startup _ \<Rightarrow> True | AuthResponse _ \<Rightarrow> True | _ \<Rightarrow> False)
   | _ \<Rightarrow> False)"

definition is_handshake_end :: "decoders \<Rightarrow> message \<Rightarrow> bool" where
  "is_handshake_end D m = (case fst (frame D m) of
     Some (FCassandra f) \<Rightarrow> (case coperation f of Ready _ \<Rightarrow> True | AuthSuccess _ \<Rightarrow> True | _ \<Rightarrow> False)
   | _ \<Rightarrow> False)"

definition record_handshake :: "decoders \<Rightarrow> messages \<Rightarrow> cassandra_sink \<Rightarrow> messages \<times> cassandra_sink" where
  "record_handshake D ms s =
    (if init_handshake_complete s then (ms, s)
     else (let ms' = map (\<lambda>m. snd (frame D m)) ms in
       (ms', s\<lparr>factory := fold (push_handshake_message D) (filter (is_handshake_request D) ms') (factory s)\<rparr>)))"

text \<open>The channel to the topology task holds one handshake.\<close>

definition complete_handshake :: "sink_env \<Rightarrow> cassandra_sink \<Rightarrow> cassandra_sink async" where
  "complete_handshake S s =
    (case control_connection_address s of
       None \<Rightarrow> Some (Inl (Panic ''called Option::unwrap() on a None value''))
     | Some a \<Rightarrow>
        (let s1 = s\<lparr>init_handshake_complete := True,
               handshake_tx := (if handshake_tx s = [] then [\<lparr>ti_factory = factory_clone (factory s), ti_address = a\<rparr>]
                                else handshake_tx s)\<rparr> in
         if pool_nodes (pool s) \<noteq> [] then Some (Ok s1)
         else (case se_nodes S of
             None \<Rightarrow> if se_task_lives S then None else Some (Inl (Err ''channel closed''))
           | Some ns \<Rightarrow> owned_connection_in_rack (se_env S)
               ''Failed to recreate control connection when initial connection was possibly against the wrong node''
               (s1\<lparr>pool := update_nodes ns (pool s)\<rparr>))))"

definition finish_handshake :: "sink_env \<Rightarrow> messages \<Rightarrow> cassandra_sink \<Rightarrow> cassandra_sink async" where
  "finish_handshake S rs s =
    (if \<not> init_handshake_complete s \<and> (\<exists>r \<in> set rs. is_handshake_end (cx_decoders (se_env S)) r)
     then complete_handshake S s else Some (Ok s))"

subsection \<open>Receiving\<close>

fun recv_nodes ::
  "cassandra_env \<Rightarrow> nat \<Rightarrow> messages \<Rightarrow> cassandra_node list \<Rightarrow> (messages \<times> cassandra_node list) async" where
  "recv_nodes E v rs [] = Some (Ok (rs, []))"
| "recv_nodes E v rs (n # ns) =
    bind_async (node_recv_all_pending E v rs n) (\<lambda>(rs1, n').
    bind_async (recv_nodes E v rs1 ns) (\<lambda>(rs2, ns'). Some (Ok (rs2, n' # ns'))))"

fun try_recv_nodes ::
  "cassandra_env \<Rightarrow> nat \<Rightarrow> messages \<Rightarrow> cassandra_node list \<Rightarrow> (messages \<times> cassandra_node list) result" where
  "try_recv_nodes E v rs [] = Ok (rs, [])"
| "try_recv_nodes E v rs (n # ns) =
    bind_result (node_try_recv E v rs n) (\<lambda>(rs1, n').
    bind_result (try_recv_nodes E v rs1 ns) (\<lambda>(rs2, ns'). Ok (rs2, n' # ns')))"

text \<open>A failure of the control connection is ignored here: it stays in place.\<close>

definition recv_all :: "cassandra_env \<Rightarrow> nat \<Rightarrow> messages \<Rightarrow> cassandra_sink \<Rightarrow> (messages \<times> cassandra_sink) async" where
  "recv_all E v rs s =
    bind_async (case control_connection s of
        None \<Rightarrow> Some (Ok (rs, None))
      | Some c \<Rightarrow> bind_async (cass_recv_all_pending E v rs c) (\<lambda>(rs', _, c'). Some (Ok (rs', Some c'))))
      (\<lambda>(rs1, cc). bind_async (recv_nodes E v rs1 (pool_nodes (pool s))) (\<lambda>(rs2, ns).
        Some (Ok (rs2, s\<lparr>control_connection := cc, pool := (pool s)\<lparr>pool_nodes := ns\<rparr>\<rparr>))))"

definition try_recv_all :: "cassandra_env \<Rightarrow> nat \<Rightarrow> messages \<Rightarrow> cassandra_sink \<Rightarrow> (messages \<times> cassandra_sink) result" where
  "try_recv_all E v rs s =
    bind_result (case control_connection s of
        None \<Rightarrow> Ok (rs, None)
      | Some c \<Rightarrow> bind_result (cass_try_recv E v rs c) (\<lambda>(rs', _, c'). Ok (rs', Some c')))
      (\<lambda>(rs1, cc). bind_result (try_recv_nodes E v rs1 (pool_nodes (pool s))) (\<lambda>(rs2, ns).
        Ok (rs2, s\<lparr>control_connection := cc, pool := (pool s)\<lparr>pool_nodes := ns\<rparr>\<rparr>)))"

definition note_response :: "decoders \<Rightarrow> message \<Rightarrow> cassandra_sink \<Rightarrow> cassandra_sink" where
  "note_response D m s =
    (let s1 = (case get_prepared_result_message D m of
           Some (qid, md) \<Rightarrow> s\<lparr>pool := add_prepared_result qid md (pool s)\<rparr> | None \<Rightarrow> s)
     in if is_cassandra_error D m then s1\<lparr>failed_requests := failed_requests s1 + 1\<rparr> else s1)"

text \<open>Events about the topology and the status of nodes are not for the client.\<close>

fun retain_responses :: "decoders \<Rightarrow> messages \<Rightarrow> messages result" where
  "retain_responses D [] = Ok []"
| "retain_responses D (m # ms) = (case frame D m of
     (Some (FCassandra f), m') \<Rightarrow> (case coperation f of
         Event (TopologyChange _ _) \<Rightarrow> retain_responses D ms
       | Event (StatusChange _ _) \<Rightarrow> retain_responses D ms
       | Event (OtherEvent _) \<Rightarrow> Inl (Panic ''internal error: entered unreachable code'')
       | _ \<Rightarrow> bind_result (retain_responses D ms) (\<lambda>ms'. Ok (m' # ms')))
   | (_, m') \<Rightarrow> bind_result (retain_responses D ms) (\<lambda>ms'. Ok (m' # ms')))"

subsection \<open>A batch of requests\<close>

definition detect_version :: "decoders \<Rightarrow> messages \<Rightarrow> nat option \<Rightarrow> nat option result" where
  "detect_version D ms v = (case v of
     Some _ \<Rightarrow> Ok v
   | None \<Rightarrow> (case find (\<lambda>m. \<not> is_dummy m) ms of
       None \<Rightarrow> Ok None
     | Some m \<Rightarrow> (case message_metadata D m of
         Inr (MCassandra md) \<Rightarrow> Ok (Some (cm_version md))
       | Inl (Panic p) \<Rightarrow> Inl (Panic p)
       | _ \<Rightarrow> Inl (Err ''Failed to extract cassandra version from incoming message: Not a valid cassandra message''))))"

definition send_batch :: "sink_env \<Rightarrow> nat \<Rightarrow> messages \<Rightarrow> cassandra_sink \<Rightarrow> (messages \<times> cassandra_sink) async" where
  "send_batch S v reqs s =
    (let E = se_env S; C = se_cql S; D = cx_decoders E in
     if \<not> se_task_lives S then Some (Inl (Err ''channel closed''))
     else
     bind_async (observe_nodes E s) (\<lambda>s1.
     (let s2 = observe_keyspaces s1 in
     bind_async (rewrite_requests E C (factory s2) v reqs (pool s2) (rewriter s2)) (\<lambda>(mode, reqs2, p, w).
     (let s3 = s2\<lparr>pool := p, rewriter := w\<rparr> in
     bind_async (if mode = Isolated then recv_all E v [] s3 else Some (Ok ([], s3))) (\<lambda>(rs4, s4).
     bind_async (ensure_control_connection S s4) (\<lambda>s5.
     (case record_handshake D reqs2 s5 of (reqs6, s6) \<Rightarrow>
     bind_async (route_requests E C v reqs6 rs4 s6) (\<lambda>(rs7, s7).
     bind_async (if mode = Isolated then recv_all E v rs7 s7 else Some (try_recv_all E v rs7 s7)) (\<lambda>(rs8, s8).
     bind_async (finish_handshake S rs8 s8) (\<lambda>s9.
     bind_async (Some (rewrite_responses E C rs8 (rewriter s9))) (\<lambda>(rs10, w10).
     (let s10 = fold (note_response D) rs10 (s9\<lparr>rewriter := w10\<rparr>) in
     bind_async (Some (retain_responses D rs10)) (\<lambda>rs11. Some (Ok (rs11, s10))))))))))))))))"

definition send_message :: "sink_env \<Rightarrow> messages \<Rightarrow> cassandra_sink \<Rightarrow> (messages \<times> cassandra_sink) async" where
  "send_message S reqs s =
    bind_async (Some (detect_version (cx_decoders (se_env S)) reqs (sink_version s))) (\<lambda>v. case v of
       None \<Rightarrow> Some (Ok (map (dummy_answer (se_env S)) reqs, s))
     | Some v \<Rightarrow> send_batch S v reqs (s\<lparr>sink_version := Some v\<rparr>))"

definition cassandra_cluster_transform ::
  "sink_env \<Rightarrow> chain_state \<Rightarrow> cassandra_sink \<Rightarrow> (messages \<times> chain_state \<times> cassandra_sink) async" where
  "cassandra_cluster_transform S cs s =
    bind_async (send_message S (requests cs) s) (\<lambda>(rs, s'). Some (Ok (rs, cs\<lparr>requests := []\<rparr>, s')))"

end
