(* ===== verification/Cassandra_Sink_Contract.thy ===== *)
theory Cassandra_Sink_Contract
  imports Cassandra_Sink
begin

text \<open>
  What every operation of the cluster sink keeps: apart from a new node list, which comes with its
  own ring, nodes change only in their connection and in whether they count as up.
\<close>

definition same_pool :: "node_pool \<Rightarrow> node_pool \<Rightarrow> bool" where
  "same_pool p p' \<longleftrightarrow> list_all2 same_node (pool_nodes p) (pool_nodes p') \<and> token_map p' = token_map p"

lemma same_nodes_refl [simp]: "list_all2 same_node ns ns"
  by (simp add: list.rel_refl)

lemma same_pool_refl [simp]: "same_pool p p"
  by (simp add: same_pool_def)

lemma same_pool_trans: "same_pool p q \<Longrightarrow> same_pool q r \<Longrightarrow> same_pool p r"
  using same_nodes_trans by (auto simp: same_pool_def)

lemma same_pool_nodes: "list_all2 same_node (pool_nodes p) ns \<Longrightarrow> same_pool p (p\<lparr>pool_nodes := ns\<rparr>)"
  by (simp add: same_pool_def)

lemma pool_ok_same_pool: "pool_ok p \<Longrightarrow> same_pool p p' \<Longrightarrow> pool_ok p'"
  using pool_ok_same by (simp add: same_pool_def)

lemma same_node_update: "same_node (ns ! i) n \<Longrightarrow> list_all2 same_node ns (ns[i := n])"
  using list_all2_same_update by blast

subsection \<open>Operations of the pool\<close>

lemma get_accessible_node_same:
  "get_accessible_node E f errors is ns = Some (Ok (r, ns')) \<Longrightarrow> list_all2 same_node ns ns'"
proof (induction E f errors "is" ns rule: get_accessible_node.induct)
  case (2 E f errors i "is" ns)
  consider (up) n where "get_connection E f (ns ! i) = Some (Inr n)" | (down) e where "get_connection E f (ns ! i) = Some (Inl (Err e))"
    using 2(2) by (auto split: option.splits sum.splits err.splits)
  then show ?case
  proof cases
    case up
    then show ?thesis using 2(2) get_connection_same[OF up] by (auto intro: same_node_update)
  next
    case down
    then have "list_all2 same_node (ns[i := report_issue (ns ! i)]) ns'" using 2 by simp
    moreover have "list_all2 same_node ns (ns[i := report_issue (ns ! i)])" by (rule same_node_update) simp
    ultimately show ?thesis using same_nodes_trans by blast
  qed
qed simp

lemma get_random_node_same:
  "get_random_node_in_dc_rack E f rack rng p = Some (Ok (r, rng', p')) \<Longrightarrow> same_pool p p'"
  by (auto simp: get_random_node_in_dc_rack_def result split: prod.splits
      intro!: same_pool_nodes dest: get_accessible_node_same)

lemma take_outbound_same: "take_outbound i ns = Ok (c, a, ns') \<Longrightarrow> list_all2 same_node ns ns'"
  by (auto simp: take_outbound_def split: option.splits intro: same_node_update)

lemma get_random_owned_same:
  assumes "get_random_owned_connection_in_dc_rack E f rack rng p = Some (Ok (r, rng', p'))"
  shows "same_pool p p'"
proof -
  obtain x rng1 p1 where x: "get_random_node_in_dc_rack E f rack rng p = Some (Ok (x, rng1, p1))"
    using assms by (auto simp: get_random_owned_connection_in_dc_rack_def result)
  have "same_pool p1 p'" using assms x
    by (cases x) (auto simp: get_random_owned_connection_in_dc_rack_def result intro!: same_pool_nodes dest: take_outbound_same)
  then show ?thesis using get_random_node_same[OF x] same_pool_trans by blast
qed

lemma get_replica_node_same: "get_replica_node_in_dc E e rack rng p = Ok (r, rng', p') \<Longrightarrow> same_pool p p'"
  by (auto simp: get_replica_node_in_dc_def result same_pool_def case_prod_beta Let_def split: option.splits if_splits)

lemma get_replica_connection_same:
  assumes "get_replica_connection_in_dc E f e rack rng p = Some (Ok (r, rng', p'))"
  shows "same_pool p p'"
proof -
  obtain x rng1 p1 where x: "get_replica_node_in_dc E e rack rng p = Ok (x, rng1, p1)"
    using assms by (auto simp: get_replica_connection_in_dc_def result)
  have "same_pool p1 p'" using assms x
    by (cases x) (auto simp: get_replica_connection_in_dc_def result intro!: same_pool_nodes dest: get_accessible_node_same)
  then show ?thesis using get_replica_node_same[OF x] same_pool_trans by blast
qed

lemma node_send_same: "node_send E i m p = Ok p' \<Longrightarrow> same_pool p p'"
  by (auto simp: node_send_def result split: option.splits intro!: same_pool_nodes same_node_update)

lemma open_connections_same: "open_connections E f hosts ns = Some (Ok ns') \<Longrightarrow> list_all2 same_node ns ns'"
  by (induction ns arbitrary: ns') (auto simp: result split: if_splits dest: get_connection_same)

subsection \<open>Sweeps over the nodes\<close>

text \<open>An operation on one node that may receive responses, and its repetition over the nodes.\<close>

locale node_sweep =
  fixes one :: "messages \<Rightarrow> cassandra_node \<Rightarrow> (messages \<times> cassandra_node) async"
    and sweep :: "messages \<Rightarrow> cassandra_node list \<Rightarrow> (messages \<times> cassandra_node list) async"
  assumes one_same: "one rs n = Some (Ok (rs', n')) \<Longrightarrow> same_node n n'"
    and sweep_Nil: "sweep rs [] = Some (Ok (rs, []))"
    and sweep_Cons: "sweep rs (n # ns) =
      bind_async (one rs n) (\<lambda>(rs1, n'). bind_async (sweep rs1 ns) (\<lambda>(rs2, ns'). Some (Ok (rs2, n' # ns'))))"
begin

lemma sweep_same: "sweep rs ns = Some (Ok (rs', ns')) \<Longrightarrow> list_all2 same_node ns ns'"
  by (induction ns arbitrary: rs rs' ns') (auto simp: sweep_Nil sweep_Cons result dest: one_same)

end

interpretation receiving: node_sweep "node_recv_all_pending E v" "recv_nodes E v" for E v
  by unfold_locales (auto simp: node_recv_all_pending_def result split: option.splits)

interpretation polling: node_sweep "\<lambda>rs n. Some (node_try_recv E v rs n)" "\<lambda>rs ns. Some (try_recv_nodes E v rs ns)" for E v
  by unfold_locales (auto simp: node_try_recv_def result bind_async_def bind_result_def split: option.splits sum.splits)

definition close_node :: "cassandra_env \<Rightarrow> nat \<Rightarrow> messages \<Rightarrow> cassandra_node \<Rightarrow> (messages \<times> cassandra_node) async" where
  "close_node E v rs n = (case cn_outbound n of
     None \<Rightarrow> Some (Ok (rs, n))
   | Some c \<Rightarrow> bind_async (cass_recv_all_pending E v rs c) (\<lambda>(rs', works, _).
       if works then Some (Ok (rs', n\<lparr>cn_outbound := None\<rparr>)) else Some (Inl (Err ''Failed to recv_all_pending''))))"

interpretation closing: node_sweep "close_node E v" "close_nodes E v" for E v
  by unfold_locales (auto simp: close_node_def result split: option.splits if_splits)

subsection \<open>Operations of the sink\<close>

lemma control_send_pool: "control_send E m s = Ok s' \<Longrightarrow> pool s' = pool s"
  by (auto simp: control_send_def result split: option.splits)

lemma route_use_same: "route_use E v m rs s = Some (Ok (rs', s')) \<Longrightarrow> same_pool (pool s) (pool s')"
  by (auto simp: route_use_def result dest!: control_send_pool closing.sweep_same intro: same_pool_nodes)

lemma route_prepare_cases:
  assumes "route_prepare E m rs s = Some (Ok (rs', s'))"
  obtains (sent) i n p where "i < length (pool_nodes (pool s))" "get_connection E (factory s) (pool_nodes (pool s) ! i) = Some (Inr n)"
      "node_send E i m ((pool s)\<lparr>pool_nodes := (pool_nodes (pool s))[i := n]\<rparr>) = Ok p" "rs' = rs" "pool s' = p"
      "control_connection s' = control_connection s"
    | (failed) e r where "send_error_in_response_to_message E m e = Ok r" "rs' = rs @ [r]" "pool s' = pool s"
      "control_connection s' = control_connection s"
proof -
  define ns where "ns = pool_nodes (pool s)"
  obtain host w where w: "get_destination_for_prepare m (rewriter s) = Ok (host, w)"
    using assms by (auto simp: route_prepare_def result)
  then obtain i where i: "find (\<lambda>i. cn_host_id (ns ! i) = host) [0..<length ns] = Some i"
    using assms by (auto simp: route_prepare_def ns_def Let_def split: option.splits)
  have "i < length ns" using find_Some_set[OF i] by simp
  from assms w i consider e where "get_connection E (factory s) (ns ! i) = Some (Inl (Err e))"
    | n where "get_connection E (factory s) (ns ! i) = Some (Inr n)"
    by (auto simp: route_prepare_def ns_def Let_def split: option.splits sum.splits err.splits)
  then show thesis
  proof cases
    case 1
    then show thesis using assms w i failed by (auto simp: route_prepare_def ns_def Let_def result)
  next
    case 2
    then show thesis using assms w i sent \<open>i < length ns\<close> by (auto simp: route_prepare_def ns_def Let_def result)
  qed
qed

lemma route_prepare_same: "route_prepare E m rs s = Some (Ok (rs', s')) \<Longrightarrow> same_pool (pool s) (pool s')"
  by (erule route_prepare_cases)
    (auto dest!: get_connection_same node_send_same intro: same_pool_trans[OF same_pool_nodes[OF same_node_update]])

lemma route_random_same:
  assumes "route_random E failed m rs s = Some (Ok (rs', s'))"
  shows "same_pool (pool s) (pool s')"
proof -
  obtain r rng p where g: "get_random_node_in_dc_rack E (factory s) (csn_rack (local_shotover_node (rewriter s))) (sink_rng s) (pool s)
      = Some (Ok (r, rng, p))" using assms by (auto simp: route_random_def result)
  have "same_pool p (pool s')" using assms g by (cases r) (auto simp: route_random_def result dest: node_send_same)
  then show ?thesis using get_random_node_same[OF g] same_pool_trans by blast
qed

lemma route_execute_same:
  assumes "route_execute E v execute md m rs s = Some (Ok (rs', s'))"
  shows "same_pool (pool s) (pool s')"
proof -
  obtain r rng p where g: "get_replica_connection_in_dc E (factory s) execute (csn_rack (local_shotover_node (rewriter s))) (sink_rng s) (pool s)
      = Some (Ok (r, rng, p))" using assms by (auto simp: route_execute_def result)
  have "same_pool p (pool s')" using assms g
    by (auto simp: route_execute_def result Let_def dest!: node_send_same route_random_same split: sum.splits get_replica_err.splits)
  then show ?thesis using get_replica_connection_same[OF g] same_pool_trans by blast
qed

lemma route_request_same: "route_request E C v m rs s = Some (Ok (rs', s')) \<Longrightarrow> same_pool (pool s) (pool s')"
  by (auto simp: route_request_def result Let_def split: if_splits option.splits
      dest: control_send_pool route_use_same route_prepare_same route_random_same route_execute_same)

lemma route_requests_same: "route_requests E C v ms rs s = Some (Ok (rs', s')) \<Longrightarrow> same_pool (pool s) (pool s')"
  by (induction ms arbitrary: rs s) (auto simp: result intro: same_pool_trans[OF route_request_same])

lemma recv_all_same: "recv_all E v rs s = Some (Ok (rs', s')) \<Longrightarrow> same_pool (pool s) (pool s')"
  by (auto simp: recv_all_def result dest!: receiving.sweep_same intro: same_pool_nodes)

lemma try_recv_all_same: "try_recv_all E v rs s = Ok (rs', s') \<Longrightarrow> same_pool (pool s) (pool s')"
  using polling.sweep_same[of E v] by (auto simp: try_recv_all_def result intro!: same_pool_nodes)

lemma insert_extra_same:
  "insert_extra E C f v ts mode ms dests p = Some (Ok (ts', mode', ms', dests', p')) \<Longrightarrow> same_pool p p'"
proof (induction ts arbitrary: mode ms dests p ts')
  case (Cons t ts)
  show ?case using Cons(2)
    by (cases "table_ty t")
      (auto simp: result split: prod.splits dest!: open_connections_same Cons(1) intro: same_pool_trans[OF same_pool_nodes])
qed simp

lemma rewrite_requests_same:
  "rewrite_requests E C f v ms p w = Some (Ok (mode, ms', p', w')) \<Longrightarrow> same_pool p p'"
  by (auto simp: rewrite_requests_def result Let_def split: prod.splits dest: insert_extra_same)

subsection \<open>Batches\<close>

abbreviation sink_ok :: "cassandra_sink \<Rightarrow> bool" where
  "sink_ok s \<equiv> pool_ok (pool s)"

lemma owned_connection_same:
  assumes "owned_connection_in_rack E ctx s = Some (Ok s')"
  shows "same_pool (pool s) (pool s')"
proof -
  obtain r rng p where g: "get_random_owned_connection_in_dc_rack E (factory s) (csn_rack (local_shotover_node (rewriter s))) (sink_rng s) (pool s)
      = Some (Ok (r, rng, p))" using assms by (auto simp: owned_connection_in_rack_def result)
  then show ?thesis using assms get_random_owned_same[OF g]
    by (cases r) (auto simp: owned_connection_in_rack_def set_control_connection_def)
qed

lemma owned_connection_ok: "owned_connection_in_rack E ctx s = Some (Ok s') \<Longrightarrow> sink_ok s \<Longrightarrow> sink_ok s'"
  using owned_connection_same pool_ok_same_pool by blast

lemma observe_nodes_ok: "observe_nodes E s = Some (Ok s') \<Longrightarrow> sink_ok s \<Longrightarrow> sink_ok s'"
  by (auto simp: observe_nodes_def Let_def pool_ok_update_nodes split: option.splits if_splits dest!: owned_connection_ok)

lemma observe_keyspaces_ok: "sink_ok s \<Longrightarrow> sink_ok (observe_keyspaces s)"
  by (auto simp: observe_keyspaces_def update_keyspaces_def pool_ok_def split: option.splits)

lemma ensure_control_connection_ok:
  assumes "ensure_control_connection S s = Some (Ok s')" and "sink_ok s"
  shows "sink_ok s'"
proof (cases "control_connection s = None")
  case True
  show ?thesis
  proof (cases "\<exists>n \<in> set (pool_nodes (pool s)). cn_is_up n \<and> cn_rack n = csn_rack (local_shotover_node (rewriter s))")
    case False
    then obtain ns r where r: "get_accessible_owned_connection (se_env S) (factory s) ns = Some (Ok r)"
      and k: "(case r of Inl _ \<Rightarrow> Some (Inl (Err ''Failed to create initial control connection from initial contact points''))
        | Inr (c, a) \<Rightarrow> Some (Ok (set_control_connection c a s))) = Some (Ok s')"
      using assms True by (simp only: ensure_control_connection_def if_False not_True_eq_False simp_thms bind_async_Ok_iff) blast
    then have "pool s' = pool s" by (cases r) (auto simp: set_control_connection_def)
    then show ?thesis using assms(2) by simp
  qed (use assms True in \<open>auto simp: ensure_control_connection_def dest: owned_connection_ok\<close>)
qed (use assms in \<open>auto simp: ensure_control_connection_def\<close>)

lemma record_handshake_ok: "record_handshake D ms s = (ms', s') \<Longrightarrow> sink_ok s \<Longrightarrow> sink_ok s'"
  by (auto simp: record_handshake_def Let_def split: if_splits)

lemma finish_handshake_ok: "finish_handshake S rs s = Some (Ok s') \<Longrightarrow> sink_ok s \<Longrightarrow> sink_ok s'"
  by (auto simp: finish_handshake_def complete_handshake_def Let_def pool_ok_update_nodes split: if_splits option.splits
      dest!: owned_connection_ok)

lemma note_responses_ok: "sink_ok s \<Longrightarrow> sink_ok (fold (note_response D) rs s)"
proof (induction rs arbitrary: s)
  case (Cons r rs)
  have "sink_ok (note_response D r s)"
    using Cons(2) by (auto simp: note_response_def Let_def add_prepared_result_def pool_ok_def split: option.splits)
  then show ?case using Cons(1) by simp
qed simp

lemma receive_ok:
  "(if mode = Isolated then recv_all E v rs s else Some (try_recv_all E v rs s)) = Some (Ok (rs', s')) \<Longrightarrow> sink_ok s \<Longrightarrow> sink_ok s'"
  using recv_all_same try_recv_all_same pool_ok_same_pool by (metis (full_types) option.inject)

lemma send_batch_ok:
  assumes "send_batch S v reqs s = Some (Ok (rs, s'))" and "sink_ok s"
  shows "sink_ok s'"
proof -
  define E where "E = se_env S"
  define C where "C = se_cql S"
  obtain s1 mode reqs2 p w where s1: "observe_nodes E s = Some (Ok s1)"
    and rq: "rewrite_requests E C (factory (observe_keyspaces s1)) v reqs (pool (observe_keyspaces s1)) (rewriter (observe_keyspaces s1))
      = Some (Ok (mode, reqs2, p, w))"
    using assms(1) by (auto simp: send_batch_def Let_def result E_def C_def split: if_splits)
  define s3 where "s3 = (observe_keyspaces s1)\<lparr>pool := p, rewriter := w\<rparr>"
  obtain rs4 s4 s5 where s4: "(if mode = Isolated then recv_all E v [] s3 else Some (Ok ([], s3))) = Some (Ok (rs4, s4))"
    and s5: "ensure_control_connection S s4 = Some (Ok s5)"
    using assms(1) s1 rq by (auto simp: send_batch_def Let_def result E_def C_def s3_def split: if_splits)
  obtain reqs6 s6 where s6: "record_handshake (cx_decoders E) reqs2 s5 = (reqs6, s6)" by fastforce
  obtain rs7 s7 rs8 s8 s9 rs10 w10 where s7: "route_requests E C v reqs6 rs4 s6 = Some (Ok (rs7, s7))"
    and s8: "(if mode = Isolated then recv_all E v rs7 s7 else Some (try_recv_all E v rs7 s7)) = Some (Ok (rs8, s8))"
    and s9: "finish_handshake S rs8 s8 = Some (Ok s9)"
    and s': "s' = fold (note_response (cx_decoders E)) rs10 (s9\<lparr>rewriter := w10\<rparr>)"
    using assms(1) s1 rq s4 s5 s6 by (auto simp: send_batch_def Let_def result E_def[symmetric] C_def[symmetric] s3_def[symmetric] split: if_splits)
  have "sink_ok (observe_keyspaces s1)" using observe_keyspaces_ok observe_nodes_ok[OF s1 assms(2)] by blast
  then have "sink_ok s3" using rewrite_requests_same[OF rq] pool_ok_same_pool by (simp add: s3_def)
  then have "sink_ok s4" using s4 recv_all_same pool_ok_same_pool by (metis option.inject prod.inject sum.inject(2))
  then have "sink_ok s6" using ensure_control_connection_ok[OF s5] record_handshake_ok[OF s6] by blast
  then have "sink_ok s9" using route_requests_same[OF s7] pool_ok_same_pool receive_ok[OF s8] finish_handshake_ok[OF s9] by blast
  then show ?thesis using note_responses_ok[of "s9\<lparr>rewriter := w10\<rparr>"] by (simp add: s')
qed

lemma send_message_ok: "send_message S reqs s = Some (Ok (rs, s')) \<Longrightarrow> sink_ok s \<Longrightarrow> sink_ok s'"
  by (auto simp: send_message_def result split: option.splits dest!: send_batch_ok)

text \<open>
  The life of an instance: between calls the topology task may send node lists and keyspaces and take
  a handshake, and other instances may add prepared statements.
\<close>

inductive sink_reach :: "cassandra_sink \<Rightarrow> bool" where
  built: "sink_reach (sink_build points f w shared counted failed nodes kss rng handshakes)"
| call: "sink_reach s \<Longrightarrow> send_message S reqs s = Some (Ok (rs, s')) \<Longrightarrow> sink_reach s'"
| observed: "sink_reach s \<Longrightarrow> sink_reach (s\<lparr>nodes_rx := nodes, keyspaces_rx := kss, handshake_tx := handshakes\<rparr>)"
| shared: "sink_reach s \<Longrightarrow> sink_reach (s\<lparr>pool := (pool s)\<lparr>prepared := m\<rparr>\<rparr>)"

lemma sink_reach_ok: "sink_reach s \<Longrightarrow> sink_ok s"
proof (induction rule: sink_reach.induct)
  case (call s S reqs rs s')
  then show ?case by (rule_tac send_message_ok)
next
  case (built points f w shared counted failed nodes kss rng handshakes)
  show ?case by (simp add: sink_build_def pool_ok_build)
qed (auto simp: pool_ok_def)

subsection \<open>Where a request goes\<close>

text \<open>A request is delivered when a connection that the sink keeps was given it to send.\<close>

definition delivered :: "cassandra_env \<Rightarrow> message \<Rightarrow> cassandra_sink \<Rightarrow> bool" where
  "delivered E m s \<longleftrightarrow> (\<exists>c c'. cass_send E [m] c = Ok c' \<and>
     (control_connection s = Some c' \<or> (\<exists>n \<in> set (pool_nodes (pool s)). cn_outbound n = Some c')))"

definition answers :: "message \<Rightarrow> message \<Rightarrow> bool" where
  "answers m r \<longleftrightarrow> request_id r = Some (id m) \<or> stream_id r = stream_id m \<and> stream_id r \<noteq> None"

lemma message_metadata_stream_id: "message_metadata D m = Ok (MCassandra md) \<Longrightarrow> stream_id m = Some (cm_stream_id md)"
proof -
  have "frame_meta f = Ok (MCassandra md) \<Longrightarrow> frame_stream_id f = Some (cm_stream_id md)" for f
    by (cases f) (auto simp: frame_metadata_def)
  then show "message_metadata D m = Ok (MCassandra md) \<Longrightarrow> stream_id m = Some (cm_stream_id md)"
    by (cases "inner m") (auto simp: message_metadata_def stream_id_def raw_metadata_def result split: message_type.splits if_splits)
qed

lemma shotover_error_stream_id: "stream_id (send_error_in_response_to_metadata E md e) = Some (cm_stream_id md)"
  by (simp add: send_error_in_response_to_metadata_def from_frame_def from_frame_at_instant_def stream_id_def shotover_error_def)

lemma error_answers: "send_error_in_response_to_message E m e = Ok r \<Longrightarrow> answers m r"
  by (auto simp: send_error_in_response_to_message_def answers_def shotover_error_stream_id
      split: sum.splits metadata.splits err.splits dest!: message_metadata_stream_id)

lemma execute_stream_id:
  "get_execute_message D m = Some (b, md) \<Longrightarrow> stream_id (snd (frame D m)) = Some (cm_stream_id md)"
  by (cases "inner m")
    (auto simp: get_execute_message_def frame_def ensure_parsed_def stream_id_def split: option.splits frame.splits
      cassandra_operation.splits sum.splits)

lemma delivered_control: "cass_send E [m] c = Ok c' \<Longrightarrow> control_connection s = Some c' \<Longrightarrow> delivered E m s"
  unfolding delivered_def by blast

lemma delivered_node:
  "cass_send E [m] c = Ok c' \<Longrightarrow> n \<in> set (pool_nodes (pool s)) \<Longrightarrow> cn_outbound n = Some c' \<Longrightarrow> delivered E m s"
  unfolding delivered_def by blast

lemma control_send_delivers: "control_send E m s = Ok s' \<Longrightarrow> delivered E m s'"
  by (auto simp: control_send_def result split: option.splits intro: delivered_control)

lemma node_send_delivers:
  assumes "node_send E i m p = Ok p'" and "i < length (pool_nodes p)" and "pool s = p'"
  shows "delivered E m s"
proof -
  obtain c c' where "cass_send E [m] c = Ok c'" "pool_nodes p' = (pool_nodes p)[i := (pool_nodes p ! i)\<lparr>cn_outbound := Some c'\<rparr>]"
    using assms(1) by (auto simp: node_send_def result split: option.splits)
  then show ?thesis using assms(2,3)
    by (intro delivered_node[of E m c c' "(pool_nodes p ! i)\<lparr>cn_outbound := Some c'\<rparr>"]) (auto intro: set_update_memI)
qed

lemma route_use_delivers: "route_use E v m rs s = Some (Ok (rs', s')) \<Longrightarrow> delivered E m s'"
  by (auto simp: route_use_def result control_send_def split: option.splits intro: delivered_control)

lemma route_prepare_answers:
  assumes "route_prepare E m rs s = Some (Ok (rs', s'))"
  shows "delivered E m s' \<or> (\<exists>r. rs' = rs @ [r] \<and> answers m r)"
  using assms
proof (cases rule: route_prepare_cases)
  case (sent i n p)
  then show ?thesis using node_send_delivers[OF sent(3)] by simp
next
  case (failed e r)
  then show ?thesis using error_answers by blast
qed

lemma random_node_index:
  assumes "env_ok E" and "get_random_node_in_dc_rack E f rack rng p = Some (Ok (Inr i, rng', p'))"
  shows "i < length (pool_nodes p')"
proof -
  define cand where "cand = indexes_of (\<lambda>n. cn_is_up n \<and> cn_rack n = rack) (pool_nodes p)"
  obtain order rng1 where sh: "cx_shuffle E rng cand = (order, rng1)" by fastforce
  have ms: "mset order = mset cand" using assms(1) sh unfolding env_ok_def by (metis fst_conv)
  obtain r ns where g: "get_accessible_node E f [] order (pool_nodes p) = Some (Ok (r, ns))" and r: "r = Inr i" and p': "pool_nodes p' = ns"
  proof -
    obtain r ns where "get_accessible_node E f [] order (pool_nodes p) = Some (Ok (r, ns))"
      using assms(2) sh by (auto simp: get_random_node_in_dc_rack_def cand_def result)
    then show thesis using assms(2) sh by (intro that) (cases r; auto simp: get_random_node_in_dc_rack_def cand_def)+
  qed
  have "distinct order" using ms distinct_indexes_of mset_eq_imp_distinct_iff unfolding cand_def by blast
  then have "i \<in> set order" using get_accessible_node_spec[OF g] r by auto
  then have "i < length (pool_nodes p)" using mset_eq_setD[OF ms] by (auto simp: cand_def set_indexes_of)
  then show ?thesis using get_accessible_node_same[OF g] p' by (simp add: list_all2_lengthD)
qed

lemma route_random_answers:
  assumes "env_ok E" and "route_random E failed m rs s = Some (Ok (rs', s'))"
    and "\<And>e r. failed e = Ok r \<Longrightarrow> answers m r"
  shows "delivered E m s' \<or> (\<exists>r. rs' = rs @ [r] \<and> answers m r)"
proof -
  obtain r rng p where g: "get_random_node_in_dc_rack E (factory s) (csn_rack (local_shotover_node (rewriter s))) (sink_rng s) (pool s)
      = Some (Ok (r, rng, p))" using assms(2) by (auto simp: route_random_def result)
  show ?thesis
  proof (cases r)
    case (Inl e)
    then show ?thesis using assms(2,3) g by (auto simp: route_random_def result)
  next
    case (Inr i)
    then obtain p' where "node_send E i m p = Ok p'" "pool s' = p'" using assms(2) g by (auto simp: route_random_def result)
    then show ?thesis using node_send_delivers random_node_index[OF assms(1)] g Inr by blast
  qed
qed

lemma replica_connection_index:
  assumes "env_ok E" and "get_replica_connection_in_dc E f execute rack rng p = Some (Ok (Inr i, rng', p'))"
  shows "i < length (pool_nodes p')"
proof -
  obtain x rng1 p1 where x: "get_replica_node_in_dc E execute rack rng p = Ok (x, rng1, p1)"
    using assms(2) by (auto simp: get_replica_connection_in_dc_def result)
  then obtain "is" where is': "x = Inr is" using assms(2) by (cases x) (auto simp: get_replica_connection_in_dc_def)
  obtain r ns where g: "get_accessible_node E f [] is (pool_nodes p1) = Some (Ok (r, ns))"
    using assms(2) x is' by (auto simp: get_replica_connection_in_dc_def result)
  then have r: "r = Inr i" "pool_nodes p' = ns" using assms(2) x is' by (cases r; simp add: get_replica_connection_in_dc_def; auto)+
  have d: "distinct is" "\<forall>j \<in> set is. j < length (pool_nodes p)" "pool_nodes p1 = pool_nodes p"
    by (rule replica_nodes_spec[OF assms(1), of execute rack rng p "is" rng1 p1]; use x is' in auto)+
  then have "i \<in> set is" using get_accessible_node_spec[OF g] r by auto
  then show ?thesis using d get_accessible_node_same[OF g] r by (simp add: list_all2_lengthD)
qed

lemma route_execute_answers:
  assumes "env_ok E" and "route_execute E v execute md m rs s = Some (Ok (rs', s'))" and "stream_id m = Some (cm_stream_id md)"
  shows "delivered E m s' \<or> (\<exists>r. rs' = rs @ [r] \<and> answers m r)"
proof -
  obtain x rng p where g: "get_replica_connection_in_dc E (factory s) execute (csn_rack (local_shotover_node (rewriter s))) (sink_rng s) (pool s)
      = Some (Ok (x, rng, p))" using assms(2) by (auto simp: route_execute_def result)
  have err: "answers m (send_error_in_response_to_metadata E md e)" for e
    using assms(3) by (simp add: answers_def shotover_error_stream_id)
  have unp: "answers m (unprepared_error E v md q)" for q
    using assms(3) by (simp add: answers_def unprepared_error_def from_frame_def from_frame_at_instant_def stream_id_def)
  show ?thesis
  proof (cases x)
    case (Inr i)
    then obtain p' where "node_send E i m p = Ok p'" "pool s' = p'"
      using assms(2) g by (auto simp: route_execute_def result Let_def)
    then show ?thesis using node_send_delivers replica_connection_index[OF assms(1)] g Inr by blast
  next
    case (Inl e)
    then show ?thesis
    proof (cases e)
      case NoKeyspaceMetadata
      then show ?thesis using assms(2) g Inl err
        by (intro route_random_answers[OF assms(1), of _ m rs "s\<lparr>sink_rng := rng, pool := p\<rparr>"]) (auto simp: route_execute_def Let_def)
    next
      case NoRoutingKey
      then show ?thesis using assms(2) g Inl err
        by (intro route_random_answers[OF assms(1), of _ m rs "s\<lparr>sink_rng := rng, pool := p\<rparr>"]) (auto simp: route_execute_def Let_def)
    qed (use assms(2) g Inl err unp in \<open>auto simp: route_execute_def Let_def\<close>)
  qed
qed

end
