(* ===== verification/Cassandra_Theorems.thy ===== *)
theory Cassandra_Theorems
  imports Cassandra_Sink_Contract
begin

text \<open>The properties of the Cassandra cluster sink and of \<^verbatim>\<open>CassandraPeersRewrite\<close>.\<close>

subsection \<open>Tokens\<close>

text \<open>The bytes that Cassandra hashes for a partition key of one or several columns.\<close>

fun partition_key :: "bytes list \<Rightarrow> bytes" where
  "partition_key [v] = v"
| "partition_key vs = concat (map (\<lambda>v. u16_be (length v) @ v @ [0]) vs)"

lemma write_composite_fold:
  assumes "list_all2 (\<lambda>i v. i < length values \<and> values ! i = VSome v \<and> length v < 65536) is vs"
  shows "write_composite values (map int is) m =
    Some (fold murmur_write (concat (map (\<lambda>v. [u16_be (length v), v, [0]]) vs)) m)"
  using assms
proof (induction "is" vs arbitrary: m rule: list_all2_induct)
  case (Cons i "is" v vs)
  then show ?case by (simp add: get_value_def)
qed simp

lemma concat_pieces: "concat (concat (map (\<lambda>v. [f v, v, [0]]) vs)) = concat (map (\<lambda>v. f v @ v @ [0]) vs)"
  by (induction vs) auto

lemma finish_writes: "murmur_finish (fold murmur_write parts murmur_new) = murmur_token (concat parts)"
  using absorbed_finish[OF absorbed_writes[OF absorbed_new, of parts]] by simp

text \<open>
  C14: the routing key of an \<^verbatim>\<open>EXECUTE\<close> whose partition key columns are all bound is the Murmur3 token
  of the serialised partition key (the value itself for one column, otherwise each value
  behind its length and before a zero byte), although the hasher gets it in pieces and
  buffers what does not fill a block of sixteen bytes.
\<close>

theorem routing_key_is_partition_token:
  assumes "is \<noteq> []"
    and "list_all2 (\<lambda>i v. i < length values \<and> values ! i = VSome v \<and> length v < 65536) is vs"
  shows "calculate_routing_key (map int is) (SimpleValues values) = Ok (Some (murmur_token (partition_key vs)))"
proof (cases "is")
  case (Cons i js)
  show ?thesis
  proof (cases js)
    case Nil
    then obtain v where "vs = [v]" "i < length values" "values ! i = VSome v"
      using assms(2) Cons by (auto simp: list_all2_Cons1)
    then show ?thesis using Cons Nil finish_writes[of "[v]"]
      by (simp add: calculate_routing_key_def serialize_routing_key_with_indexes_def get_value_def)
  next
    case (Cons j ks)
    then obtain u v ws where "vs = u # v # ws" using assms(2) \<open>is = i # js\<close> by (auto simp: list_all2_Cons1)
    then show ?thesis
      using write_composite_fold[OF assms(2), of murmur_new] \<open>is = i # js\<close> Cons
        finish_writes[of "concat (map (\<lambda>v. [u16_be (length v), v, [0]]) vs)"] concat_pieces[of "\<lambda>v. u16_be (length v)" vs]
      by (simp add: calculate_routing_key_def serialize_routing_key_with_indexes_def)
  qed
qed (use assms in simp)

theorem routing_key_is_partition_token_witness:
  "calculate_routing_key [1, 0] (SimpleValues [VSome [7], VSome [1, 2], VNotSet]) =
    Ok (Some (murmur_token [0, 2, 1, 2, 0, 0, 1, 7, 0]))"
  using routing_key_is_partition_token[of "[1, 0]" "[VSome [7], VSome [1, 2], VNotSet]" "[[1, 2], [7]]"]
  by (simp add: u16_be_def)

subsection \<open>Replicas\<close>

definition owners_from :: "cassandra_node list \<Rightarrow> int \<Rightarrow> uuid list" where
  "owners_from ns t =
    map snd (filter (\<lambda>p. t \<le> fst p) (ring_pairs ns)) @ map snd (filter (\<lambda>p. fst p < t) (ring_pairs ns))"

text \<open>
  C13: with the network topology strategy and no token owned twice, the walk along the ring never
  panics and returns as many hosts as the replication factor asks for and racks allow, no two
  of them in the same rack, in the order of the ring from the first token that is not
  smaller than the key's, and each of them the first host of its rack on the way.
\<close>

theorem network_topology_replicas:
  assumes "strategy ks = NetworkTopologyStrategy" and "distinct (concat (map cn_tokens ns))"
  shows "\<exists>hs. iter_replica_nodes (token_ring_new ns) ns t ks = Ok hs
    \<and> length hs = min (replication_factor ks) (card (rack_of ns ` set (owners_from ns t)))
    \<and> distinct (map (rack_of ns) hs) \<and> subseq hs (owners_from ns t)
    \<and> (\<forall>h \<in> set hs. \<exists>a b. owners_from ns t = a @ h # b \<and> rack_of ns h \<notin> rack_of ns ` set a)"
proof -
  define w where "w = owners_from ns t"
  have w: "ring_range (token_ring_new ns) t = w"
    using ring_range_owners[of ns t] assms(2) by (simp add: distinct_ring_pairs w_def owners_from_def)
  have "set w \<subseteq> cn_host_id ` set ns" using ring_range_set[of "token_ring_new ns" t] ring_hosts[of ns] w by blast
  then have "iter_replica_nodes (token_ring_new ns) ns t ks =
      Ok (take (replication_factor ks) (first_of_each (rack_of ns) {} w))"
    using replica_walk_racks[of w ns "replication_factor ks" "[]"] assms(1) by (simp add: iter_replica_nodes_def w)
  moreover have "distinct (map (rack_of ns) (take k (first_of_each (rack_of ns) {} w)))" for k
    using first_of_each_distinct[of "rack_of ns" "{}" w] by (simp add: distinct_take flip: take_map)
  moreover have "subseq (take k (first_of_each (rack_of ns) {} w)) w" for k
    by (rule subseq_order.order_trans[OF subseq_take first_of_each_subseq])
  moreover have "\<exists>a b. w = a @ h # b \<and> rack_of ns h \<notin> rack_of ns ` set a"
    if "h \<in> set (take k (first_of_each (rack_of ns) {} w))" for h k
    by (rule first_of_each_first[OF in_set_takeD[OF that]])
  ultimately show ?thesis unfolding w_def[symmetric]
    by (intro exI[of _ "take (replication_factor ks) (first_of_each (rack_of ns) {} w)"])
      (simp add: first_of_each_length min.commute)
qed

definition ex_addr :: "nat \<Rightarrow> socket_addr" where
  "ex_addr n = \<lparr>sa_ip = V4 n, sa_port = 9042\<rparr>"

definition ex_ring :: "cassandra_node list" where
  "ex_ring = [node_new (ex_addr 1) ''r1'' [10, 40] 1, node_new (ex_addr 2) ''r1'' [20] 2, node_new (ex_addr 3) ''r2'' [30] 3]"

theorem network_topology_replicas_witness:
  "\<exists>hs. iter_replica_nodes (token_ring_new ex_ring) ex_ring 15 \<lparr>replication_factor = 2, strategy = NetworkTopologyStrategy\<rparr> = Ok hs
    \<and> length hs = 2 \<and> distinct (map (rack_of ex_ring) hs) \<and> subseq hs [2, 3, 1, 1]"
proof -
  have o: "owners_from ex_ring 15 = [2, 3, 1, 1]" by (simp add: owners_from_def ring_pairs_def ex_ring_def node_new_def)
  have r: "rack_of ex_ring (Suc 0) = ''r1''" "rack_of ex_ring 2 = ''r1''" "rack_of ex_ring 3 = ''r2''"
    by (simp_all add: rack_of_def ex_ring_def node_new_def)
  have "distinct (concat (map cn_tokens ex_ring))" by (simp add: ex_ring_def node_new_def)
  from network_topology_replicas[OF _ this, of "\<lparr>replication_factor = 2, strategy = NetworkTopologyStrategy\<rparr>" 15]
  show ?thesis by (auto simp: o r insert_commute)
qed

text \<open>
  C12: the node that gets an \<^verbatim>\<open>EXECUTE\<close> is up and owns a replica of its partition.  It is outside the
  sink's rack only when no connection could be made to any replica in the rack that was up; all
  of those are marked as down then.
\<close>

theorem execute_prefers_local_replica:
  assumes "env_ok E" and "get_replica_connection_in_dc E f execute rack rng p = Some (Ok (Inr i, rng', p'))"
  shows "\<exists>md ks vs token hs. prepared p (execute_id execute) = Some md
    \<and> Option.bind (pm_keyspace md) (keyspaces p) = Some ks \<and> execute_values execute = Some vs
    \<and> calculate_routing_key (pm_pk_indexes md) vs = Ok (Some token)
    \<and> iter_replica_nodes (token_map p) (pool_nodes p) token ks = Ok hs
    \<and> i < length (pool_nodes p) \<and> cn_host_id (pool_nodes p ! i) \<in> set hs \<and> cn_is_up (pool_nodes p ! i)
    \<and> cn_outbound (pool_nodes p' ! i) \<noteq> None
    \<and> (cn_rack (pool_nodes p ! i) \<noteq> rack \<longrightarrow>
        (\<forall>j < length (pool_nodes p). cn_host_id (pool_nodes p ! j) \<in> set hs \<and> cn_is_up (pool_nodes p ! j)
           \<and> cn_rack (pool_nodes p ! j) = rack \<longrightarrow> \<not> cn_is_up (pool_nodes p' ! j)))"
proof -
  from assms(2) obtain "is" p1 ns where r: "get_replica_node_in_dc E execute rack rng p = Ok (Inr is, rng', p1)"
    and a: "get_accessible_node E f [] is (pool_nodes p1) = Some (Ok (Inr i, ns))" and p': "p' = p1\<lparr>pool_nodes := ns\<rparr>"
  proof -
    obtain x rng1 p1 where r: "get_replica_node_in_dc E execute rack rng p = Ok (x, rng1, p1)"
      using assms(2) by (auto simp: get_replica_connection_in_dc_def result)
    then obtain "is" where x: "x = Inr is" using assms(2) by (cases x) (auto simp: get_replica_connection_in_dc_def)
    then obtain y ns where y: "get_accessible_node E f [] is (pool_nodes p1) = Some (Ok (y, ns))"
      using assms(2) r by (auto simp: get_replica_connection_in_dc_def result)
    then show ?thesis using assms(2) r x by (intro that[of "is" p1 ns]) (cases y; simp add: get_replica_connection_in_dc_def)+
  qed
  obtain md ks vs token hs where
    q: "prepared p (execute_id execute) = Some md" "Option.bind (pm_keyspace md) (keyspaces p) = Some ks"
    "execute_values execute = Some vs" "calculate_routing_key (pm_pk_indexes md) vs = Ok (Some token)"
    "iter_replica_nodes (token_map p) (pool_nodes p) token ks = Ok hs" and
    idx: "set is = {i. i < length (pool_nodes p) \<and> cn_host_id (pool_nodes p ! i) \<in> set hs \<and> cn_is_up (pool_nodes p ! i)}"
    "distinct is" "\<exists>k. in_front (\<lambda>i. cn_rack (pool_nodes p ! i) = rack) (length is) is k"
    and p1: "pool_nodes p1 = pool_nodes p" by (rule replica_nodes_spec[OF assms(1) r]) (rule that)
  obtain k where front: "in_front (\<lambda>i. cn_rack (pool_nodes p ! i) = rack) (length is) is k" using idx(3) by blast
  from get_accessible_node_spec[OF a idx(2)] p1 obtain tried later where
    t: "is = tried @ i # later" "\<forall>j \<in> set tried. j < length (pool_nodes p) \<longrightarrow> \<not> cn_is_up (ns ! j)"
    "i < length (pool_nodes p) \<Longrightarrow> cn_outbound (ns ! i) \<noteq> None" by auto
  have i: "i < length (pool_nodes p) \<and> cn_host_id (pool_nodes p ! i) \<in> set hs \<and> cn_is_up (pool_nodes p ! i)"
    using idx(1) t(1) by auto
  have "j \<in> set tried"
    if i': "cn_rack (pool_nodes p ! i) \<noteq> rack" and j: "j \<in> set is" "cn_rack (pool_nodes p ! j) = rack" for j
  proof -
    obtain n where n: "n < length is" "is ! n = j" using j(1) by (auto simp: in_set_conv_nth)
    have "n < k" using front n j(2) by (auto simp: in_front_def not_less)
    moreover have "\<not> length tried < k" using front t(1) i' by (auto simp: in_front_def)
    ultimately show ?thesis using n t(1) by (metis less_le_trans not_less nth_append nth_mem)
  qed
  then have "\<forall>j < length (pool_nodes p). cn_host_id (pool_nodes p ! j) \<in> set hs \<and> cn_is_up (pool_nodes p ! j)
      \<and> cn_rack (pool_nodes p ! j) = rack \<longrightarrow> \<not> cn_is_up (pool_nodes p' ! j)" if "cn_rack (pool_nodes p ! i) \<noteq> rack"
    using that idx(1) t(2) p' by auto
  then show ?thesis using q i t(3) p' by auto
qed

definition ex_decoders :: decoders where
  "ex_decoders = \<lparr>dec_cassandra = (\<lambda>_ _. Inl (Err ''no codec'')), dec_valkey = (\<lambda>_. Inl (Err ''no codec'')),
     dec_kafka = (\<lambda>_ _. Inl (Err ''no codec'')), dec_opensearch = (\<lambda>_. Inl (Err ''no codec'')),
     dec_version = (\<lambda>_. Inl (Err ''no codec'')), dec_opcode = (\<lambda>_. Inl (Err ''no codec'')),
     dec_raw_body = (\<lambda>_. Inl (Err ''no codec''))\<rparr>"

text \<open>Only the node at the first address cannot be reached.\<close>

definition ex_cassandra_env :: cassandra_env where
  "ex_cassandra_env = \<lparr>cx_connect = (\<lambda>a. if a = ex_addr 1 then Inl (Err ''refused'') else Ok ()),
     cx_srv = (\<lambda>_. Closes), cx_decoders = ex_decoders, cx_dummy_id = (\<lambda>i. i + 1000), cx_response_id = (\<lambda>i. nat i + 2000),
     cx_hash_order = (\<lambda>xs. xs), cx_shuffle = (\<lambda>g xs. (xs, g)), cx_show_addr = (\<lambda>_. ''address'')\<rparr>"

definition ex_factory :: connection_factory where
  "ex_factory = set_force_run_chain factory_new"

definition ex_two_nodes :: "cassandra_node list" where
  "ex_two_nodes = [node_new (ex_addr 1) ''r1'' [10] 1, node_new (ex_addr 2) ''r2'' [20] 2]"

definition ex_pool :: node_pool where
  "ex_pool = \<lparr>prepared = [[9] \<mapsto> \<lparr>pm_pk_indexes = [0], pm_keyspace = Some ''ks''\<rparr>],
     keyspaces = [''ks'' \<mapsto> \<lparr>replication_factor = 2, strategy = SimpleStrategy\<rparr>],
     token_map = token_ring_new ex_two_nodes, pool_nodes = ex_two_nodes, out_of_rack_requests = 0\<rparr>"

definition ex_execute :: execute_body where
  "ex_execute = \<lparr>execute_id = [9], execute_values = Some (SimpleValues [VSome [5]]), execute_rest = 0\<rparr>"

lemma ex_cassandra_env_ok: "env_ok ex_cassandra_env"
  by (simp add: env_ok_def ex_cassandra_env_def)

lemma ex_ring_range: "set (ring_range (token_ring_new ex_two_nodes) t) = {1, 2} \<and> length (ring_range (token_ring_new ex_two_nodes) t) = 2"
proof -
  have "ring_pairs ex_two_nodes = [(10, 1), (20, 2)]" by (simp add: ring_pairs_def ex_two_nodes_def node_new_def)
  then show ?thesis using ring_range_owners[of ex_two_nodes t] by auto
qed

lemma ex_replicas:
  "get_replica_node_in_dc ex_cassandra_env ex_execute ''r1'' 0 ex_pool = Ok (Inr [0, 1], 0, ex_pool)"
proof -
  obtain t where t: "calculate_routing_key [0] (SimpleValues [VSome [5]]) = Ok (Some t)"
    by (simp add: calculate_routing_key_def serialize_routing_key_with_indexes_def get_value_def)
  have "iter_replica_nodes (token_ring_new ex_two_nodes) ex_two_nodes t \<lparr>replication_factor = 2, strategy = SimpleStrategy\<rparr> =
      Ok (ring_range (token_ring_new ex_two_nodes) t)"
    using ex_ring_range[of t] by (simp add: iter_replica_nodes_def replica_walk_simple)
  moreover have "indexes_of (\<lambda>n. cn_host_id n \<in> set (ring_range (token_ring_new ex_two_nodes) t) \<and> cn_is_up n) ex_two_nodes = [0, 1]"
    using ex_ring_range[of t] by (simp add: indexes_of_def ex_two_nodes_def node_new_def)
  moreover have "move_to_front (\<lambda>i. cn_rack (ex_two_nodes ! i) = ''r1'') [0, 1] = ([0, 1], 1)"
    by (simp add: move_to_front_def swap_def ex_two_nodes_def node_new_def upt_rec)
  ultimately show ?thesis using t
    by (simp add: get_replica_node_in_dc_def ex_pool_def ex_execute_def ex_cassandra_env_def)
qed

lemma ex_accessible:
  "\<exists>ns. get_accessible_node ex_cassandra_env ex_factory [] [0, 1] ex_two_nodes = Some (Ok (Inr 1, ns))"
  by (simp add: get_connection_def new_connection_def new_sink_connection_def ex_two_nodes_def node_new_def ex_factory_def
      set_force_run_chain_def factory_new_def ex_cassandra_env_def ex_addr_def)

theorem execute_prefers_local_replica_witness:
  "\<exists>p'. get_replica_connection_in_dc ex_cassandra_env ex_factory ex_execute ''r1'' 0 ex_pool = Some (Ok (Inr 1, 0, p'))
    \<and> \<not> cn_is_up (pool_nodes p' ! 0)"
proof -
  obtain ns where ns: "get_accessible_node ex_cassandra_env ex_factory [] [0, 1] ex_two_nodes = Some (Ok (Inr 1, ns))"
    using ex_accessible by blast
  have "pool_nodes ex_pool = ex_two_nodes" by (simp add: ex_pool_def)
  then obtain p' where p': "get_replica_connection_in_dc ex_cassandra_env ex_factory ex_execute ''r1'' 0 ex_pool = Some (Ok (Inr 1, 0, p'))"
    using ex_replicas ns by (simp add: get_replica_connection_in_dc_def del: get_accessible_node.simps)
  obtain t where t: "calculate_routing_key [0] (SimpleValues [VSome [5]]) = Ok (Some t)"
    by (simp add: calculate_routing_key_def serialize_routing_key_with_indexes_def get_value_def)
  have "iter_replica_nodes (token_ring_new ex_two_nodes) ex_two_nodes t \<lparr>replication_factor = 2, strategy = SimpleStrategy\<rparr> =
      Ok (ring_range (token_ring_new ex_two_nodes) t)"
    using ex_ring_range[of t] by (simp add: iter_replica_nodes_def replica_walk_simple)
  then have "\<not> cn_is_up (pool_nodes p' ! 0)"
    using execute_prefers_local_replica[OF ex_cassandra_env_ok p'] t ex_ring_range[of t]
    by (auto simp: ex_pool_def ex_execute_def ex_two_nodes_def node_new_def)
  then show ?thesis using p' by blast
qed

text \<open>
  C15: whatever node lists, keyspaces and prepared statements an instance of the sink has seen over its
  life, the ring names only hosts of its pool: looking up the replicas of a token never
  unwraps a node that is not there.
\<close>

theorem replica_lookup_never_panics:
  assumes "sink_reach s"
  shows "\<exists>hs. iter_replica_nodes (token_map (pool s)) (pool_nodes (pool s)) t ks = Ok hs"
  using iter_replica_nodes_ok sink_reach_ok[OF assms] by (simp add: pool_ok_def)

definition ex_cql :: cql where
  "ex_cql = \<lparr>ident_eq = (=), fq_eq = (=), parse_identifier = Unquoted, is_key_local = (\<lambda>_. False), parse_ast = (\<lambda>_. (True, [])),
     show_fq = (\<lambda>_. ''table''), version_lt = (\<lambda>_ _. False), new_v4 = (\<lambda>n k. n + k), new_id = (\<lambda>ms. Suc (sum_list (map id ms))),
     debug_error = (\<lambda>m _. m), debug_prepared = (\<lambda>_. ''prepared''), debug_value = (\<lambda>_. ''value'')\<rparr>"

definition ex_rewriter :: message_rewriter where
  "ex_rewriter = \<lparr>shotover_peers = [], local_shotover_node =
     \<lparr>csn_address = ex_addr 9, csn_data_center = ''dc'', csn_rack = ''r2'', csn_host_id = 9\<rparr>,
     to_rewrite = [], prepare_destinations = []\<rparr>"

definition ex_built :: cassandra_sink where
  "ex_built = sink_build [''host''] factory_new ex_rewriter (\<lambda>_. None) 0 0 (Some ex_two_nodes) None 0 []"

definition ex_sink_env :: sink_env where
  "ex_sink_env = \<lparr>se_env = ex_cassandra_env, se_cql = ex_cql, se_lookup_host = (\<lambda>_. Ok [ex_addr 2]), se_task_lives = True,
     se_nodes = None\<rparr>"

definition ex_request :: "cassandra_operation \<Rightarrow> message" where
  "ex_request q = from_frame 7 (FCassandra \<lparr>cversion = 4, cstream_id = 3, ctracing = TRequest False, cwarnings = [], coperation = q\<rparr>)"

lemmas ex_sink_eval = send_message_def detect_version_def ex_request_def is_dummy_def from_frame_def from_frame_at_instant_def
  message_metadata_def ex_sink_env_def ex_built_def sink_build_def send_batch_def observe_nodes_def observe_keyspaces_def
  Let_def frame_metadata_def ex_cassandra_env_def rewrite_requests_def get_rewrite_table_def frame_def ensure_parsed_def
  ensure_control_connection_def owned_connection_in_rack_def update_nodes_def pool_build_def ex_rewriter_def ex_two_nodes_def
  node_new_def ex_addr_def get_random_owned_connection_in_dc_rack_def indexes_of_def get_connection_def new_connection_def
  new_sink_connection_def set_force_run_chain_def new_with_same_config_def factory_new_def cassandra_connection_new_def
  take_outbound_def set_control_connection_def record_handshake_def route_request_def is_handshake_request_def to_control_def
  control_send_def cass_send_def node_clone_def get_random_node_in_dc_rack_def send_requests_def try_recv_all_def
  cass_try_recv_def try_recv_into_def node_try_recv_def finish_handshake_def rewrite_responses_def note_response_def
  conn_new_def conn_send_def inserter_new_def process_requests_def process_responses_def stream_id_def response_is_dummy_def
  message_type_def

lemma ex_startup_call:
  "\<exists>rs s. send_message ex_sink_env [ex_request (Startup 0)] ex_built = Some (Ok (rs, s)) \<and> length (pool_nodes (pool s)) = 2"
  by (simp add: ex_sink_eval)

theorem replica_lookup_never_panics_witness:
  "\<exists>rs s hs. send_message ex_sink_env [ex_request (Startup 0)] ex_built = Some (Ok (rs, s)) \<and> length (pool_nodes (pool s)) = 2
    \<and> iter_replica_nodes (token_map (pool s)) (pool_nodes (pool s)) 15 \<lparr>replication_factor = 2, strategy = SimpleStrategy\<rparr> = Ok hs"
proof -
  obtain rs s where s: "send_message ex_sink_env [ex_request (Startup 0)] ex_built = Some (Ok (rs, s))" "length (pool_nodes (pool s)) = 2"
    using ex_startup_call by blast
  moreover have "sink_reach s" by (rule sink_reach.call[OF _ s(1)]) (simp add: ex_built_def sink_reach.built)
  ultimately show ?thesis using replica_lookup_never_panics[of s 15 "\<lparr>replication_factor = 2, strategy = SimpleStrategy\<rparr>"] by blast
qed

subsection \<open>Routing\<close>


definition ex_ready :: cassandra_sink where
  "ex_ready = ex_built\<lparr>pool := ex_pool, init_handshake_complete := True\<rparr>"

lemma ex_options_route:
  "\<exists>s. route_request ex_cassandra_env ex_cql 4 (ex_request (Options [])) [] ex_ready = Some (Ok ([], s))"
  by (simp add: ex_sink_eval ex_ready_def ex_pool_def is_ddl_statement_def is_system_query_def is_use_statement_def
      is_prepare_message_def get_execute_message_def query_of_def route_random_def node_send_def)


end
